(* ===== verification/Prelude.thy ===== *)
theory Prelude
  imports Main "HOL-Library.AList"
begin

text \<open>
  Shared ground of the development: results that carry a raised exception, actions over an
  external state, dictionaries as association lists in insertion order, and the two-way
  encodings (\<open>codec\<close>) the components interpret. Nothing here mentions the program.
\<close>

named_theorems py_eval \<comment> \<open>equations that evaluate the Python primitives on closed terms\<close>

section \<open>Results: a raised exception or a value\<close>

text \<open>
  A fallible computation returns \<open>'e + 'a\<close>: \<open>Inl e\<close> when the code raises \<open>e\<close>, \<open>Inr a\<close>
  when it returns \<open>a\<close>. \<open>bindE\<close> is "evaluate this, then that": the first exception wins.
\<close>

definition bindE :: "'e + 'a \<Rightarrow> ('a \<Rightarrow> 'e + 'b) \<Rightarrow> 'e + 'b" where
  "bindE r f = (case r of Inl e \<Rightarrow> Inl e | Inr a \<Rightarrow> f a)"

lemma bindE_simps [simp]:
  "bindE (Inl e) f = Inl e"
  "bindE (Inr a) f = f a"
  by (simp_all add: bindE_def)

lemma bindE_eq_Inr: "bindE r f = Inr b \<longleftrightarrow> (\<exists>a. r = Inr a \<and> f a = Inr b)"
  by (cases r) simp_all

lemma bindE_eq_Inl: "bindE r f = Inl e \<longleftrightarrow> r = Inl e \<or> (\<exists>a. r = Inr a \<and> f a = Inl e)"
  by (cases r) simp_all

lemma bindE_cong [fundef_cong]:
  assumes "r = r'" and "\<And>a. r' = Inr a \<Longrightarrow> f a = f' a"
  shows "bindE r f = bindE r' f'"
  using assms by (cases r') simp_all

fun mapE :: "('a \<Rightarrow> 'e + 'b) \<Rightarrow> 'a list \<Rightarrow> 'e + 'b list" where
  "mapE f [] = Inr []"
| "mapE f (x # xs) = bindE (f x) (\<lambda>y. bindE (mapE f xs) (\<lambda>ys. Inr (y # ys)))"

lemma mapE_cong [fundef_cong]:
  assumes "xs = ys" and "\<And>x. x \<in> set ys \<Longrightarrow> f x = g x"
  shows "mapE f xs = mapE g ys"
  unfolding assms(1) using assms(2) by (induction ys) (auto intro!: bindE_cong)

lemma mapE_Inr_iff: "mapE f xs = Inr ys \<longleftrightarrow> list_all2 (\<lambda>x y. f x = Inr y) xs ys"
proof (induction xs arbitrary: ys)
  case Nil
  then show ?case by auto
next
  case (Cons x xs)
  then show ?case by (cases ys) (auto simp: bindE_eq_Inr)
qed

lemma mapE_map_Inr: "(\<And>x. x \<in> set xs \<Longrightarrow> f (g x) = Inr x) \<Longrightarrow> mapE f (map g xs) = Inr xs"
  by (induction xs) simp_all

text \<open>\<open>try\<close>/\<open>except\<close> around a computation without effects.\<close>

definition catchE :: "'e + 'a \<Rightarrow> ('e \<Rightarrow> 'e + 'a) \<Rightarrow> 'e + 'a" where
  "catchE r k = (case r of Inl e \<Rightarrow> k e | Inr a \<Rightarrow> Inr a)"

lemma catchE_simps [simp]:
  "catchE (Inl e) k = k e"
  "catchE (Inr a) k = Inr a"
  by (simp_all add: catchE_def)

section \<open>Actions: computations over an external state\<close>

text \<open>
  Code that awaits the outside world is a function of an external state \<open>'h\<close> (the Home
  Assistant instance, the node, the clock) that returns its result and the state it left.
  The state left by a raising computation is kept, as the effects before a raise are.
\<close>

type_synonym ('h, 'e, 'a) act = "'h \<Rightarrow> ('e + 'a) \<times> 'h"

definition retA :: "'a \<Rightarrow> ('h, 'e, 'a) act" where
  "retA a = (\<lambda>h. (Inr a, h))"

definition raiseA :: "'e \<Rightarrow> ('h, 'e, 'a) act" where
  "raiseA e = (\<lambda>h. (Inl e, h))"

definition readA :: "('h \<Rightarrow> 'a) \<Rightarrow> ('h, 'e, 'a) act" where
  "readA f = (\<lambda>h. (Inr (f h), h))"

definition liftE :: "'e + 'a \<Rightarrow> ('h, 'e, 'a) act" where
  "liftE r = (\<lambda>h. (r, h))"

definition bindA :: "('h, 'e, 'a) act \<Rightarrow> ('a \<Rightarrow> ('h, 'e, 'b) act) \<Rightarrow> ('h, 'e, 'b) act" where
  "bindA m f = (\<lambda>h. case m h of (Inl e, h') \<Rightarrow> (Inl e, h') | (Inr a, h') \<Rightarrow> f a h')"

definition catchA :: "('h, 'e, 'a) act \<Rightarrow> ('e \<Rightarrow> ('h, 'e, 'a) act) \<Rightarrow> ('h, 'e, 'a) act" where
  "catchA m k = (\<lambda>h. case m h of (Inl e, h') \<Rightarrow> k e h' | (Inr a, h') \<Rightarrow> (Inr a, h'))"

fun forA :: "('a \<Rightarrow> ('h, 'e, unit) act) \<Rightarrow> 'a list \<Rightarrow> ('h, 'e, unit) act" where
  "forA f [] = retA ()"
| "forA f (x # xs) = bindA (f x) (\<lambda>_. forA f xs)"

lemma act_simps [simp]:
  "retA a h = (Inr a, h)"
  "raiseA e h = (Inl e, h)"
  "readA g h = (Inr (g h), h)"
  "liftE r h = (r, h)"
  by (simp_all add: retA_def raiseA_def readA_def liftE_def)

lemma bindA_Inr: "m h = (Inr a, h') \<Longrightarrow> bindA m f h = f a h'"
  by (simp add: bindA_def)

lemma bindA_Inl: "m h = (Inl e, h') \<Longrightarrow> bindA m f h = (Inl e, h')"
  by (simp add: bindA_def)

lemma catchA_Inr: "m h = (Inr a, h') \<Longrightarrow> catchA m k h = (Inr a, h')"
  by (simp add: catchA_def)

lemma catchA_Inl: "m h = (Inl e, h') \<Longrightarrow> catchA m k h = k e h'"
  by (simp add: catchA_def)

lemma bindA_basic [simp]:
  "bindA (retA a) f = f a"
  "bindA (raiseA e) f = raiseA e"
  "bindA (readA g) f h = f (g h) h"
  "bindA (liftE (Inr a)) f = f a"
  "bindA (liftE (Inl e)) f = raiseA e"
  by (rule ext | simp add: bindA_def)+

lemma bindA_Pair [simp]:
  "bindA (Pair (Inr a)) f = f a"
  "bindA (Pair (Inl e)) f = Pair (Inl e)"
  by (rule ext, simp add: bindA_def)+

lemma bindA_eq_Inr:
  "bindA m f h = (Inr b, h'') \<longleftrightarrow> (\<exists>a h'. m h = (Inr a, h') \<and> f a h' = (Inr b, h''))"
  by (auto simp: bindA_def split: prod.splits sum.splits)

lemma bindA_assoc: "bindA (bindA m f) g = bindA m (\<lambda>a. bindA (f a) g)"
  by (rule ext) (auto simp: bindA_def split: prod.splits sum.splits)

text \<open>
  An object with state of its own acts on the pair of its state and the external one:
  \<open>on_world\<close> runs an action of the outside, \<open>own\<close> reads the object, \<open>set_own\<close> changes it.
\<close>

definition on_world :: "('h, 'e, 'a) act \<Rightarrow> ('s \<times> 'h, 'e, 'a) act" where
  "on_world m = (\<lambda>(s, h). case m h of (r, h') \<Rightarrow> (r, (s, h')))"

definition own :: "('s \<Rightarrow> 'a) \<Rightarrow> ('s \<times> 'h, 'e, 'a) act" where
  "own f = readA (f \<circ> fst)"

definition set_own :: "('s \<Rightarrow> 's) \<Rightarrow> ('s \<times> 'h, 'e, unit) act" where
  "set_own f = (\<lambda>(s, h). (Inr (), (f s, h)))"

lemma on_world_simps [simp]:
  "on_world m (s, h) = (fst (m h), (s, snd (m h)))"
  "own f (s, h) = (Inr (f s), (s, h))"
  "set_own g (s, h) = (Inr (), (g s, h))"
  by (simp_all add: on_world_def own_def set_own_def case_prod_beta)

section \<open>What an action leaves alone\<close>

text \<open>
  \<open>keeps f m\<close>: whatever the action \<open>m\<close> does and however it ends, the observation \<open>f\<close> of the state is
  the same before and after. The rules follow the combinators, so a handler built from actions
  that keep something keeps it by \<open>intro keeps_intros\<close>.
\<close>

definition keeps :: "('h \<Rightarrow> 'b) \<Rightarrow> ('h, 'e, 'a) act \<Rightarrow> bool" where
  "keeps f m \<longleftrightarrow> (\<forall>h r h'. m h = (r, h') \<longrightarrow> f h' = f h)"

named_theorems keeps_intros \<comment> \<open>rules for what actions leave alone\<close>

lemma keepsD: "keeps f m \<Longrightarrow> m h = (r, h') \<Longrightarrow> f h' = f h"
  by (simp add: keeps_def)

lemma keeps_basic [keeps_intros]:
  "keeps f (retA a)" "keeps f (raiseA e)" "keeps f (readA g)" "keeps f (liftE r)"
  by (simp_all add: keeps_def)

lemma keeps_bind [keeps_intros]:
  assumes "keeps f m" and "\<And>a. keeps f (k a)"
  shows "keeps f (bindA m k)"
  using assms unfolding keeps_def bindA_def
  by (auto split: prod.splits sum.splits)

lemma keeps_catch [keeps_intros]:
  assumes "keeps f m" and "\<And>e. keeps f (k e)"
  shows "keeps f (catchA m k)"
  using assms unfolding keeps_def catchA_def
  by (auto split: prod.splits sum.splits)

lemma keeps_for [keeps_intros]: "(\<And>x. keeps f (g x)) \<Longrightarrow> keeps f (forA g xs)"
  by (induction xs) (auto intro: keeps_intros)

lemma keeps_cases [keeps_intros]:
  "keeps f m \<Longrightarrow> keeps f n \<Longrightarrow> keeps f (if b then m else n)"
  "keeps f m \<Longrightarrow> (\<And>x. keeps f (k x)) \<Longrightarrow> keeps f (case y of None \<Rightarrow> m | Some x \<Rightarrow> k x)"
  by (simp_all split: option.split)

section \<open>Dictionaries\<close>

text \<open>
  A Python dict is an association list with distinct keys in insertion order.
  \<open>AList.update\<close> replaces the value of a present key in place and appends an absent one,
  \<open>AList.delete\<close> is \<open>pop\<close> with a default, and \<open>map_of\<close> is \<open>get\<close>: exactly what the dict
  of the language does. \<open>dict_of\<close> is a dict display or comprehension: pairs inserted from
  left to right, a later one replacing the value of an earlier equal key.
\<close>

type_synonym ('k, 'v) dict = "('k \<times> 'v) list"

abbreviation dict_keys :: "('k, 'v) dict \<Rightarrow> 'k list" where
  "dict_keys d \<equiv> map fst d"

definition dict_merge :: "('k, 'v) dict \<Rightarrow> ('k \<times> 'v) list \<Rightarrow> ('k, 'v) dict" where
  "dict_merge d kvs = fold (\<lambda>(k, v). AList.update k v) kvs d"

definition dict_of :: "('k \<times> 'v) list \<Rightarrow> ('k, 'v) dict" where
  "dict_of kvs = dict_merge [] kvs"

lemma dict_merge_simps [simp]:
  "dict_merge d [] = d"
  "dict_merge d ((k, v) # kvs) = dict_merge (AList.update k v d) kvs"
  by (simp_all add: dict_merge_def)

lemma dict_merge_append: "dict_merge d (xs @ ys) = dict_merge (dict_merge d xs) ys"
  by (simp add: dict_merge_def)

lemma map_of_dict_merge: "map_of (dict_merge d kvs) = map_of d ++ map_of (rev kvs)"
proof (induction kvs rule: rev_induct)
  case Nil
  show ?case by simp
next
  case (snoc kv kvs)
  then show ?case
    by (cases kv) (auto simp: dict_merge_append update_conv' map_add_def fun_eq_iff)
qed

lemma map_of_dict_of: "map_of (dict_of kvs) = map_of (rev kvs)"
  by (simp add: dict_of_def map_of_dict_merge)

lemma keys_dict_merge: "set (dict_keys (dict_merge d kvs)) = set (dict_keys d) \<union> set (map fst kvs)"
proof (induction kvs arbitrary: d)
  case Nil
  show ?case by simp
next
  case (Cons kv kvs)
  then show ?case by (cases kv) (auto simp: dom_update)
qed

lemma keys_dict_of [simp]: "fst ` set (dict_of kvs) = fst ` set kvs"
  using keys_dict_merge [of "[]" kvs] by (simp add: dict_of_def)

lemma distinct_dict_merge: "distinct (dict_keys d) \<Longrightarrow> distinct (dict_keys (dict_merge d kvs))"
proof (induction kvs arbitrary: d)
  case Nil
  then show ?case by simp
next
  case (Cons kv kvs)
  then show ?case by (cases kv) (simp add: distinct_update)
qed

lemma distinct_dict_of: "distinct (dict_keys (dict_of kvs))"
  by (simp add: dict_of_def distinct_dict_merge)

lemma update_fresh: "k \<notin> set (dict_keys d) \<Longrightarrow> AList.update k v d = d @ [(k, v)]"
  by (induction d) auto

lemma dict_merge_fresh:
  "distinct (dict_keys (d @ kvs)) \<Longrightarrow> dict_merge d kvs = d @ kvs"
proof (induction kvs arbitrary: d)
  case Nil
  then show ?case by simp
next
  case (Cons kv kvs)
  obtain k v where kv: "kv = (k, v)" by (cases kv)
  from Cons.prems kv have "k \<notin> set (dict_keys d)" by simp
  then have "AList.update k v d = d @ [(k, v)]" by (rule update_fresh)
  then show ?case using Cons.IH [of "d @ [(k, v)]"] Cons.prems kv by simp
qed

lemma dict_of_distinct: "distinct (dict_keys kvs) \<Longrightarrow> dict_of kvs = kvs"
  by (simp add: dict_of_def dict_merge_fresh)

lemma map_of_delete: "map_of (AList.delete k d) = (map_of d)(k := None)"
  by (simp add: delete_conv')

lemma distinct_delete_keys: "distinct (dict_keys d) \<Longrightarrow> distinct (dict_keys (AList.delete k d))"
  by (simp add: distinct_delete)

lemma map_of_sort_key_fst:
  fixes d :: "('k :: linorder \<times> 'v) list"
  shows "distinct (dict_keys d) \<Longrightarrow> map_of (sort_key fst d) = map_of d"
  by (rule iffD2 [OF map_of_inject_set]) (simp_all add: distinct_map)

section \<open>Two-way encodings\<close>

text \<open>
  An interface the program relies on in several places: something is written out as a
  string, a stored dictionary or a wire payload and read back later, perhaps after a restart.
  The one law is that reading what was written gives the value back, for the values the
  code writes (\<open>valid\<close>). What the clients need follows once and for all.
\<close>

locale codec =
  fixes enc :: "'a \<Rightarrow> 'b" and dec :: "'b \<Rightarrow> 'a option" and valid :: "'a \<Rightarrow> bool"
  assumes dec_enc: "valid x \<Longrightarrow> dec (enc x) = Some x"
begin

lemma enc_inject:
  assumes "valid x" and "valid y"
  shows "enc x = enc y \<longleftrightarrow> x = y"
proof
  assume "enc x = enc y"
  then have "dec (enc x) = dec (enc y)" by (rule arg_cong)
  then show "x = y" by (simp add: dec_enc assms)
qed (rule arg_cong)

lemma inj_on_enc: "inj_on enc (Collect valid)"
  by (rule inj_onI) (simp add: enc_inject)

lemma distinct_enc:
  assumes "\<And>x. x \<in> set xs \<Longrightarrow> valid x"
  shows "distinct (map enc xs) \<longleftrightarrow> distinct xs"
proof -
  have "inj_on enc (set xs)"
    using assms by (intro inj_onI) (simp add: enc_inject)
  then show ?thesis by (simp add: distinct_map)
qed

lemma dec_map_enc:
  assumes "\<And>x. x \<in> set xs \<Longrightarrow> valid x"
  shows "map (dec \<circ> enc) xs = map Some xs"
  using assms by (simp add: dec_enc)

lemma map_of_enc_keys:
  assumes "\<And>x. x \<in> set (map fst kvs) \<Longrightarrow> valid x" and "valid k"
  shows "map_of (map (\<lambda>(x, v). (enc x, v)) kvs) (enc k) = map_of kvs k"
  using assms(1) by (induction kvs) (auto simp: enc_inject assms(2))

end

section \<open>Keyed stores\<close>

text \<open>
  A store of records by key that is read one key at a time and written by lists of updates, in
  which a blank record stands for "forget this key". The one law gives every read after a
  write; the clients use the consequences.
\<close>

locale keyed_store =
  fixes look :: "'s \<Rightarrow> 'k \<Rightarrow> 'v option"
    and put :: "'s \<Rightarrow> ('k \<times> 'v) list \<Rightarrow> 's"
    and blank :: "'v \<Rightarrow> bool"
    and valid :: "'v \<Rightarrow> bool"
  assumes look_put: "(\<And>u. u \<in> set us \<Longrightarrow> valid (snd u)) \<Longrightarrow>
    look (put s us) k =
      (case map_of (rev us) k of None \<Rightarrow> look s k | Some v \<Rightarrow> if blank v then None else Some v)"
begin

lemma look_put_one:
  "valid v \<Longrightarrow> look (put s [(k, v)]) k' = (if k' = k then if blank v then None else Some v else look s k')"
  by (subst look_put) auto

lemma look_put_same: "valid v \<Longrightarrow> \<not> blank v \<Longrightarrow> look (put s [(k, v)]) k = Some v"
  by (simp add: look_put_one)

lemma look_put_forget: "valid v \<Longrightarrow> blank v \<Longrightarrow> look (put s [(k, v)]) k = None"
  by (simp add: look_put_one)

lemma look_put_other:
  assumes "\<And>u. u \<in> set us \<Longrightarrow> valid (snd u)" and "k \<notin> fst ` set us"
  shows "look (put s us) k = look s k"
proof -
  have "map_of (rev us) k = None"
    using assms(2) by (simp add: map_of_eq_None_iff)
  then show ?thesis using look_put [of us s k] assms(1) by simp
qed

lemma look_put_again:
  assumes "\<And>u. u \<in> set us \<Longrightarrow> valid (snd u)"
  shows "look (put (put s us) us) k = look (put s us) k"
  using assms by (simp add: look_put split: option.split)

lemma look_put_swap:
  assumes "valid v" and "valid w" and "k \<noteq> l"
  shows "look (put (put s [(k, v)]) [(l, w)]) = look (put (put s [(l, w)]) [(k, v)])"
  using assms by (intro ext) (simp add: look_put_one)

end

section \<open>Lists\<close>

lemma map_of_rev_dict: "distinct (dict_keys d) \<Longrightarrow> map_of (rev d) = map_of d"
  by (rule iffD2 [OF map_of_inject_set]) (simp_all add: rev_map [symmetric])

lemma map_filter_Nil_iff: "List.map_filter f xs = [] \<longleftrightarrow> (\<forall>x \<in> set xs. f x = None)"
  by (induction xs) (auto split: option.splits)

lemma map_filter_cong: "(\<And>x. x \<in> set xs \<Longrightarrow> f x = g x) \<Longrightarrow> List.map_filter f xs = List.map_filter g xs"
  by (induction xs) (auto split: option.split)

lemma set_map_filter: "y \<in> set (List.map_filter f xs) \<longleftrightarrow> (\<exists>x \<in> set xs. f x = Some y)"
  by (induction xs) (auto split: option.splits)

text \<open>\<open>map_filter\<close> on a dict, when the kept pairs keep their key.\<close>

lemma map_of_map_filter:
  assumes "distinct (dict_keys d)" and "\<And>k v k' w. f (k, v) = Some (k', w) \<Longrightarrow> k' = k"
  shows "map_of (List.map_filter f d) k =
    (case map_of d k of None \<Rightarrow> None | Some v \<Rightarrow> map_option snd (f (k, v)))"
  using assms(1)
proof (induction d)
  case Nil
  then show ?case by simp
next
  case (Cons p d)
  obtain k0 v where p: "p = (k0, v)" by (cases p)
  have absent: "map_of d k0 = None"
    using Cons.prems p by (simp add: map_of_eq_None_iff)
  show ?case
  proof (cases "f (k0, v)")
    case None
    with Cons p absent show ?thesis by auto
  next
    case (Some kw)
    then obtain w where "kw = (k0, w)" using assms(2) by (cases kw) blast
    with Some Cons p absent show ?thesis by auto
  qed
qed

lemma keys_map_filter_subset:
  assumes "\<And>k v k' w. f (k, v) = Some (k', w) \<Longrightarrow> k' = k"
  shows "fst ` set (List.map_filter f d) \<subseteq> fst ` set d"
proof
  fix k
  assume "k \<in> fst ` set (List.map_filter f d)"
  then obtain p w where "p \<in> set d" and "f p = Some (k, w)"
    by (auto simp: List.map_filter_def)
  then show "k \<in> fst ` set d" using assms [of "fst p" "snd p" k w] by auto
qed

lemma distinct_map_filter:
  assumes "distinct (dict_keys d)" and "\<And>k v k' w. f (k, v) = Some (k', w) \<Longrightarrow> k' = k"
  shows "distinct (dict_keys (List.map_filter f d))"
  using assms(1)
proof (induction d)
  case Nil
  then show ?case by simp
next
  case (Cons p d)
  obtain k0 v where p: "p = (k0, v)" by (cases p)
  have keys: "fst ` set (List.map_filter f d) \<subseteq> fst ` set d"
    by (rule keys_map_filter_subset) (rule assms(2))
  show ?case
  proof (cases "f (k0, v)")
    case None
    with Cons p show ?thesis by simp
  next
    case (Some kw)
    then obtain w where "kw = (k0, w)" using assms(2) by (cases kw) blast
    with Some Cons p keys show ?thesis by auto
  qed
qed

end
