(* ===== verification/PyRuntime.thy ===== *)
theory PyRuntime
  imports Prelude
begin

text \<open>
  The part of Python the integration uses: its strings and integers with the methods the code
  calls on them, the values a decoded JSON payload can hold, truthiness and the conversions
  \<open>int()\<close> and \<open>str()\<close> with the exceptions they raise.

  A \<open>str\<close> is a HOL \<open>string\<close>: a sequence of code points below 256. On those, every
  operation below agrees with CPython; code points from 256 up are outside the model, as are
  floats (no payload of the bridge carries one) and CPython's 4300-digit limit on \<open>int()\<close>.
\<close>

section \<open>Exceptions\<close>

text \<open>
  The exceptions the code raises, catches or lets through. \<open>HomeAssistantError\<close> and the
  classes under it carry their message (\<open>str(err)\<close>); \<open>OtherError\<close> is any exception of a
  class the code never names.
\<close>

datatype exn =
    KeyError | TypeError | ValueError | AttributeError | AssertionError
  | HomeAssistantError string
  | BridgeUnavailable string
  | RestoreNotPossible string
  | ServiceNotFound string
  | ServiceValidationError string "(string \<times> string) list"
  | UpdateFailed string
  | ConfigEntryError string
  | OtherError string

text \<open>What \<open>except HomeAssistantError\<close> catches: the class and everything derived from it.\<close>

fun is_ha_error :: "exn \<Rightarrow> bool" where
  "is_ha_error (HomeAssistantError _) = True"
| "is_ha_error (BridgeUnavailable _) = True"
| "is_ha_error (RestoreNotPossible _) = True"
| "is_ha_error (ServiceNotFound _) = True"
| "is_ha_error (ServiceValidationError _ _) = True"
| "is_ha_error (UpdateFailed _) = True"
| "is_ha_error (ConfigEntryError _) = True"
| "is_ha_error _ = False"

text \<open>The message of an error of the Home Assistant family.\<close>

fun exn_str :: "exn \<Rightarrow> string" where
  "exn_str (HomeAssistantError m) = m"
| "exn_str (BridgeUnavailable m) = m"
| "exn_str (RestoreNotPossible m) = m"
| "exn_str (ServiceNotFound m) = m"
| "exn_str (ServiceValidationError k _) = k"
| "exn_str (UpdateFailed m) = m"
| "exn_str (ConfigEntryError m) = m"
| "exn_str (OtherError m) = m"
| "exn_str _ = ''''"

section \<open>Characters\<close>

abbreviation code :: "char \<Rightarrow> nat" where
  "code c \<equiv> of_char c"

definition py_isspace :: "char \<Rightarrow> bool" where
  "py_isspace c \<longleftrightarrow> (9 \<le> code c \<and> code c \<le> 13) \<or> (28 \<le> code c \<and> code c \<le> 32) \<or>
     code c = 133 \<or> code c = 160"

definition py_isascii :: "char \<Rightarrow> bool" where
  "py_isascii c \<longleftrightarrow> code c < 128"

definition py_isalnum :: "char \<Rightarrow> bool" where
  "py_isalnum c \<longleftrightarrow>
     (48 \<le> code c \<and> code c \<le> 57) \<or> (65 \<le> code c \<and> code c \<le> 90) \<or> (97 \<le> code c \<and> code c \<le> 122) \<or>
     code c \<in> {170, 178, 179, 181, 185, 186, 188, 189, 190} \<or>
     (192 \<le> code c \<and> code c \<noteq> 215 \<and> code c \<noteq> 247)"

text \<open>Upper-case letters below 256: ASCII, and the accented block without the multiplication sign.\<close>

definition py_isupper :: "char \<Rightarrow> bool" where
  "py_isupper c \<longleftrightarrow> (65 \<le> code c \<and> code c \<le> 90) \<or> (192 \<le> code c \<and> code c \<le> 222 \<and> code c \<noteq> 215)"

definition py_lower_char :: "char \<Rightarrow> char" where
  "py_lower_char c = (if py_isupper c then char_of (code c + 32) else c)"

text \<open>
  \<open>casefold\<close> leaves the range below 256 (the micro sign folds to code point 956) and is not
  letter by letter (sharp s folds to two letters), so a folded string is a list of code points.
\<close>

definition py_casefold_char :: "char \<Rightarrow> nat list" where
  "py_casefold_char c =
     (if code c = 223 then [115, 115] else if code c = 181 then [956]
      else if py_isupper c then [code c + 32] else [code c])"

definition digit_char :: "nat \<Rightarrow> char" where
  "digit_char d = char_of (48 + d)"

definition digit_val :: "char \<Rightarrow> nat option" where
  "digit_val c = (if 48 \<le> code c \<and> code c \<le> 57 then Some (code c - 48) else None)"

lemma digit_char_eval [simp, py_eval]:
  "digit_char 0 = CHR ''0''" "digit_char 1 = CHR ''1''" "digit_char (Suc 0) = CHR ''1''"
  "digit_char 2 = CHR ''2''" "digit_char 3 = CHR ''3''" "digit_char 4 = CHR ''4''"
  "digit_char 5 = CHR ''5''" "digit_char 6 = CHR ''6''" "digit_char 7 = CHR ''7''"
  "digit_char 8 = CHR ''8''" "digit_char 9 = CHR ''9''"
  by code_simp+

lemma code_digit_char: "d < 10 \<Longrightarrow> code (digit_char d) = 48 + d"
  by (simp add: digit_char_def)

lemma digit_val_char [simp]: "d < 10 \<Longrightarrow> digit_val (digit_char d) = Some d"
  by (simp add: digit_val_def code_digit_char)

lemma digit_not_space: "d < 10 \<Longrightarrow> \<not> py_isspace (digit_char d)"
  by (simp add: py_isspace_def code_digit_char)

section \<open>String methods\<close>

definition py_strip :: "string \<Rightarrow> string" where
  "py_strip s = rev (dropWhile py_isspace (rev (dropWhile py_isspace s)))"

definition py_lower :: "string \<Rightarrow> string" where
  "py_lower s = map py_lower_char s"

definition py_casefold :: "string \<Rightarrow> nat list" where
  "py_casefold s = concat (map py_casefold_char s)"

text \<open>\<open>s.replace(a, b)\<close> for one-character \<open>a\<close> and \<open>b\<close>.\<close>

definition py_replace :: "char \<Rightarrow> char \<Rightarrow> string \<Rightarrow> string" where
  "py_replace a b s = map (\<lambda>c. if c = a then b else c) s"

definition py_startswith :: "string \<Rightarrow> string \<Rightarrow> bool" where
  "py_startswith s p \<longleftrightarrow> take (length p) s = p"

text \<open>\<open>needle in haystack\<close>.\<close>

fun py_contains :: "string \<Rightarrow> string \<Rightarrow> bool" where
  "py_contains needle [] = (needle = [])"
| "py_contains needle (c # cs) = (py_startswith (c # cs) needle \<or> py_contains needle cs)"

text \<open>\<open>s.split()\<close>: the maximal runs without white space; the word under way is kept reversed.\<close>

fun split_ws :: "string \<Rightarrow> string \<Rightarrow> string list" where
  "split_ws w [] = (if w = [] then [] else [rev w])"
| "split_ws w (c # cs) =
     (if py_isspace c then (if w = [] then split_ws [] cs else rev w # split_ws [] cs)
      else split_ws (c # w) cs)"

definition py_split :: "string \<Rightarrow> string list" where
  "py_split s = split_ws [] s"

fun py_join :: "string \<Rightarrow> string list \<Rightarrow> string" where
  "py_join sep [] = []"
| "py_join sep [s] = s"
| "py_join sep (s # t # ts) = s @ sep @ py_join sep (t # ts)"

lemma py_startswith_append [simp]: "py_startswith (p @ s) p"
  by (simp add: py_startswith_def)

lemma py_startswith_iff: "py_startswith s p \<longleftrightarrow> (\<exists>t. s = p @ t)"
  by (metis append_eq_conv_conj append_take_drop_id py_startswith_def)

lemma py_contains_iff: "py_contains needle s \<longleftrightarrow> (\<exists>xs ys. s = xs @ needle @ ys)"
proof (induction s)
  case Nil
  show ?case by auto
next
  case (Cons c cs)
  note tail_iff = Cons.IH
  show ?case
  proof
    assume "py_contains needle (c # cs)"
    then consider t where "c # cs = needle @ t" | xs ys where "cs = xs @ needle @ ys"
      using Cons.IH by (auto simp: py_startswith_iff)
    then show "\<exists>xs ys. c # cs = xs @ needle @ ys"
    proof cases
      case 1
      then have "c # cs = [] @ needle @ t" by simp
      then show ?thesis by blast
    next
      case 2
      then have "c # cs = (c # xs) @ needle @ ys" by simp
      then show ?thesis by blast
    qed
  next
    assume "\<exists>xs ys. c # cs = xs @ needle @ ys"
    then obtain xs ys where eq: "c # cs = xs @ needle @ ys" by blast
    show "py_contains needle (c # cs)"
    proof (cases xs)
      case Nil
      with eq have "py_startswith (c # cs) needle" by (auto simp: py_startswith_iff)
      then show ?thesis by simp
    next
      case (Cons x xs')
      with eq have "cs = xs' @ needle @ ys" by simp
      then show ?thesis using tail_iff by auto
    qed
  qed
qed

lemma py_strip_id:
  assumes "\<And>c. c \<in> set s \<Longrightarrow> \<not> py_isspace c"
  shows "py_strip s = s"
proof -
  have drop: "dropWhile py_isspace t = t" if "set t \<subseteq> set s" for t
    using that assms by (cases t) auto
  show ?thesis by (simp add: py_strip_def drop)
qed

section \<open>Integers as decimal strings\<close>

fun py_str_nat :: "nat \<Rightarrow> string" where
  "py_str_nat n =
     (if n < 10 then [digit_char n] else py_str_nat (n div 10) @ [digit_char (n mod 10)])"

definition py_str_int :: "int \<Rightarrow> string" where
  "py_str_int n = (if n < 0 then CHR ''-'' # py_str_nat (nat (- n)) else py_str_nat (nat n))"

text \<open>
  \<open>int(text)\<close>: surrounding white space, an optional sign, then decimal digits with single
  underscores between them; anything else is a \<open>ValueError\<close>, here \<open>None\<close>.
\<close>

fun digits_val :: "nat \<Rightarrow> bool \<Rightarrow> string \<Rightarrow> nat option" where
  "digits_val acc prev [] = (if prev then Some acc else None)"
| "digits_val acc prev (c # cs) =
     (case digit_val c of
        Some d \<Rightarrow> digits_val (acc * 10 + d) True cs
      | None \<Rightarrow> if c = CHR ''_'' \<and> prev then digits_val acc False cs else None)"

definition int_of_str :: "string \<Rightarrow> int option" where
  "int_of_str s =
     (case py_strip s of
        [] \<Rightarrow> None
      | c # cs \<Rightarrow>
          if c = CHR ''-'' then map_option (\<lambda>n. - int n) (digits_val 0 False cs)
          else if c = CHR ''+'' then map_option int (digits_val 0 False cs)
          else map_option int (digits_val 0 False (c # cs)))"

lemma digits_val_str_nat:
  "digits_val acc prev (py_str_nat n @ s) =
     digits_val (acc * 10 ^ length (py_str_nat n) + n) True s"
proof (induction n arbitrary: prev s rule: py_str_nat.induct)
  case (1 n)
  show ?case
  proof (cases "n < 10")
    case True
    then show ?thesis by (simp add: py_str_nat.simps [of n])
  next
    case False
    have "digits_val acc prev (py_str_nat n @ s) =
        digits_val acc prev (py_str_nat (n div 10) @ digit_char (n mod 10) # s)"
      using False by (simp add: py_str_nat.simps [of n])
    also have "\<dots> = digits_val ((acc * 10 ^ length (py_str_nat (n div 10)) + n div 10) * 10 + n mod 10) True s"
      using "1.IH" [OF False] by simp
    also have "(acc * 10 ^ length (py_str_nat (n div 10)) + n div 10) * 10 + n mod 10 =
        acc * 10 ^ length (py_str_nat n) + n"
      using False by (simp add: py_str_nat.simps [of n] algebra_simps)
    finally show ?thesis .
  qed
qed

declare py_str_nat.simps [simp del]

lemma py_str_nat_digits: "c \<in> set (py_str_nat n) \<Longrightarrow> \<exists>d < 10. c = digit_char d"
proof (induction n rule: py_str_nat.induct)
  case (1 n)
  have "\<exists>d < 10. digit_char (n mod 10) = digit_char d"
    by (rule exI [of _ "n mod 10"]) simp
  with 1 show ?case
    by (cases "n < 10") (auto simp: py_str_nat.simps [of n])
qed

lemma py_str_nat_not_Nil [simp]: "py_str_nat n \<noteq> []"
  by (simp add: py_str_nat.simps)

lemma py_str_nat_hd:
  obtains d cs where "d < 10" and "py_str_nat n = digit_char d # cs"
proof -
  obtain c cs where eq: "py_str_nat n = c # cs" by (cases "py_str_nat n") simp_all
  then have "c \<in> set (py_str_nat n)" by simp
  then obtain d where "d < 10" and "c = digit_char d" using py_str_nat_digits by blast
  then show thesis using that eq by blast
qed

lemma digit_char_neq: "d < 10 \<Longrightarrow> digit_char d \<noteq> CHR ''-''" "d < 10 \<Longrightarrow> digit_char d \<noteq> CHR ''+''"
  "d < 10 \<Longrightarrow> digit_char d \<noteq> CHR ''_''"
  using code_digit_char [of d] by auto

lemma py_str_int_not_space: "c \<in> set (py_str_int n) \<Longrightarrow> \<not> py_isspace c"
proof -
  assume "c \<in> set (py_str_int n)"
  then consider "c = CHR ''-''" | m where "c \<in> set (py_str_nat m)"
    by (auto simp: py_str_int_def split: if_splits)
  then show ?thesis
  proof cases
    case 1
    then show ?thesis by (simp add: py_isspace_def)
  next
    case 2
    then show ?thesis using py_str_nat_digits digit_not_space by blast
  qed
qed

lemma py_str_int_not_Nil [simp]: "py_str_int n \<noteq> []"
  by (simp add: py_str_int_def)

lemma int_of_str_int [simp]: "int_of_str (py_str_int n) = Some n"
proof -
  have strip: "py_strip (py_str_int n) = py_str_int n"
    by (rule py_strip_id) (rule py_str_int_not_space)
  have digits: "digits_val 0 False (py_str_nat m) = Some m" for m
    using digits_val_str_nat [of 0 False m "[]"] by simp
  show ?thesis
  proof (cases "n < 0")
    case True
    then show ?thesis unfolding int_of_str_def strip by (simp add: py_str_int_def digits)
  next
    case False
    obtain d cs where d: "d < 10" and eq: "py_str_nat (nat n) = digit_char d # cs"
      by (rule py_str_nat_hd)
    have "digits_val 0 False (digit_char d # cs) = Some (nat n)"
      using digits [of "nat n"] by (simp only: eq)
    then show ?thesis
      unfolding int_of_str_def strip using False d
      by (simp add: py_str_int_def eq digit_char_neq del: digits_val.simps)
  qed
qed

interpretation decimal: codec py_str_int int_of_str "\<lambda>_. True"
  by unfold_locales simp

section \<open>Values of a decoded payload\<close>

text \<open>
  What a JSON document or a service response can hold. A dict has string keys and keeps its
  insertion order.
\<close>

datatype pyval =
    PNone | PBool bool | PInt int | PStr string | PList "pyval list"
  | PDict "(string \<times> pyval) list"

fun py_truthy :: "pyval \<Rightarrow> bool" where
  "py_truthy PNone = False"
| "py_truthy (PBool b) = b"
| "py_truthy (PInt n) = (n \<noteq> 0)"
| "py_truthy (PStr s) = (s \<noteq> [])"
| "py_truthy (PList xs) = (xs \<noteq> [])"
| "py_truthy (PDict d) = (d \<noteq> [])"

text \<open>\<open>int(v)\<close>: a string that is no numeral is a \<open>ValueError\<close>, a container a \<open>TypeError\<close>.\<close>

fun py_int :: "pyval \<Rightarrow> exn + int" where
  "py_int (PBool b) = Inr (if b then 1 else 0)"
| "py_int (PInt n) = Inr n"
| "py_int (PStr s) = (case int_of_str s of None \<Rightarrow> Inl ValueError | Some n \<Rightarrow> Inr n)"
| "py_int _ = Inl TypeError"

text \<open>\<open>repr\<close> of a string: the quote that needs no escape if there is one, and \<open>\xhh\<close> for the rest.\<close>

definition hex_char :: "nat \<Rightarrow> char" where
  "hex_char d = (if d < 10 then digit_char d else char_of (87 + d))"

definition repr_char :: "char \<Rightarrow> char \<Rightarrow> string" where
  "repr_char q c =
     (if c = q \<or> code c = 92 then [char_of (92 :: nat), c]
      else if code c = 9 then [char_of (92 :: nat), CHR ''t'']
      else if code c = 10 then [char_of (92 :: nat), CHR ''n'']
      else if code c = 13 then [char_of (92 :: nat), CHR ''r'']
      else if code c < 32 \<or> (127 \<le> code c \<and> code c \<le> 160) \<or> code c = 173
        then [char_of (92 :: nat), CHR ''x'', hex_char (code c div 16), hex_char (code c mod 16)]
      else [c])"

definition repr_str :: "string \<Rightarrow> string" where
  "repr_str s =
     (let q = (if CHR 0x27 \<in> set s \<and> CHR 0x22 \<notin> set s then CHR 0x22 else CHR 0x27)
      in q # concat (map (repr_char q) s) @ [q])"

fun py_repr :: "pyval \<Rightarrow> string" where
  "py_repr PNone = ''None''"
| "py_repr (PBool b) = (if b then ''True'' else ''False'')"
| "py_repr (PInt n) = py_str_int n"
| "py_repr (PStr s) = repr_str s"
| "py_repr (PList xs) = ''['' @ py_join '', '' (map py_repr xs) @ '']''"
| "py_repr (PDict d) =
     ''{'' @ py_join '', '' (map (\<lambda>(k, v). repr_str k @ '': '' @ py_repr v) d) @ ''}''"

text \<open>\<open>str(v)\<close>.\<close>

definition py_str :: "pyval \<Rightarrow> string" where
  "py_str v = (case v of PStr s \<Rightarrow> s | _ \<Rightarrow> py_repr v)"

text \<open>\<open>v[key]\<close> with a string key, \<open>v.get(key, default)\<close>, and iteration over \<open>v\<close>.\<close>

definition py_getitem :: "pyval \<Rightarrow> string \<Rightarrow> exn + pyval" where
  "py_getitem v key =
     (case v of
        PDict d \<Rightarrow> (case map_of d key of None \<Rightarrow> Inl KeyError | Some x \<Rightarrow> Inr x)
      | _ \<Rightarrow> Inl TypeError)"

definition py_get :: "pyval \<Rightarrow> string \<Rightarrow> pyval \<Rightarrow> exn + pyval" where
  "py_get v key dflt =
     (case v of
        PDict d \<Rightarrow> Inr (case map_of d key of None \<Rightarrow> dflt | Some x \<Rightarrow> x)
      | _ \<Rightarrow> Inl AttributeError)"

definition dict_get :: "(string, pyval) dict \<Rightarrow> string \<Rightarrow> pyval" where
  "dict_get d key = (case map_of d key of None \<Rightarrow> PNone | Some x \<Rightarrow> x)"

fun py_iter :: "pyval \<Rightarrow> exn + pyval list" where
  "py_iter (PList xs) = Inr xs"
| "py_iter (PDict d) = Inr (map (PStr \<circ> fst) d)"
| "py_iter (PStr s) = Inr (map (\<lambda>c. PStr [c]) s)"
| "py_iter _ = Inl TypeError"

text \<open>\<open>type(v).__name__\<close>.\<close>

fun py_type_name :: "pyval \<Rightarrow> string" where
  "py_type_name PNone = ''NoneType''"
| "py_type_name (PBool _) = ''bool''"
| "py_type_name (PInt _) = ''int''"
| "py_type_name (PStr _) = ''str''"
| "py_type_name (PList _) = ''list''"
| "py_type_name (PDict _) = ''dict''"

lemma py_str_PStr [simp]: "py_str (PStr s) = s"
  by (simp add: py_str_def)

lemma py_str_PInt [simp]: "py_str (PInt n) = py_str_int n"
  by (simp add: py_str_def)

lemma py_getitem_PDict [simp]:
  "py_getitem (PDict d) key = (case map_of d key of None \<Rightarrow> Inl KeyError | Some x \<Rightarrow> Inr x)"
  by (simp add: py_getitem_def)

lemma py_get_PDict [simp]:
  "py_get (PDict d) key dflt = Inr (case map_of d key of None \<Rightarrow> dflt | Some x \<Rightarrow> x)"
  by (simp add: py_get_def)

fun is_dict :: "pyval \<Rightarrow> bool" where
  "is_dict (PDict _) = True"
| "is_dict _ = False"

lemma py_getitem_not_dict: "\<not> is_dict v \<Longrightarrow> py_getitem v key = Inl TypeError"
  by (cases v) (simp_all add: py_getitem_def)

lemma py_get_not_dict: "\<not> is_dict v \<Longrightarrow> py_get v key dflt = Inl AttributeError"
  by (cases v) (simp_all add: py_get_def)

lemma is_dict_iff: "is_dict v \<longleftrightarrow> (\<exists>d. v = PDict d)"
  by (cases v) simp_all

end
