(* ===== verification/Const.thy ===== *)
theory Const
  imports PyRuntime
begin

text \<open>
  \<open>custom_components/rf_cloner/const.py\<close>: the keys, subentry types, limits and tables every
  other component reads. Each definition is one constant of the file, under its name there.
\<close>

named_theorems const_eqs \<comment> \<open>the constants' defining equations\<close>

definition DOMAIN :: string where [const_eqs]: "DOMAIN = ''rf_cloner''"
definition ESPHOME_DOMAIN :: string where [const_eqs]: "ESPHOME_DOMAIN = ''esphome''"
definition ESPHOME_CONF_DEVICE_NAME :: string where
  [const_eqs]: "ESPHOME_CONF_DEVICE_NAME = ''device_name''"

definition CONF_ESPHOME_ENTRY_ID :: string where
  [const_eqs]: "CONF_ESPHOME_ENTRY_ID = ''esphome_entry_id''"
definition CONF_ACTION_PREFIX :: string where [const_eqs]: "CONF_ACTION_PREFIX = ''action_prefix''"
definition CONF_BRIDGE_ID :: string where [const_eqs]: "CONF_BRIDGE_ID = ''bridge_id''"
definition CONF_COMMAND_ID :: string where [const_eqs]: "CONF_COMMAND_ID = ''command_id''"
definition CONF_NAME :: string where [const_eqs]: "CONF_NAME = ''name''"
definition CONF_TARGET_ID :: string where [const_eqs]: "CONF_TARGET_ID = ''target_id''"
definition CONF_TARGET_TYPE :: string where [const_eqs]: "CONF_TARGET_TYPE = ''target_type''"
definition CONF_AREA_ID :: string where [const_eqs]: "CONF_AREA_ID = ''area_id''"
definition CONF_ICON :: string where [const_eqs]: "CONF_ICON = ''icon''"

definition DEFAULT_ACTION_PREFIX :: string where [const_eqs]: "DEFAULT_ACTION_PREFIX = ''rf_''"

definition SUBENTRY_TYPE_COMMAND :: string where [const_eqs]: "SUBENTRY_TYPE_COMMAND = ''command''"
definition SUBENTRY_TYPE_TARGET :: string where [const_eqs]: "SUBENTRY_TYPE_TARGET = ''target''"
definition ACTION_TYPE_LEARN_COMMAND :: string where
  [const_eqs]: "ACTION_TYPE_LEARN_COMMAND = ''learn_command''"

definition ENTRY_VERSION :: int where [const_eqs]: "ENTRY_VERSION = 2"
definition ENTRY_MINOR_VERSION :: int where [const_eqs]: "ENTRY_MINOR_VERSION = 1"
definition OPT_COMMANDS :: string where [const_eqs]: "OPT_COMMANDS = ''commands''"

text \<open>Seconds, as the code writes them.\<close>

definition LEARN_POLL_INTERVAL :: int where [const_eqs]: "LEARN_POLL_INTERVAL = 1"
definition LEARN_TIMEOUT :: int where [const_eqs]: "LEARN_TIMEOUT = 30"

definition REVISION_TERMINAL :: int where [const_eqs]: "REVISION_TERMINAL = 2 ^ 31 - 1"
definition REVISION_MAX :: int where [const_eqs]: "REVISION_MAX = REVISION_TERMINAL - 1"

definition NAME_MAX_LENGTH :: nat where [const_eqs]: "NAME_MAX_LENGTH = 23"
definition NAME_ALLOWED_EXTRA :: string where [const_eqs]: "NAME_ALLOWED_EXTRA = ''_-.''"

definition MANUFACTURER :: string where [const_eqs]: "MANUFACTURER = ''esphome-rf-cloner''"
definition MODEL :: string where [const_eqs]: "MODEL = ''RF Cloner Bridge''"

definition TARGET_TYPE_GENERIC :: string where [const_eqs]: "TARGET_TYPE_GENERIC = ''generic''"
definition TARGET_TYPES :: "string list" where
  [const_eqs]: "TARGET_TYPES =
    [TARGET_TYPE_GENERIC, ''fan'', ''gate'', ''light'', ''cover'', ''tv'', ''air_conditioner'',
     ''other'']"

definition TARGET_TYPE_MODELS :: "(string, string) dict" where
  [const_eqs]: "TARGET_TYPE_MODELS =
    [(TARGET_TYPE_GENERIC, ''RF target''), (''fan'', ''RF fan''), (''gate'', ''RF gate''),
     (''light'', ''RF light''), (''cover'', ''RF cover''), (''tv'', ''RF TV''),
     (''air_conditioner'', ''RF air conditioner''), (''other'', ''RF target'')]"

definition DEFAULT_COMMAND_ICON :: string where [const_eqs]: "DEFAULT_COMMAND_ICON = ''mdi:remote''"

text \<open>The model table has a row for every target type, and only for those.\<close>

lemma target_type_models_total: "dict_keys TARGET_TYPE_MODELS = TARGET_TYPES"
  by (simp add: const_eqs)

end
