(* ===== verification/Models.thy ===== *)
theory Models
  imports Const
begin

text \<open>
  \<open>custom_components/rf_cloner/models.py\<close>: the typed views over the payloads the bridge's
  actions return (\<open>CommandInfo\<close>, \<open>BridgeStatus\<close>, \<open>ExportedCommand\<close>) with their parsers, and
  the command-name rules. A parser evaluates its fields in the order the code lists them, so
  the exception of the first bad field is the one that escapes.
\<close>

section \<open>One row of the listing\<close>

record command_info =
  ci_command_id :: int
  ci_name :: string
  ci_pulses :: int

definition command_info_from_payload :: "pyval \<Rightarrow> exn + command_info" where
  "command_info_from_payload payload =
     bindE (bindE (py_getitem payload ''id'') py_int) (\<lambda>cid.
     bindE (py_getitem payload ''name'') (\<lambda>nm.
     bindE (bindE (py_get payload ''pulses'' (PInt 0)) py_int) (\<lambda>pulses.
     Inr \<lparr>ci_command_id = cid, ci_name = py_str nm, ci_pulses = pulses\<rparr>)))"

section \<open>The registry read\<close>

record bridge_status =
  bs_bridge_id :: string
  bs_revision :: int
  bs_next_command_id :: int
  bs_restore_incomplete :: bool
  bs_read_only :: bool
  bs_fault :: string
  bs_state :: string
  bs_last_result :: string
  bs_count :: int
  bs_max_commands :: int
  bs_max_pulses :: int
  bs_used_bytes :: int
  bs_capacity_bytes :: int
  bs_commands :: "command_info list"

definition get_int :: "pyval \<Rightarrow> string \<Rightarrow> exn + int" where
  "get_int payload key = bindE (py_get payload key (PInt 0)) py_int"

definition bridge_status_from_payload :: "pyval \<Rightarrow> exn + bridge_status" where
  "bridge_status_from_payload payload =
     bindE (py_getitem payload ''bridge_id'') (\<lambda>bridge_id.
     bindE (bindE (py_getitem payload ''revision'') py_int) (\<lambda>revision.
     bindE (bindE (py_getitem payload ''next_command_id'') py_int) (\<lambda>next_command_id.
     bindE (py_get payload ''restore_incomplete'' (PBool False)) (\<lambda>restore_incomplete.
     bindE (py_get payload ''read_only'' (PBool False)) (\<lambda>read_only.
     bindE (py_get payload ''fault'' (PStr ''none'')) (\<lambda>fault.
     bindE (py_get payload ''state'' (PStr ''unknown'')) (\<lambda>state.
     bindE (py_get payload ''last_result'' (PStr '''')) (\<lambda>last_result.
     bindE (get_int payload ''count'') (\<lambda>cnt.
     bindE (get_int payload ''max_commands'') (\<lambda>max_commands.
     bindE (get_int payload ''max_pulses'') (\<lambda>max_pulses.
     bindE (get_int payload ''used_bytes'') (\<lambda>used_bytes.
     bindE (get_int payload ''capacity_bytes'') (\<lambda>capacity_bytes.
     bindE (bindE (py_get payload ''commands'' (PList [])) py_iter) (\<lambda>items.
     bindE (mapE command_info_from_payload items) (\<lambda>commands.
     Inr \<lparr>bs_bridge_id = py_str bridge_id, bs_revision = revision,
       bs_next_command_id = next_command_id,
       bs_restore_incomplete = py_truthy restore_incomplete, bs_read_only = py_truthy read_only,
       bs_fault = py_str fault, bs_state = py_str state, bs_last_result = py_str last_result,
       bs_count = cnt, bs_max_commands = max_commands, bs_max_pulses = max_pulses,
       bs_used_bytes = used_bytes, bs_capacity_bytes = capacity_bytes,
       bs_commands = commands\<rparr>)))))))))))))))"

text \<open>The listing's two indexes: a later row with the same key replaces an earlier one.\<close>

definition by_id :: "bridge_status \<Rightarrow> (int, command_info) dict" where
  "by_id status = dict_of (map (\<lambda>c. (ci_command_id c, c)) (bs_commands status))"

definition by_name :: "bridge_status \<Rightarrow> (string, command_info) dict" where
  "by_name status = dict_of (map (\<lambda>c. (ci_name c, c)) (bs_commands status))"

definition is_full :: "bridge_status \<Rightarrow> bool" where
  "is_full status \<longleftrightarrow> bs_max_commands status > 0 \<and> bs_count status \<ge> bs_max_commands status"

definition accepts_mutations :: "bridge_status \<Rightarrow> bool" where
  "accepts_mutations status \<longleftrightarrow> \<not> bs_read_only status \<and> \<not> bs_restore_incomplete status"

section \<open>The portable representation of one command\<close>

record exported_command =
  ec_schema :: int
  ec_bridge_id :: string
  ec_command_id :: int
  ec_name :: string
  ec_gap_us :: int
  ec_repeat_times :: int
  ec_frequency_hz :: int
  ec_modulation :: int
  ec_timings :: "int list"

definition exported_from_payload :: "pyval \<Rightarrow> exn + exported_command option" where
  "exported_from_payload payload =
     bindE (py_get payload ''found'' PNone) (\<lambda>found.
     if \<not> py_truthy found then Inr None else
     bindE (bindE (py_get payload ''schema'' (PInt 1)) py_int) (\<lambda>schema.
     bindE (py_getitem payload ''bridge_id'') (\<lambda>bridge_id.
     bindE (bindE (py_getitem payload ''command_id'') py_int) (\<lambda>command_id.
     bindE (py_getitem payload ''name'') (\<lambda>nm.
     bindE (bindE (py_getitem payload ''gap_us'') py_int) (\<lambda>gap_us.
     bindE (bindE (py_getitem payload ''repeat_times'') py_int) (\<lambda>repeat_times.
     bindE (bindE (py_getitem payload ''frequency_hz'') py_int) (\<lambda>frequency_hz.
     bindE (bindE (py_getitem payload ''modulation'') py_int) (\<lambda>modulation.
     bindE (bindE (py_get payload ''timings'' (PList [])) py_iter) (\<lambda>items.
     bindE (mapE py_int items) (\<lambda>timings.
     Inr (Some \<lparr>ec_schema = schema, ec_bridge_id = py_str bridge_id,
       ec_command_id = command_id, ec_name = py_str nm, ec_gap_us = gap_us,
       ec_repeat_times = repeat_times, ec_frequency_hz = frequency_hz,
       ec_modulation = modulation, ec_timings = timings\<rparr>))))))))))))"

definition exported_as_dict :: "exported_command \<Rightarrow> pyval" where
  "exported_as_dict c = PDict
     [(''schema'', PInt (ec_schema c)), (''found'', PBool True),
      (''bridge_id'', PStr (ec_bridge_id c)), (''command_id'', PInt (ec_command_id c)),
      (''name'', PStr (ec_name c)), (''pulses'', PInt (int (length (ec_timings c)))),
      (''gap_us'', PInt (ec_gap_us c)), (''repeat_times'', PInt (ec_repeat_times c)),
      (''frequency_hz'', PInt (ec_frequency_hz c)), (''modulation'', PInt (ec_modulation c)),
      (''timings'', PList (map PInt (ec_timings c)))]"

section \<open>Command names\<close>

definition name_char_ok :: "char \<Rightarrow> bool" where
  "name_char_ok c \<longleftrightarrow> py_isascii c \<and> (py_isalnum c \<or> c \<in> set NAME_ALLOWED_EXTRA)"

definition validate_command_name :: "string \<Rightarrow> string option" where
  "validate_command_name name =
     (if name = [] then Some ''name_empty''
      else if length name > NAME_MAX_LENGTH then Some ''name_too_long''
      else if \<not> list_all name_char_ok name then Some ''name_invalid''
      else None)"

section \<open>Lemmas\<close>

lemma map_of_by_id: "map_of (by_id status) = map_of (rev (map (\<lambda>c. (ci_command_id c, c)) (bs_commands status)))"
  by (simp add: by_id_def map_of_dict_of)

lemma map_of_by_name: "map_of (by_name status) = map_of (rev (map (\<lambda>c. (ci_name c, c)) (bs_commands status)))"
  by (simp add: by_name_def map_of_dict_of)

lemma by_id_SomeD: "map_of (by_id status) cid = Some c \<Longrightarrow> c \<in> set (bs_commands status) \<and> ci_command_id c = cid"
  by (auto simp: map_of_by_id dest: map_of_SomeD)

lemma by_name_SomeD: "map_of (by_name status) nm = Some c \<Longrightarrow> c \<in> set (bs_commands status) \<and> ci_name c = nm"
  by (auto simp: map_of_by_name dest: map_of_SomeD)

lemma by_id_None_iff: "map_of (by_id status) cid = None \<longleftrightarrow> cid \<notin> ci_command_id ` set (bs_commands status)"
  by (auto simp: map_of_by_id map_of_eq_None_iff image_iff)

lemma by_name_None_iff: "map_of (by_name status) nm = None \<longleftrightarrow> nm \<notin> ci_name ` set (bs_commands status)"
  by (auto simp: map_of_by_name map_of_eq_None_iff image_iff)

text \<open>With distinct ids (as the bridge guarantees) every row is found under its id.\<close>

lemma by_id_lookup:
  assumes "distinct (map ci_command_id (bs_commands status))" and "c \<in> set (bs_commands status)"
  shows "map_of (by_id status) (ci_command_id c) = Some c"
proof -
  have "distinct (map fst (rev (map (\<lambda>c. (ci_command_id c, c)) (bs_commands status))))"
    using assms(1) by (simp add: rev_map [symmetric] comp_def)
  then show ?thesis unfolding map_of_by_id using assms(2) by (intro map_of_is_SomeI) auto
qed

lemma mapE_py_int [simp]: "mapE py_int (map PInt xs) = Inr xs"
  by (rule mapE_map_Inr) simp

lemma exported_roundtrip [simp]: "exported_from_payload (exported_as_dict c) = Inr (Some c)"
  by (simp add: exported_from_payload_def exported_as_dict_def)

interpretation export_wire: codec exported_as_dict
  "\<lambda>p. case exported_from_payload p of Inr (Some c) \<Rightarrow> Some c | _ \<Rightarrow> None" "\<lambda>_. True"
  by unfold_locales simp

lemma name_char_not_space: "name_char_ok c \<Longrightarrow> \<not> py_isspace c"
  by (auto simp: name_char_ok_def py_isascii_def py_isspace_def py_isalnum_def const_eqs)

end
