(* ===== verification/Targets.thy ===== *)
theory Targets
  imports Models
begin

text \<open>
  \<open>custom_components/rf_cloner/targets.py\<close>: RF targets (config subentries) and the
  organisation of commands (config entry options). A config entry is the record of the
  attributes the integration reads from Home Assistant's object; what writes it is a call
  the code makes, so a function that would change an entry returns the new options instead.
\<close>

section \<open>Config entries as the integration reads them\<close>

record subentry =
  se_subentry_id :: string
  se_subentry_type :: string
  se_title :: string
  se_data :: "(string, pyval) dict"

datatype entry_state = LOADED | NOT_LOADED

record config_entry =
  ce_entry_id :: string
  ce_domain :: string
  ce_title :: string
  ce_unique_id :: "string option"
  ce_data :: "(string, pyval) dict"
  ce_options :: "(string, pyval) dict"
  ce_subentries :: "(string, subentry) dict"
  ce_version :: int
  ce_minor_version :: int
  ce_state :: entry_state

section \<open>Targets\<close>

definition target_device_identifier :: "string \<Rightarrow> string \<Rightarrow> string" where
  "target_device_identifier bridge_id target_id = bridge_id @ ''_target_'' @ target_id"

definition validate_target_type :: "pyval \<Rightarrow> string" where
  "validate_target_type v =
     (case v of PStr s \<Rightarrow> if s \<in> set TARGET_TYPES then s else TARGET_TYPE_GENERIC
      | _ \<Rightarrow> TARGET_TYPE_GENERIC)"

definition target_model :: "string \<Rightarrow> exn + string" where
  "target_model target_type =
     (case map_of TARGET_TYPE_MODELS TARGET_TYPE_GENERIC of
        None \<Rightarrow> Inl KeyError
      | Some generic \<Rightarrow> Inr (case map_of TARGET_TYPE_MODELS target_type of
          Some m \<Rightarrow> m | None \<Rightarrow> generic))"

record rf_target =
  rt_target_id :: string
  rt_subentry_id :: string
  rt_name :: string
  rt_target_type :: string
  rt_area_id :: "string option"

text \<open>\<open>x if isinstance(x, str) and x else None\<close>, the guard the code repeats.\<close>

definition nonempty_str :: "pyval \<Rightarrow> string option" where
  "nonempty_str v = (case v of PStr s \<Rightarrow> if s = [] then None else Some s | _ \<Rightarrow> None)"

definition target_from_subentry :: "subentry \<Rightarrow> rf_target option" where
  "target_from_subentry s =
     (if se_subentry_type s \<noteq> SUBENTRY_TYPE_TARGET then None
      else case nonempty_str (dict_get (se_data s) CONF_TARGET_ID) of
        None \<Rightarrow> None
      | Some target_id \<Rightarrow> Some
          \<lparr>rt_target_id = target_id, rt_subentry_id = se_subentry_id s, rt_name = se_title s,
           rt_target_type = validate_target_type (dict_get (se_data s) CONF_TARGET_TYPE),
           rt_area_id = nonempty_str (dict_get (se_data s) CONF_AREA_ID)\<rparr>)"

definition device_identifier :: "rf_target \<Rightarrow> string \<Rightarrow> string" where
  "device_identifier target bridge_id = target_device_identifier bridge_id (rt_target_id target)"

definition targets :: "config_entry \<Rightarrow> (string, rf_target) dict" where
  "targets entry =
     dict_of (map (\<lambda>t. (rt_target_id t, t))
       (List.map_filter target_from_subentry (map snd (ce_subentries entry))))"

section \<open>The organisation of commands\<close>

record command_meta =
  cm_target_id :: "string option"
  cm_icon :: "string option"

definition empty_meta :: command_meta where
  "empty_meta = \<lparr>cm_target_id = None, cm_icon = None\<rparr>"

definition is_empty :: "command_meta \<Rightarrow> bool" where
  "is_empty meta \<longleftrightarrow> cm_target_id meta = None \<and> cm_icon meta = None"

definition meta_from_stored :: "pyval \<Rightarrow> command_meta" where
  "meta_from_stored payload =
     (case payload of
        PDict d \<Rightarrow> \<lparr>cm_target_id = nonempty_str (dict_get d CONF_TARGET_ID),
          cm_icon = nonempty_str (dict_get d CONF_ICON)\<rparr>
      | _ \<Rightarrow> empty_meta)"

definition meta_as_stored :: "command_meta \<Rightarrow> pyval" where
  "meta_as_stored meta = PDict
     ((case cm_target_id meta of None \<Rightarrow> [] | Some t \<Rightarrow> [(CONF_TARGET_ID, PStr t)]) @
      (case cm_icon meta of None \<Rightarrow> [] | Some i \<Rightarrow> [(CONF_ICON, PStr i)]))"

text \<open>Reading the store: keys that are no integer and entries that say nothing are skipped.\<close>

definition stored_entry :: "string \<times> pyval \<Rightarrow> (int \<times> command_meta) option" where
  "stored_entry kv =
     (case int_of_str (fst kv) of
        None \<Rightarrow> None
      | Some command_id \<Rightarrow>
          let meta = meta_from_stored (snd kv)
          in if is_empty meta then None else Some (command_id, meta))"

definition command_meta_of :: "config_entry \<Rightarrow> (int, command_meta) dict" where
  "command_meta_of entry =
     (case dict_get (ce_options entry) OPT_COMMANDS of
        PDict stored \<Rightarrow> dict_of (List.map_filter stored_entry stored)
      | _ \<Rightarrow> [])"

definition meta_for :: "config_entry \<Rightarrow> int \<Rightarrow> command_meta" where
  "meta_for entry command_id =
     (case map_of (command_meta_of entry) command_id of None \<Rightarrow> empty_meta | Some m \<Rightarrow> m)"

definition assigned_target :: "config_entry \<Rightarrow> int \<Rightarrow> rf_target option" where
  "assigned_target entry command_id =
     (case cm_target_id (meta_for entry command_id) of
        None \<Rightarrow> None | Some target_id \<Rightarrow> map_of (targets entry) target_id)"

definition commands_for_target :: "config_entry \<Rightarrow> string \<Rightarrow> int set" where
  "commands_for_target entry target_id =
     set (map fst (filter (\<lambda>(_, meta). cm_target_id meta = Some target_id) (command_meta_of entry)))"

section \<open>Writing the organisation back\<close>

definition apply_update :: "int \<times> command_meta \<Rightarrow> (int, command_meta) dict \<Rightarrow> (int, command_meta) dict" where
  "apply_update u merged =
     (if is_empty (snd u) then AList.delete (fst u) merged
      else AList.update (fst u) (snd u) merged)"

definition merged_meta :: "config_entry \<Rightarrow> (int \<times> command_meta) list \<Rightarrow> (int, command_meta) dict" where
  "merged_meta entry updates = fold apply_update updates (command_meta_of entry)"

definition options_with :: "config_entry \<Rightarrow> (int \<times> command_meta) list \<Rightarrow> (string, pyval) dict" where
  "options_with entry updates =
     AList.update OPT_COMMANDS
       (PDict (dict_of (map (\<lambda>(command_id, meta). (py_str_int command_id, meta_as_stored meta))
          (sort_key fst (merged_meta entry updates)))))
       (ce_options entry)"

definition prune_one ::
  "(string, rf_target) dict \<Rightarrow> int set option \<Rightarrow> int option \<Rightarrow> int \<times> command_meta
     \<Rightarrow> (int \<times> command_meta) option" where
  "prune_one known_targets command_ids listed_below cm =
     (let (command_id, meta) = cm in
      if (case command_ids of None \<Rightarrow> False | Some ids \<Rightarrow> command_id \<notin> ids) \<and>
         (case listed_below of None \<Rightarrow> True | Some b \<Rightarrow> command_id < b)
      then Some (command_id, empty_meta)
      else case cm_target_id meta of
        None \<Rightarrow> None
      | Some t \<Rightarrow> if t \<notin> set (dict_keys known_targets)
          then Some (command_id, \<lparr>cm_target_id = None, cm_icon = cm_icon meta\<rparr>) else None)"

definition options_pruned_to ::
  "config_entry \<Rightarrow> int set option \<Rightarrow> int option \<Rightarrow> (string, pyval) dict option" where
  "options_pruned_to entry command_ids listed_below =
     (let updates = List.map_filter (prune_one (targets entry) command_ids listed_below)
        (command_meta_of entry)
      in if updates = [] then None else Some (options_with entry updates))"

definition command_icon :: "config_entry \<Rightarrow> int \<Rightarrow> string" where
  "command_icon entry command_id =
     (case cm_icon (meta_for entry command_id) of
        None \<Rightarrow> DEFAULT_COMMAND_ICON
      | Some icon \<Rightarrow> if icon = [] then DEFAULT_COMMAND_ICON else icon)"

section \<open>Lemmas: what is read back is what was written\<close>

definition wf_meta :: "command_meta \<Rightarrow> bool" where
  "wf_meta meta \<longleftrightarrow> cm_target_id meta \<noteq> Some [] \<and> cm_icon meta \<noteq> Some []"

lemma nonempty_str_not_Nil [simp]: "nonempty_str v \<noteq> Some []"
  by (simp add: nonempty_str_def split: pyval.splits)

lemma nonempty_str_PStr [simp]: "nonempty_str (PStr s) = (if s = [] then None else Some s)"
  by (simp add: nonempty_str_def)

lemma nonempty_str_PNone [simp]: "nonempty_str PNone = None"
  by (simp add: nonempty_str_def)

lemma wf_meta_from_stored [simp]: "wf_meta (meta_from_stored v)"
  by (simp add: meta_from_stored_def wf_meta_def empty_meta_def split: pyval.splits)

lemma is_empty_empty [simp]: "is_empty empty_meta"
  by (simp add: is_empty_def empty_meta_def)

lemma meta_stored_roundtrip [simp]: "wf_meta meta \<Longrightarrow> meta_from_stored (meta_as_stored meta) = meta"
  by (cases meta)
    (auto simp: meta_from_stored_def meta_as_stored_def wf_meta_def dict_get_def const_eqs
      split: option.splits)

interpretation meta_store: codec meta_as_stored "\<lambda>v. Some (meta_from_stored v)" wf_meta
  by unfold_locales simp

text \<open>The invariant of a listing: distinct ids, and nothing empty or ill-formed in it.\<close>

definition meta_listing :: "(int, command_meta) dict \<Rightarrow> bool" where
  "meta_listing d \<longleftrightarrow> distinct (dict_keys d) \<and> (\<forall>(k, m) \<in> set d. wf_meta m \<and> \<not> is_empty m)"

lemma meta_listing_Nil [simp]: "meta_listing []"
  by (simp add: meta_listing_def)

lemma dict_merge_values: "kv \<in> set (dict_merge d kvs) \<Longrightarrow> kv \<in> set d \<union> set kvs"
proof (induction kvs arbitrary: d)
  case Nil
  then show ?case by simp
next
  case (Cons p kvs)
  obtain k v where p: "p = (k, v)" by (cases p)
  have "set (AList.update k v d) \<subseteq> insert (k, v) (set d)"
    by (induction d) auto
  with Cons p show ?case by fastforce
qed

lemma dict_of_values: "kv \<in> set (dict_of kvs) \<Longrightarrow> kv \<in> set kvs"
  unfolding dict_of_def by (drule dict_merge_values) simp

lemma meta_listing_command_meta [simp]: "meta_listing (command_meta_of entry)"
proof -
  have "wf_meta m \<and> \<not> is_empty m"
    if "(k, m) \<in> set (dict_of (List.map_filter stored_entry stored))" for k m stored
    using dict_of_values [OF that]
    by (auto simp: List.map_filter_def stored_entry_def Let_def split: option.splits if_splits)
  then show ?thesis
    by (auto simp: command_meta_of_def meta_listing_def distinct_dict_of split: pyval.splits)
qed

lemma distinct_command_meta: "distinct (dict_keys (command_meta_of entry))"
  using meta_listing_command_meta [of entry] by (simp add: meta_listing_def)

lemma set_AList_update: "set (AList.update k v d) \<subseteq> insert (k, v) (set d)"
  by (induction d) auto

lemma set_AList_delete: "set (AList.delete k d) \<subseteq> set d"
  by (auto simp: AList.delete_eq)

lemma meta_listing_apply_update:
  assumes "meta_listing d" and "wf_meta (snd u)"
  shows "meta_listing (apply_update u d)"
proof (cases "is_empty (snd u)")
  case True
  then show ?thesis
    using assms set_AList_delete [of "fst u" d]
    by (auto simp: apply_update_def meta_listing_def distinct_delete)
next
  case False
  then show ?thesis
    using assms set_AList_update [of "fst u" "snd u" d]
    by (fastforce simp: apply_update_def meta_listing_def distinct_update)
qed

lemma meta_listing_merged:
  assumes "\<And>u. u \<in> set updates \<Longrightarrow> wf_meta (snd u)"
  shows "meta_listing (merged_meta entry updates)"
proof -
  have "meta_listing d \<Longrightarrow> meta_listing (fold apply_update updates d)" for d
    using assms by (induction updates arbitrary: d) (auto simp: meta_listing_apply_update)
  then show ?thesis by (simp add: merged_meta_def)
qed

lemma meta_listing_sort: "meta_listing d \<Longrightarrow> meta_listing (sort_key fst d)"
  by (auto simp: meta_listing_def distinct_map)

lemma read_written_listing:
  assumes "meta_listing d"
  shows "dict_of (List.map_filter stored_entry
           (dict_of (map (\<lambda>(k, m). (py_str_int k, meta_as_stored m)) d))) = d"
proof -
  let ?w = "map (\<lambda>(k, m). (py_str_int k, meta_as_stored m)) d"
  have keys: "dict_keys ?w = map py_str_int (dict_keys d)"
    by (simp add: case_prod_beta comp_def)
  have "distinct (dict_keys ?w)"
    unfolding keys using assms by (subst decimal.distinct_enc) (simp_all add: meta_listing_def)
  then have w: "dict_of ?w = ?w" by (rule dict_of_distinct)
  have "List.map_filter stored_entry ?w = d"
    using assms
    by (induction d) (auto simp: meta_listing_def stored_entry_def Let_def)
  then show ?thesis using assms by (simp add: w dict_of_distinct meta_listing_def)
qed

lemma command_meta_options_with:
  assumes "\<And>u. u \<in> set updates \<Longrightarrow> wf_meta (snd u)"
  shows "command_meta_of (entry\<lparr>ce_options := options_with entry updates\<rparr>) =
    sort_key fst (merged_meta entry updates)"
  using read_written_listing [OF meta_listing_sort [OF meta_listing_merged [OF assms]]]
  by (simp add: command_meta_of_def options_with_def dict_get_def update_conv')

lemma map_of_apply_update:
  "map_of (apply_update u d) = (map_of d)(fst u := if is_empty (snd u) then None else Some (snd u))"
  by (simp add: apply_update_def update_conv' map_of_delete)

lemma map_of_merged_meta:
  "map_of (merged_meta entry updates) k =
     (case map_of (rev updates) k of
        None \<Rightarrow> map_of (command_meta_of entry) k
      | Some m \<Rightarrow> if is_empty m then None else Some m)"
proof -
  have "map_of (fold apply_update updates d) k =
     (case map_of (rev updates) k of None \<Rightarrow> map_of d k
      | Some m \<Rightarrow> if is_empty m then None else Some m)" for d
    by (induction updates arbitrary: d rule: rev_induct)
      (auto simp: map_of_apply_update split: option.splits)
  then show ?thesis by (simp add: merged_meta_def)
qed

lemma targets_options_update [simp]: "targets (entry\<lparr>ce_options := opts\<rparr>) = targets entry"
  by (simp add: targets_def)

interpretation meta_options: keyed_store
  "\<lambda>entry. map_of (command_meta_of entry)"
  "\<lambda>entry updates. entry\<lparr>ce_options := options_with entry updates\<rparr>" is_empty wf_meta
proof
  fix us :: "(int \<times> command_meta) list" and s :: config_entry and k
  assume "\<And>u. u \<in> set us \<Longrightarrow> wf_meta (snd u)"
  then show "map_of (command_meta_of (s\<lparr>ce_options := options_with s us\<rparr>)) k =
    (case map_of (rev us) k of None \<Rightarrow> map_of (command_meta_of s) k
     | Some v \<Rightarrow> if is_empty v then None else Some v)"
    using meta_listing_merged [of us s]
    by (simp add: command_meta_options_with map_of_sort_key_fst meta_listing_def map_of_merged_meta)
qed

section \<open>Lemmas: pruning\<close>

text \<open>
  What pruning should leave of one command, said without the code's update list: nothing for a
  command the listing vouches is gone, the icon alone for a command whose target does not exist,
  everything otherwise.
\<close>

definition vouched_gone :: "int set option \<Rightarrow> int option \<Rightarrow> int \<Rightarrow> bool" where
  "vouched_gone command_ids listed_below k \<longleftrightarrow>
     (case command_ids of None \<Rightarrow> False | Some ids \<Rightarrow> k \<notin> ids) \<and>
     (case listed_below of None \<Rightarrow> True | Some b \<Rightarrow> k < b)"

definition dangling :: "config_entry \<Rightarrow> command_meta \<Rightarrow> bool" where
  "dangling entry m \<longleftrightarrow>
     (case cm_target_id m of None \<Rightarrow> False | Some t \<Rightarrow> map_of (targets entry) t = None)"

definition pruned_meta ::
  "config_entry \<Rightarrow> int set option \<Rightarrow> int option \<Rightarrow> int \<Rightarrow> command_meta option" where
  "pruned_meta entry command_ids listed_below k =
     (case map_of (command_meta_of entry) k of
        None \<Rightarrow> None
      | Some m \<Rightarrow>
          if vouched_gone command_ids listed_below k then None
          else if dangling entry m
            then if cm_icon m = None then None
              else Some \<lparr>cm_target_id = None, cm_icon = cm_icon m\<rparr>
          else Some m)"

lemma dangling_options_update: "dangling (entry\<lparr>ce_options := opts\<rparr>) m = dangling entry m"
  by (simp add: dangling_def split: option.split)

text \<open>The entry after the caller stored what pruning returned, if anything.\<close>

definition pruned_entry :: "config_entry \<Rightarrow> int set option \<Rightarrow> int option \<Rightarrow> config_entry" where
  "pruned_entry entry command_ids listed_below =
     (case options_pruned_to entry command_ids listed_below of
        None \<Rightarrow> entry | Some opts \<Rightarrow> entry\<lparr>ce_options := opts\<rparr>)"

lemma prune_one_eq:
  "prune_one (targets entry) command_ids listed_below (k, m) =
     (if vouched_gone command_ids listed_below k then Some (k, empty_meta)
      else if dangling entry m then Some (k, \<lparr>cm_target_id = None, cm_icon = cm_icon m\<rparr>)
      else None)"
  by (auto simp: prune_one_def vouched_gone_def dangling_def map_of_eq_None_iff split: option.splits)

lemma prune_one_key: "prune_one T command_ids listed_below (k, v) = Some (k', w) \<Longrightarrow> k' = k"
  by (auto simp: prune_one_def Let_def split: option.splits if_splits)

lemma prune_one_wf:
  assumes "u \<in> set (List.map_filter (prune_one T command_ids listed_below) (command_meta_of entry))"
  shows "wf_meta (snd u)"
proof -
  from assms obtain k m where "(k, m) \<in> set (command_meta_of entry)"
    and "prune_one T command_ids listed_below (k, m) = Some u"
    by (auto simp: List.map_filter_def)
  then show ?thesis
    using meta_listing_command_meta [of entry]
    by (auto simp: prune_one_def meta_listing_def wf_meta_def empty_meta_def
      split: option.splits if_splits)
qed

lemma pruned_lookup:
  "map_of (command_meta_of (pruned_entry entry command_ids listed_below)) k =
     pruned_meta entry command_ids listed_below k"
proof -
  let ?f = "prune_one (targets entry) command_ids listed_below"
  let ?us = "List.map_filter ?f (command_meta_of entry)"
  have rev: "map_of (rev ?us) = map_of ?us"
    by (intro map_of_rev_dict distinct_map_filter distinct_command_meta prune_one_key)
  have us: "map_of ?us k = (case map_of (command_meta_of entry) k of None \<Rightarrow> None
      | Some v \<Rightarrow> map_option snd (?f (k, v)))"
    by (rule map_of_map_filter [OF distinct_command_meta prune_one_key])
  have "map_of (command_meta_of (entry\<lparr>ce_options := options_with entry ?us\<rparr>)) k =
      pruned_meta entry command_ids listed_below k"
    using meta_options.look_put [of ?us entry k, OF prune_one_wf]
    by (auto simp: rev us prune_one_eq pruned_meta_def is_empty_def empty_meta_def split: option.splits)
  moreover have "map_of (command_meta_of entry) k = pruned_meta entry command_ids listed_below k" if "?us = []"
    using us that
    by (cases "map_of (command_meta_of entry) k") (auto simp: prune_one_eq pruned_meta_def split: if_splits)
  ultimately show ?thesis
    by (simp add: pruned_entry_def options_pruned_to_def Let_def)
qed

lemma options_pruned_None_iff:
  "options_pruned_to entry command_ids listed_below = None \<longleftrightarrow>
     (\<forall>k m. map_of (command_meta_of entry) k = Some m \<longrightarrow>
        \<not> vouched_gone command_ids listed_below k \<and> \<not> dangling entry m)"
proof -
  have "options_pruned_to entry command_ids listed_below = None \<longleftrightarrow>
      (\<forall>(k, m) \<in> set (command_meta_of entry).
        prune_one (targets entry) command_ids listed_below (k, m) = None)"
    by (simp add: options_pruned_to_def Let_def map_filter_Nil_iff case_prod_beta)
  then show ?thesis
    by (auto simp: prune_one_eq map_of_eq_Some_iff [OF distinct_command_meta] split: if_splits)
qed

lemma meta_for_pruned:
  "meta_for (pruned_entry entry command_ids listed_below) k =
     (case pruned_meta entry command_ids listed_below k of None \<Rightarrow> empty_meta | Some m \<Rightarrow> m)"
  by (simp add: meta_for_def pruned_lookup)

lemma pruned_again:
  assumes "map_of (command_meta_of (pruned_entry entry command_ids listed_below)) k = Some m"
  shows "\<not> vouched_gone command_ids listed_below k \<and> \<not> dangling entry m"
  using assms unfolding pruned_lookup
  by (auto simp: pruned_meta_def dangling_def split: option.splits if_splits)

lemma unvouched_kept:
  assumes "command_ids = None \<or> k \<in> the command_ids \<or> (\<exists>b. listed_below = Some b \<and> b \<le> k)"
  shows "cm_icon (meta_for (pruned_entry entry command_ids listed_below) k) = cm_icon (meta_for entry k) \<and>
    assigned_target (pruned_entry entry command_ids listed_below) k = assigned_target entry k"
proof -
  have "\<not> vouched_gone command_ids listed_below k"
    using assms by (auto simp: vouched_gone_def split: option.splits)
  then have "meta_for (pruned_entry entry command_ids listed_below) k =
      (if dangling entry (meta_for entry k)
       then \<lparr>cm_target_id = None, cm_icon = cm_icon (meta_for entry k)\<rparr> else meta_for entry k)"
    unfolding meta_for_pruned
    by (auto simp: pruned_meta_def meta_for_def dangling_def empty_meta_def split: option.split)
  moreover have "targets (pruned_entry entry command_ids listed_below) = targets entry"
    by (simp add: pruned_entry_def split: option.split)
  ultimately show ?thesis
    by (auto simp: assigned_target_def dangling_def split: option.splits)
qed

section \<open>Properties\<close>

text \<open>A bridge entry with one live target, two organised commands and a dangling assignment.\<close>

definition demo_entry :: config_entry where
  "demo_entry = \<lparr>ce_entry_id = ''e1'', ce_domain = ''rf_cloner'', ce_title = ''Bridge'',
     ce_unique_id = Some ''b1'', ce_data = [(''esphome_entry_id'', PStr ''n1'')],
     ce_options = [(''theme'', PStr ''x''),
       (''commands'', PDict
         [(''9'', PDict [(''target_id'', PStr ''gone'')]),
          (''4'', PDict [(''target_id'', PStr ''t1''), (''icon'', PStr ''mdi:fan'')]),
          (''oops'', PInt 3)])],
     ce_subentries = [(''s1'', \<lparr>se_subentry_id = ''s1'', se_subentry_type = ''target'',
       se_title = ''Fan'', se_data = [(''target_id'', PStr ''t1''), (''target_type'', PStr ''fan'')]\<rparr>)],
     ce_version = 2, ce_minor_version = 1, ce_state = LOADED\<rparr>"

text \<open>
  Storing updates and reading the store back gives, for every command id, the last update
  of that id if there is one (nothing, when it is empty) and the previous organisation
  otherwise; every other key of the options is as it was.
\<close>

theorem options_with_reads_back:
  assumes "\<And>u. u \<in> set updates \<Longrightarrow> wf_meta (snd u)"
  shows "map_of (command_meta_of (entry\<lparr>ce_options := options_with entry updates\<rparr>)) k =
      (case map_of (rev updates) k of
         None \<Rightarrow> map_of (command_meta_of entry) k
       | Some m \<Rightarrow> if is_empty m then None else Some m) \<and>
    (key \<noteq> OPT_COMMANDS \<longrightarrow>
       map_of (options_with entry updates) key = map_of (ce_options entry) key)"
  using meta_options.look_put [of updates entry k] assms
  by (simp add: options_with_def update_conv')

theorem options_with_reads_back_witness:
  "map_of (command_meta_of (demo_entry\<lparr>ce_options := options_with demo_entry
      [(5, \<lparr>cm_target_id = Some ''t1'', cm_icon = None\<rparr>)]\<rparr>)) 5 =
     Some \<lparr>cm_target_id = Some ''t1'', cm_icon = None\<rparr>"
  using options_with_reads_back [of "[(5, \<lparr>cm_target_id = Some ''t1'', cm_icon = None\<rparr>)]" demo_entry 5 "''theme''"]
  by (simp add: wf_meta_def is_empty_def)

text \<open>
  Pruning leaves each command exactly what it should: nothing for a command the listing
  vouches is gone, the icon alone when the target it names does not exist, and the previous
  organisation otherwise.
\<close>

theorem options_pruned_to_spec:
  "map_of (command_meta_of
      (case options_pruned_to entry command_ids listed_below of
         None \<Rightarrow> entry | Some opts \<Rightarrow> entry\<lparr>ce_options := opts\<rparr>)) k =
   pruned_meta entry command_ids listed_below k"
  using pruned_lookup by (simp add: pruned_entry_def)

text \<open>
  Pruning is finished after one pass: on an entry that already carries the options a prune
  produced, the same prune finds nothing, so the update listener it triggers stops there.
\<close>

theorem options_pruned_to_idempotent:
  assumes "options_pruned_to entry command_ids listed_below = Some opts"
  shows "options_pruned_to (entry\<lparr>ce_options := opts\<rparr>) command_ids listed_below = None"
proof -
  have "pruned_entry entry command_ids listed_below = entry\<lparr>ce_options := opts\<rparr>"
    using assms by (simp add: pruned_entry_def)
  then show ?thesis
    using pruned_again [of entry command_ids listed_below]
    by (auto simp: options_pruned_None_iff dangling_options_update)
qed

theorem options_pruned_to_idempotent_witness:
  "\<exists>opts. options_pruned_to demo_entry (Some {4, 9}) None = Some opts \<and>
     options_pruned_to (demo_entry\<lparr>ce_options := opts\<rparr>) (Some {4, 9}) None = None"
proof -
  have "options_pruned_to demo_entry (Some {4, 9}) None \<noteq> None" by code_simp
  then obtain opts where "options_pruned_to demo_entry (Some {4, 9}) None = Some opts" by blast
  then show ?thesis using options_pruned_to_idempotent by blast
qed

text \<open>
  Pruning never touches the organisation of a command nothing vouches against: without a
  listing, for a listed command, or for an id at or past the counter the listing was read with,
  the command keeps its icon, and keeps its target too unless that target does not exist.
\<close>

theorem pruning_keeps_unvouched:
  assumes "command_ids = None \<or> k \<in> the command_ids \<or> (\<exists>b. listed_below = Some b \<and> b \<le> k)"
  shows "cm_icon (meta_for (pruned_entry entry command_ids listed_below) k) = cm_icon (meta_for entry k) \<and>
    assigned_target (pruned_entry entry command_ids listed_below) k = assigned_target entry k"
  by (rule unvouched_kept) (rule assms)

theorem pruning_keeps_unvouched_witness:
  "cm_icon (meta_for (pruned_entry demo_entry (Some {}) (Some 4)) 4) = Some ''mdi:fan''"
proof -
  have "cm_icon (meta_for demo_entry 4) = Some ''mdi:fan''" by code_simp
  then show ?thesis
    using pruning_keeps_unvouched [of "Some {}" 4 "Some 4" demo_entry] by simp
qed

text \<open>
  A command is assigned to a target exactly when that target exists in the entry and its
  commands list names the command; an assignment that names a removed target reads as none.
\<close>

theorem assigned_target_iff:
  "assigned_target entry k = Some t \<longleftrightarrow>
     map_of (targets entry) (rt_target_id t) = Some t \<and> k \<in> commands_for_target entry (rt_target_id t)"
proof -
  have key: "rt_target_id t = i" if "map_of (targets entry) i = Some t" for i t
    using that by (auto simp: targets_def map_of_dict_of dest!: map_of_SomeD)
  have "k \<in> commands_for_target entry i \<longleftrightarrow>
      (\<exists>m. map_of (command_meta_of entry) k = Some m \<and> cm_target_id m = Some i)" for i
    by (force simp: commands_for_target_def map_of_eq_Some_iff [OF distinct_command_meta])
  then have "k \<in> commands_for_target entry i \<longleftrightarrow> cm_target_id (meta_for entry k) = Some i" for i
    by (simp add: meta_for_def empty_meta_def split: option.split)
  then show ?thesis
    by (auto simp: assigned_target_def dest: key split: option.splits)
qed

end
