(* ===== verification/Reconcile.thy ===== *)
theory Reconcile
  imports Targets Complex_Main
begin

text \<open>
  \<open>custom_components/rf_cloner/reconcile.py\<close>: the mirror of the device's command list in Home
  Assistant's organisation. The reconciler's fields are a record. What an operation asks of Home
  Assistant - removing a registry record, storing options, calling a listener - is an effect it
  emits, in order; what it reads of Home Assistant (the entry, the coordinator's data, the
  clock, the registry records of the entry) is an argument.
\<close>

section \<open>Unique ids\<close>

definition RESERVATION_SECONDS :: rat where
  "RESERVATION_SECONDS = 60"

definition command_id_from_unique_id :: "string \<Rightarrow> string \<Rightarrow> int option" where
  "command_id_from_unique_id bridge_id unique_id =
     (let prefix = bridge_id @ ''_'' in
      if \<not> py_startswith unique_id prefix then None
      else int_of_str (drop (length prefix) unique_id))"

definition command_unique_id :: "string \<Rightarrow> int \<Rightarrow> string" where
  "command_unique_id bridge_id command_id = bridge_id @ ''_'' @ py_str_int command_id"

section \<open>State and effects\<close>

text \<open>A record of the entity registry, as far as the integration reads it.\<close>

record entity_record =
  er_entity_id :: string
  er_unique_id :: string
  er_config_subentry_id :: "string option"
  er_device_id :: "string option"

record 'l reconciler =
  rc_reserved :: "(string, rat) dict"
  rc_active :: bool
  rc_identity_mismatch :: bool
  rc_listeners :: "'l list"
  rc_known_targets :: "string set"

datatype 'l effect =
    RemoveEntity string
  | UpdateOptions "(string, pyval) dict"
  | CallListener 'l

definition new_reconciler :: "'l reconciler" where
  "new_reconciler = \<lparr>rc_reserved = [], rc_active = False, rc_identity_mismatch = False,
     rc_listeners = [], rc_known_targets = {}\<rparr>"

definition async_add_listener :: "'l \<Rightarrow> 'l reconciler \<Rightarrow> 'l reconciler" where
  "async_add_listener l r = r\<lparr>rc_listeners := rc_listeners r @ [l]\<rparr>"

definition remove_listener :: "'l \<Rightarrow> 'l reconciler \<Rightarrow> 'l reconciler" where
  "remove_listener l r = r\<lparr>rc_listeners := remove1 l (rc_listeners r)\<rparr>"

definition async_notify :: "'l reconciler \<Rightarrow> 'l effect list" where
  "async_notify r = map CallListener (rc_listeners r)"

definition async_snapshot_targets :: "config_entry \<Rightarrow> 'l reconciler \<Rightarrow> 'l reconciler" where
  "async_snapshot_targets entry r =
     r\<lparr>rc_known_targets := set (map (rt_subentry_id \<circ> snd) (targets entry))\<rparr>"

definition async_activate :: "config_entry \<Rightarrow> 'l reconciler \<Rightarrow> 'l reconciler" where
  "async_activate entry r = (async_snapshot_targets entry r)\<lparr>rc_active := True\<rparr>"

definition async_deactivate :: "'l reconciler \<Rightarrow> 'l reconciler" where
  "async_deactivate r = r\<lparr>rc_active := False\<rparr>"

definition accepts_user_removals :: "config_entry \<Rightarrow> 'l reconciler \<Rightarrow> bool" where
  "accepts_user_removals entry r \<longleftrightarrow> rc_active r \<and> ce_state entry = LOADED"

section \<open>Reservations\<close>

definition async_reserve :: "rat \<Rightarrow> string \<Rightarrow> 'l reconciler \<Rightarrow> 'l reconciler" where
  "async_reserve now nm r =
     r\<lparr>rc_reserved := AList.update nm (now + RESERVATION_SECONDS) (rc_reserved r)\<rparr>"

definition async_release :: "string \<Rightarrow> 'l reconciler \<Rightarrow> 'l reconciler" where
  "async_release nm r = r\<lparr>rc_reserved := AList.delete nm (rc_reserved r)\<rparr>"

definition async_is_reserved :: "rat \<Rightarrow> string \<Rightarrow> 'l reconciler \<Rightarrow> bool \<times> 'l reconciler" where
  "async_is_reserved now nm r =
     (case map_of (rc_reserved r) nm of
        None \<Rightarrow> (False, r)
      | Some lapses_at \<Rightarrow>
          if now \<ge> lapses_at then (False, r\<lparr>rc_reserved := AList.delete nm (rc_reserved r)\<rparr>)
          else (True, r))"

section \<open>Listings\<close>

definition async_listed_commands :: "bridge_status option \<Rightarrow> 'l reconciler \<Rightarrow> int set option" where
  "async_listed_commands status r =
     (case status of
        None \<Rightarrow> None
      | Some s \<Rightarrow>
          if rc_identity_mismatch r \<or> bs_restore_incomplete s then None
          else Some (set (map ci_command_id (bs_commands s))))"

fun visible_from :: "rat \<Rightarrow> command_info list \<Rightarrow> 'l reconciler \<Rightarrow> int set \<times> 'l reconciler" where
  "visible_from now [] r = ({}, r)"
| "visible_from now (c # cs) r =
     (let (reserved, r1) = async_is_reserved now (ci_name c) r;
          (rest, r2) = visible_from now cs r1
      in (if reserved then rest else insert (ci_command_id c) rest, r2))"

definition async_visible_commands ::
  "rat \<Rightarrow> bridge_status option \<Rightarrow> 'l reconciler \<Rightarrow> int set \<times> 'l reconciler" where
  "async_visible_commands now status r =
     (case status of
        None \<Rightarrow> ({}, r)
      | Some s \<Rightarrow>
          if rc_identity_mismatch r \<or> bs_restore_incomplete s then ({}, r)
          else visible_from now (bs_commands s) r)"

section \<open>Reconciling\<close>

definition purge_one :: "string \<Rightarrow> int set \<Rightarrow> entity_record \<Rightarrow> 'l effect option" where
  "purge_one bridge_id listed record =
     (case command_id_from_unique_id bridge_id (er_unique_id record) of
        None \<Rightarrow> None
      | Some command_id \<Rightarrow>
          if command_id \<in> listed then None else Some (RemoveEntity (er_entity_id record)))"

definition async_purge_removed_commands ::
  "config_entry \<Rightarrow> entity_record list \<Rightarrow> int set option \<Rightarrow> 'l effect list" where
  "async_purge_removed_commands entry records listed =
     (case (listed, ce_unique_id entry) of
        (Some ids, Some bridge_id) \<Rightarrow> List.map_filter (purge_one bridge_id ids) records
      | _ \<Rightarrow> [])"

definition store_options :: "(string, pyval) dict option \<Rightarrow> 'l effect list" where
  "store_options pruned = (case pruned of None \<Rightarrow> [] | Some opts \<Rightarrow> [UpdateOptions opts])"

definition foreign_status :: "config_entry \<Rightarrow> bridge_status \<Rightarrow> bool" where
  "foreign_status entry status \<longleftrightarrow>
     (case ce_unique_id entry of None \<Rightarrow> False | Some expected \<Rightarrow> bs_bridge_id status \<noteq> expected)"

definition async_reconcile ::
  "config_entry \<Rightarrow> entity_record list \<Rightarrow> bridge_status \<Rightarrow> 'l reconciler
     \<Rightarrow> 'l reconciler \<times> 'l effect list" where
  "async_reconcile entry records status r =
     (if foreign_status entry status then (r\<lparr>rc_identity_mismatch := True\<rparr>, [])
      else
        let r1 = r\<lparr>rc_identity_mismatch := False\<rparr> in
        if bs_restore_incomplete status then (r1, [])
        else
          let r2 = r1\<lparr>rc_reserved := fold (\<lambda>c. AList.delete (ci_name c)) (bs_commands status) (rc_reserved r1)\<rparr>;
              listed = async_listed_commands (Some status) r2;
              purged = async_purge_removed_commands entry records listed;
              stored = store_options (options_pruned_to entry listed None);
              r3 = async_snapshot_targets entry r2
          in (r3, purged @ stored @ async_notify r3))"

definition async_handle_entry_update ::
  "config_entry \<Rightarrow> bridge_status option \<Rightarrow> 'l reconciler \<Rightarrow> 'l reconciler \<times> 'l effect list" where
  "async_handle_entry_update entry status r =
     (if \<not> accepts_user_removals entry r then (async_snapshot_targets entry r, [])
      else
        let r1 = async_snapshot_targets entry r in
        case options_pruned_to entry (async_listed_commands status r1) (map_option bs_next_command_id status) of
          Some opts \<Rightarrow> (r1, [UpdateOptions opts])
        | None \<Rightarrow> (r1, async_notify r1))"

section \<open>Lemmas: unique ids\<close>

lemma command_id_from_command_unique_id [simp]:
  "command_id_from_unique_id bridge_id (command_unique_id bridge_id command_id) = Some command_id"
proof -
  have "command_unique_id bridge_id command_id = (bridge_id @ ''_'') @ py_str_int command_id"
    by (simp add: command_unique_id_def)
  then show ?thesis by (simp only: command_id_from_unique_id_def Let_def py_startswith_append) simp
qed

interpretation unique_ids: codec "command_unique_id bridge_id" "command_id_from_unique_id bridge_id" "\<lambda>_. True"
  for bridge_id
  by unfold_locales simp

text \<open>A unique id made of the bridge's id and a word is none of a command's.\<close>

lemma command_id_from_word:
  "int_of_str key = None \<Longrightarrow> command_id_from_unique_id bridge_id (bridge_id @ ''_'' @ key) = None"
  using py_startswith_append [of "bridge_id @ ''_''" key]
  by (simp add: command_id_from_unique_id_def)

section \<open>Lemmas: reservations and listings\<close>

definition held :: "rat \<Rightarrow> 'l reconciler \<Rightarrow> string \<Rightarrow> bool" where
  "held now r nm \<longleftrightarrow> (case map_of (rc_reserved r) nm of None \<Rightarrow> False | Some lapses_at \<Rightarrow> now < lapses_at)"

lemma fst_is_reserved: "fst (async_is_reserved now nm r) = held now r nm"
  by (simp add: async_is_reserved_def held_def split: option.split)

lemma held_is_reserved: "held now (snd (async_is_reserved now nm r)) nm' = held now r nm'"
  by (auto simp: async_is_reserved_def held_def map_of_delete split: option.split)

lemma visible_from_spec:
  "fst (visible_from now cs r) = ci_command_id ` {c \<in> set cs. \<not> held now r (ci_name c)}"
proof (induction cs arbitrary: r)
  case Nil
  then show ?case by simp
next
  case (Cons c cs)
  obtain b r1 where one: "async_is_reserved now (ci_name c) r = (b, r1)"
    by (cases "async_is_reserved now (ci_name c) r")
  obtain s r2 where rest: "visible_from now cs r1 = (s, r2)" by (cases "visible_from now cs r1")
  have "s = ci_command_id ` {c \<in> set cs. \<not> held now r1 (ci_name c)}"
    using Cons.IH [of r1] rest by simp
  moreover have "held now r1 nm = held now r nm" for nm
    using held_is_reserved [of now "ci_name c" r nm] one by simp
  moreover have "b = held now r (ci_name c)"
    using fst_is_reserved [of now "ci_name c" r] one by simp
  ultimately show ?case using one rest by auto
qed

lemma map_of_fold_delete:
  "map_of (fold (\<lambda>c. AList.delete (f c)) cs d) k = (if k \<in> f ` set cs then None else map_of d k)"
  by (induction cs arbitrary: d) (auto simp: map_of_delete)

definition trusted :: "config_entry \<Rightarrow> bridge_status \<Rightarrow> bool" where
  "trusted entry status \<longleftrightarrow> \<not> foreign_status entry status \<and> \<not> bs_restore_incomplete status"

lemma async_reconcile_untrusted:
  "\<not> trusted entry status \<Longrightarrow>
     async_reconcile entry records status r = (r\<lparr>rc_identity_mismatch := foreign_status entry status\<rparr>, [])"
  by (auto simp: trusted_def async_reconcile_def)

lemma async_reconcile_trusted:
  assumes "trusted entry status"
  shows "async_reconcile entry records status r =
    (let r' = async_snapshot_targets entry
           (r\<lparr>rc_identity_mismatch := False,
              rc_reserved := fold (\<lambda>c. AList.delete (ci_name c)) (bs_commands status) (rc_reserved r)\<rparr>);
         ids = set (map ci_command_id (bs_commands status))
     in (r', async_purge_removed_commands entry records (Some ids) @
             store_options (options_pruned_to entry (Some ids) None) @ async_notify r'))"
  using assms
  by (simp add: trusted_def async_reconcile_def async_listed_commands_def Let_def)

lemma purge_one_Some:
  "purge_one b ids rec = Some eff \<longleftrightarrow>
     (\<exists>k. command_id_from_unique_id b (er_unique_id rec) = Some k \<and> k \<notin> ids \<and>
        eff = RemoveEntity (er_entity_id rec))"
  by (auto simp: purge_one_def split: option.split)

lemma purge_spec:
  "RemoveEntity e \<in> set (async_purge_removed_commands entry records listed) \<longleftrightarrow>
     (\<exists>ids b rec k. listed = Some ids \<and> ce_unique_id entry = Some b \<and> rec \<in> set records \<and>
        er_entity_id rec = e \<and> command_id_from_unique_id b (er_unique_id rec) = Some k \<and> k \<notin> ids)"
  unfolding async_purge_removed_commands_def
  by (cases listed; cases "ce_unique_id entry") (simp_all add: set_map_filter purge_one_Some, blast)

lemma purge_only_removes:
  "eff \<in> set (async_purge_removed_commands entry records listed) \<Longrightarrow> \<exists>e. eff = RemoveEntity e"
  by (auto simp: async_purge_removed_commands_def set_map_filter purge_one_Some split: option.splits)

lemma notify_no_removal [simp]: "RemoveEntity e \<notin> set (async_notify r)" "UpdateOptions opts \<notin> set (async_notify r)"
  by (auto simp: async_notify_def)

lemma store_no_removal [simp]: "RemoveEntity e \<notin> set (store_options pruned)"
  by (simp add: store_options_def split: option.split)

lemma handle_entry_update_no_removal:
  "RemoveEntity e \<notin> set (snd (async_handle_entry_update entry status r))"
  by (simp add: async_handle_entry_update_def Let_def split: option.split)

text \<open>The listeners of a reconciler are the ones its subscriptions left.\<close>

lemma snapshot_targets_listeners [simp]:
  "rc_listeners (async_snapshot_targets entry r) = rc_listeners r"
  "rc_identity_mismatch (async_snapshot_targets entry r) = rc_identity_mismatch r"
  "rc_reserved (async_snapshot_targets entry r) = rc_reserved r"
  "rc_active (async_snapshot_targets entry r) = rc_active r"
  by (simp_all add: async_snapshot_targets_def)

lemma snapshot_targets_options [simp]:
  "async_snapshot_targets (entry\<lparr>ce_options := opts\<rparr>) r = async_snapshot_targets entry r"
  by (simp add: async_snapshot_targets_def)

lemma snapshot_targets_twice [simp]:
  "async_snapshot_targets entry (async_snapshot_targets entry r) = async_snapshot_targets entry r"
  by (simp add: async_snapshot_targets_def)

lemma listed_snapshot_targets [simp]:
  "async_listed_commands status (async_snapshot_targets entry r) = async_listed_commands status r"
  by (simp add: async_listed_commands_def split: option.split)

text \<open>A prune that found something leaves an entry on which the same prune finds nothing.\<close>

lemma pruned_options_settled:
  assumes "options_pruned_to entry ids below = Some opts"
  shows "options_pruned_to (entry\<lparr>ce_options := opts\<rparr>) ids below = None"
proof -
  have "pruned_entry entry ids below = entry\<lparr>ce_options := opts\<rparr>"
    using assms by (simp add: pruned_entry_def)
  then show ?thesis
    using pruned_again [of entry ids below]
    by (auto simp: options_pruned_None_iff dangling_options_update)
qed

section \<open>The reconciler as a state machine\<close>

text \<open>
  What can happen to a loaded entry's reconciler. \<open>EntryChanged\<close> is the outside changing the entry
  (targets added or removed, options stored); its unique id stays.
\<close>

datatype 'l event =
    Poll bridge_status "entity_record list"
  | EntryUpdate "bridge_status option"
  | Look rat "bridge_status option"
  | Reserve rat string
  | Release string
  | Activate
  | Deactivate
  | Subscribe 'l
  | Unsubscribe 'l

fun rc_step :: "'l event \<Rightarrow> config_entry \<Rightarrow> 'l reconciler \<Rightarrow> 'l reconciler \<times> 'l effect list" where
  "rc_step (Poll status records) entry r = async_reconcile entry records status r"
| "rc_step (EntryUpdate status) entry r = async_handle_entry_update entry status r"
| "rc_step (Look now status) entry r = (snd (async_visible_commands now status r), [])"
| "rc_step (Reserve now nm) entry r = (async_reserve now nm r, [])"
| "rc_step (Release nm) entry r = (async_release nm r, [])"
| "rc_step Activate entry r = (async_activate entry r, [])"
| "rc_step Deactivate entry r = (async_deactivate r, [])"
| "rc_step (Subscribe l) entry r = (async_add_listener l r, [])"
| "rc_step (Unsubscribe l) entry r = (remove_listener l r, [])"

text \<open>\<open>reached evs entry r effs\<close>: after the events \<open>evs\<close>, the latest first, having emitted \<open>effs\<close>.\<close>

inductive reached :: "'l event list \<Rightarrow> config_entry \<Rightarrow> 'l reconciler \<Rightarrow> 'l effect list \<Rightarrow> bool" where
  start: "reached [] entry new_reconciler []"
| event: "reached evs entry r effs \<Longrightarrow> rc_step ev entry r = (r', out) \<Longrightarrow> reached (ev # evs) entry r' (effs @ out)"
| changed: "reached evs entry r effs \<Longrightarrow> ce_unique_id entry' = ce_unique_id entry \<Longrightarrow> reached evs entry' r effs"

inductive_cases reached_NilE: "reached [] entry r effs"

text \<open>The last status the reconciler was given, if any.\<close>

fun last_poll :: "'l event list \<Rightarrow> bridge_status option" where
  "last_poll [] = None"
| "last_poll (Poll status records # evs) = Some status"
| "last_poll (_ # evs) = last_poll evs"

lemma is_reserved_mismatch: "rc_identity_mismatch (snd (async_is_reserved now nm r)) = rc_identity_mismatch r"
  by (simp add: async_is_reserved_def split: option.split)

lemma visible_from_mismatch: "rc_identity_mismatch (snd (visible_from now cs r)) = rc_identity_mismatch r"
  by (induction cs arbitrary: r) (simp_all add: Let_def case_prod_beta is_reserved_mismatch)

lemma operations_keep_mismatch [simp]:
  "rc_identity_mismatch (fst (async_handle_entry_update entry status r)) = rc_identity_mismatch r"
  "rc_identity_mismatch (snd (async_visible_commands now status r)) = rc_identity_mismatch r"
  "rc_identity_mismatch (async_reserve now nm r) = rc_identity_mismatch r"
  "rc_identity_mismatch (async_release nm r) = rc_identity_mismatch r"
  "rc_identity_mismatch (async_activate entry r) = rc_identity_mismatch r"
  "rc_identity_mismatch (async_deactivate r) = rc_identity_mismatch r"
  "rc_identity_mismatch (async_add_listener l r) = rc_identity_mismatch r"
  "rc_identity_mismatch (remove_listener l r) = rc_identity_mismatch r"
  by (simp_all add: async_handle_entry_update_def Let_def async_visible_commands_def visible_from_mismatch
      async_reserve_def async_release_def async_activate_def async_deactivate_def
      async_add_listener_def remove_listener_def split: option.split)

lemma step_keeps_mismatch:
  "(\<exists>status records. ev = Poll status records) \<or>
   (rc_identity_mismatch (fst (rc_step ev entry r)) = rc_identity_mismatch r \<and>
    last_poll (ev # evs) = last_poll evs)"
  by (cases ev) simp_all

lemma reconcile_mismatch:
  "rc_identity_mismatch (fst (async_reconcile entry records status r)) = foreign_status entry status"
  by (cases "trusted entry status")
    (simp_all add: async_reconcile_untrusted async_reconcile_trusted Let_def, simp add: trusted_def)

lemma foreign_status_unique_id:
  "ce_unique_id entry' = ce_unique_id entry \<Longrightarrow> foreign_status entry' = foreign_status entry"
  by (auto simp: foreign_status_def fun_eq_iff)

text \<open>The removals a step emits, and where they come from.\<close>

definition gone_record :: "string option \<Rightarrow> bridge_status \<Rightarrow> entity_record \<Rightarrow> bool" where
  "gone_record unique_id status rec \<longleftrightarrow>
     (\<exists>b k. unique_id = Some b \<and> bs_bridge_id status = b \<and> \<not> bs_restore_incomplete status \<and>
        command_id_from_unique_id b (er_unique_id rec) = Some k \<and>
        k \<notin> ci_command_id ` set (bs_commands status))"

lemma reconcile_removals:
  "RemoveEntity e \<in> set (snd (async_reconcile entry records status r)) \<longleftrightarrow>
     (\<exists>rec. rec \<in> set records \<and> er_entity_id rec = e \<and> gone_record (ce_unique_id entry) status rec)"
proof (cases "trusted entry status")
  case False
  then show ?thesis
    by (auto simp: async_reconcile_untrusted gone_record_def trusted_def foreign_status_def)
next
  case True
  then show ?thesis
    by (auto simp: async_reconcile_trusted Let_def purge_spec gone_record_def trusted_def foreign_status_def)
qed

lemma step_removals:
  assumes "RemoveEntity e \<in> set (snd (rc_step ev entry r))"
  shows "\<exists>status records rec. ev = Poll status records \<and> rec \<in> set records \<and> er_entity_id rec = e \<and>
    gone_record (ce_unique_id entry) status rec"
proof (cases ev)
  case (Poll status records)
  with assms show ?thesis by (simp add: reconcile_removals)
qed (use assms in \<open>simp_all add: handle_entry_update_no_removal\<close>)

text \<open>Effects told apart by evaluation.\<close>

fun is_update :: "'l effect \<Rightarrow> bool" where
  "is_update (UpdateOptions _) = True"
| "is_update _ = False"

fun is_removal_of :: "string \<Rightarrow> 'l effect \<Rightarrow> bool" where
  "is_removal_of e (RemoveEntity e') = (e = e')"
| "is_removal_of e _ = False"

lemma is_update_iff: "is_update eff \<longleftrightarrow> (\<exists>opts. eff = UpdateOptions opts)"
  by (cases eff) simp_all

lemma is_removal_of_iff: "is_removal_of e eff \<longleftrightarrow> eff = RemoveEntity e"
  by (cases eff) auto

section \<open>Properties\<close>

text \<open>A status of the demo entry's own bridge that lists command 4 alone.\<close>

definition demo_listing :: bridge_status where
  "demo_listing = \<lparr>bs_bridge_id = ''b1'', bs_revision = 7, bs_next_command_id = 10,
     bs_restore_incomplete = False, bs_read_only = False, bs_fault = ''none'', bs_state = ''idle'',
     bs_last_result = '''', bs_count = 1, bs_max_commands = 32, bs_max_pulses = 256,
     bs_used_bytes = 0, bs_capacity_bytes = 0,
     bs_commands = [\<lparr>ci_command_id = 4, ci_name = ''fan_on'', ci_pulses = 4\<rparr>]\<rparr>"

definition demo_records :: "entity_record list" where
  "demo_records =
     [\<lparr>er_entity_id = ''button.a'', er_unique_id = ''b1_4'', er_config_subentry_id = None, er_device_id = None\<rparr>,
      \<lparr>er_entity_id = ''button.b'', er_unique_id = ''b1_9'', er_config_subentry_id = None, er_device_id = None\<rparr>,
      \<lparr>er_entity_id = ''button.c'', er_unique_id = ''b1_cancel_learn'', er_config_subentry_id = None, er_device_id = None\<rparr>]"

text \<open>
  C13: In every run of the reconciler, whatever the outside does to the entry in between, a registry
  record is removed only because a poll brought a complete listing of the entry's own bridge
  that does not have the command the record's unique id names. Nothing else removes anything:
  no entry update, no removed target, no foreign or half-restored bridge.
\<close>

theorem runs_remove_only_gone_commands:
  assumes "reached evs entry r effs" and "RemoveEntity e \<in> set effs"
  shows "\<exists>status records rec. Poll status records \<in> set evs \<and> rec \<in> set records \<and>
    er_entity_id rec = e \<and> gone_record (ce_unique_id entry) status rec"
  using assms
proof (induction rule: reached.induct)
  case (event evs entry r effs ev r' out)
  show ?case
  proof (cases "RemoveEntity e \<in> set effs")
    case True
    with event.IH show ?thesis by auto
  next
    case False
    with event have "RemoveEntity e \<in> set (snd (rc_step ev entry r))" by simp
    then show ?thesis using step_removals by fastforce
  qed
qed simp_all

theorem runs_remove_only_gone_commands_witness:
  "gone_record (Some ''b1'') demo_listing
     \<lparr>er_entity_id = ''button.b'', er_unique_id = ''b1_9'', er_config_subentry_id = None, er_device_id = None\<rparr>"
proof -
  let ?run = "rc_step (Poll demo_listing demo_records) demo_entry (new_reconciler :: unit reconciler)"
  have run: "reached [Poll demo_listing demo_records] demo_entry (fst ?run) ([] @ snd ?run)"
    by (rule reached.event [OF reached.start]) simp
  have "list_ex (is_removal_of ''button.b'') (snd ?run)"
    by code_simp
  then have removed: "RemoveEntity ''button.b'' \<in> set ([] @ snd ?run)"
    by (auto simp: list_ex_iff is_removal_of_iff)
  obtain status records rec where poll: "Poll status records \<in> set [Poll demo_listing demo_records]"
      and rec: "rec \<in> set records" "er_entity_id rec = ''button.b''"
      and gone: "gone_record (ce_unique_id demo_entry) status rec"
    using runs_remove_only_gone_commands [OF run removed] by auto
  from poll have "status = demo_listing" and "records = demo_records" by simp_all
  with rec gone show ?thesis by (auto simp: demo_records_def demo_entry_def)
qed

text \<open>
  C14: In every run the identity alarm says exactly whether the last poll reported an identity other
  than the one the entry adopted; no other event touches it.
\<close>

theorem identity_alarm_tracks_last_poll:
  assumes "reached evs entry r effs"
  shows "rc_identity_mismatch r \<longleftrightarrow>
    (case last_poll evs of None \<Rightarrow> False | Some status \<Rightarrow> foreign_status entry status)"
  using assms
proof (induction rule: reached.induct)
  case (start entry)
  show ?case by (simp add: new_reconciler_def)
next
  case (event evs entry r effs ev r' out)
  show ?case
  proof (cases "\<exists>status records. ev = Poll status records")
    case True
    then obtain status records where ev: "ev = Poll status records" by blast
    with event.hyps(2) have "r' = fst (async_reconcile entry records status r)" by simp
    then show ?thesis by (simp add: ev reconcile_mismatch)
  next
    case False
    then have same: "rc_identity_mismatch (fst (rc_step ev entry r)) = rc_identity_mismatch r"
        and poll: "last_poll (ev # evs) = last_poll evs"
      using step_keeps_mismatch [of ev entry r evs] by blast+
    show ?thesis
      unfolding poll using event.IH same by (simp add: event.hyps(2))
  qed
next
  case (changed evs entry r effs entry')
  have "foreign_status entry' = foreign_status entry"
    by (rule foreign_status_unique_id) (rule changed.hyps)
  with changed.IH show ?case by (simp cong: option.case_cong)
qed

theorem identity_alarm_tracks_last_poll_witness:
  "rc_identity_mismatch (fst (rc_step (Poll (demo_listing\<lparr>bs_bridge_id := ''other''\<rparr>) []) demo_entry
     (new_reconciler :: unit reconciler)))"
proof -
  let ?ev = "Poll (demo_listing\<lparr>bs_bridge_id := ''other''\<rparr>) []"
  let ?run = "rc_step ?ev demo_entry (new_reconciler :: unit reconciler)"
  have "reached [?ev] demo_entry (fst ?run) ([] @ snd ?run)"
    by (rule reached.event [OF reached.start]) simp
  from identity_alarm_tracks_last_poll [OF this] show ?thesis
    by (simp add: foreign_status_def demo_entry_def)
qed

text \<open>
  C15: A status of another bridge, or of one in the middle of a restore, changes nothing: no effect
  is emitted, no reservation or known target is touched, and nothing counts as listed or visible.
\<close>

theorem untrusted_status_is_inert:
  assumes "foreign_status entry status \<or> bs_restore_incomplete status"
  shows "case async_reconcile entry records status r of (r', effs) \<Rightarrow>
    effs = [] \<and> r' = r\<lparr>rc_identity_mismatch := foreign_status entry status\<rparr> \<and>
    async_listed_commands (Some status) r' = None \<and> fst (async_visible_commands now (Some status) r') = {}"
  using assms async_reconcile_untrusted [of entry status records r]
  by (auto simp: trusted_def async_listed_commands_def async_visible_commands_def)

theorem untrusted_status_is_inert_witness:
  "snd (async_reconcile demo_entry demo_records (demo_listing\<lparr>bs_restore_incomplete := True\<rparr>)
     (new_reconciler :: unit reconciler)) = []"
  using untrusted_status_is_inert [where entry = demo_entry and records = demo_records
      and status = "demo_listing\<lparr>bs_restore_incomplete := True\<rparr>" and r = "new_reconciler :: unit reconciler" and now = 0]
  by (auto split: prod.splits)

text \<open>
  What the platforms show of a trusted status is every listed command except those a live
  reservation holds by name; so nothing unlisted is ever shown, and once sixty seconds have
  passed since it was made a reservation hides nothing.
\<close>

theorem visible_commands_spec:
  "fst (async_visible_commands now (Some status) r) =
     (case async_listed_commands (Some status) r of
        None \<Rightarrow> {}
      | Some ids \<Rightarrow> {k \<in> ids. \<exists>c. c \<in> set (bs_commands status) \<and> ci_command_id c = k \<and> \<not> held now r (ci_name c)}) \<and>
   \<not> held (made + RESERVATION_SECONDS) (async_reserve made nm r) nm"
proof
  show "fst (async_visible_commands now (Some status) r) =
     (case async_listed_commands (Some status) r of
        None \<Rightarrow> {}
      | Some ids \<Rightarrow> {k \<in> ids. \<exists>c. c \<in> set (bs_commands status) \<and> ci_command_id c = k \<and> \<not> held now r (ci_name c)})"
    by (auto simp: async_visible_commands_def async_listed_commands_def visible_from_spec image_iff) metis
  show "\<not> held (made + RESERVATION_SECONDS) (async_reserve made nm r) nm"
    by (simp add: held_def async_reserve_def update_conv')
qed

text \<open>
  C16: A reservation does not outlive the first trusted poll that lists the reserved name: the
  reconcile of that poll spends it, so the command is shown from then on, however long the
  reservation had still to run and whether or not its target has been recorded.
\<close>

theorem reservation_spent_by_first_listing:
  assumes "trusted entry status" and "c \<in> set (bs_commands status)"
  shows "ci_command_id c \<in> fst (async_visible_commands now (Some status)
    (fst (async_reconcile entry records status (async_reserve made (ci_name c) r))))"
proof -
  let ?r = "fst (async_reconcile entry records status (async_reserve made (ci_name c) r))"
  have "map_of (rc_reserved ?r) (ci_name c) = None"
    using assms by (auto simp: async_reconcile_trusted Let_def map_of_fold_delete)
  then have "\<not> held now ?r (ci_name c)" by (simp add: held_def)
  moreover have "\<not> rc_identity_mismatch ?r"
    using assms(1) by (simp add: reconcile_mismatch trusted_def)
  ultimately show ?thesis
    using assms by (auto simp: async_visible_commands_def visible_from_spec trusted_def)
qed

theorem reservation_spent_by_first_listing_witness:
  "4 \<in> fst (async_visible_commands 1 (Some demo_listing)
     (fst (async_reconcile demo_entry [] demo_listing (async_reserve 0 ''fan_on'' (new_reconciler :: unit reconciler)))))"
proof -
  have "trusted demo_entry demo_listing"
    by (simp add: trusted_def foreign_status_def demo_entry_def demo_listing_def)
  then show ?thesis
    using reservation_spent_by_first_listing [of demo_entry demo_listing
        "\<lparr>ci_command_id = 4, ci_name = ''fan_on'', ci_pulses = 4\<rparr>" 1 "[]" 0 "new_reconciler :: unit reconciler"]
    by (simp add: demo_listing_def)
qed

text \<open>
  C17: The update listener does not chase its own tail: when handling an update stores new options,
  handling the update that this causes stores nothing more and only tells the platforms.
\<close>

theorem entry_update_settles:
  assumes "UpdateOptions opts \<in> set (snd (async_handle_entry_update entry status r))"
  shows "async_handle_entry_update (entry\<lparr>ce_options := opts\<rparr>) status
      (fst (async_handle_entry_update entry status r)) =
    (fst (async_handle_entry_update entry status r),
     async_notify (fst (async_handle_entry_update entry status r)))"
proof -
  have "accepts_user_removals entry r"
      and "options_pruned_to entry (async_listed_commands status r) (map_option bs_next_command_id status) = Some opts"
    using assms by (auto simp: async_handle_entry_update_def Let_def split: if_splits option.splits)
  then show ?thesis
    using pruned_options_settled
    by (simp add: async_handle_entry_update_def Let_def accepts_user_removals_def)
qed

theorem entry_update_settles_witness:
  "\<exists>opts. snd (async_handle_entry_update (demo_entry\<lparr>ce_options := opts\<rparr>) (Some demo_listing)
     (async_activate demo_entry (new_reconciler :: unit reconciler))) = []"
proof -
  let ?r = "async_activate demo_entry (new_reconciler :: unit reconciler)"
  have "list_ex is_update
      (snd (async_handle_entry_update demo_entry (Some demo_listing) ?r))"
    by code_simp
  then obtain opts where out: "UpdateOptions opts \<in> set (snd (async_handle_entry_update demo_entry (Some demo_listing) ?r))"
    by (auto simp: list_ex_iff is_update_iff)
  have "fst (async_handle_entry_update demo_entry (Some demo_listing) ?r) = ?r"
    by (simp add: async_handle_entry_update_def Let_def async_activate_def async_snapshot_targets_def
        split: option.split)
  moreover have "async_notify ?r = []"
    by (simp add: async_notify_def async_activate_def async_snapshot_targets_def new_reconciler_def)
  ultimately have "snd (async_handle_entry_update (demo_entry\<lparr>ce_options := opts\<rparr>) (Some demo_listing) ?r) = []"
    using entry_update_settles [OF out] by simp
  then show ?thesis by blast
qed

text \<open>
  C18: An update handled against an old read never loses what a learn has recorded since: the
  options it stores keep the icon and the target of every command whose id that read could not
  have listed.
\<close>

theorem entry_update_keeps_new_commands:
  assumes "UpdateOptions opts \<in> set (snd (async_handle_entry_update entry (Some status) r))"
    and "bs_next_command_id status \<le> k"
  shows "cm_icon (meta_for (entry\<lparr>ce_options := opts\<rparr>) k) = cm_icon (meta_for entry k) \<and>
    assigned_target (entry\<lparr>ce_options := opts\<rparr>) k = assigned_target entry k"
proof -
  let ?ids = "async_listed_commands (Some status) r"
  have "options_pruned_to entry ?ids (Some (bs_next_command_id status)) = Some opts"
    using assms(1) by (auto simp: async_handle_entry_update_def Let_def split: if_splits option.splits)
  then have "pruned_entry entry ?ids (Some (bs_next_command_id status)) = entry\<lparr>ce_options := opts\<rparr>"
    by (simp add: pruned_entry_def)
  then show ?thesis
    using unvouched_kept [of ?ids k "Some (bs_next_command_id status)" entry] assms(2) by simp
qed

theorem entry_update_keeps_new_commands_witness:
  "\<exists>opts. options_pruned_to demo_entry (Some {}) (Some 4) = Some opts \<and>
     cm_icon (meta_for (demo_entry\<lparr>ce_options := opts\<rparr>) 4) = Some ''mdi:fan''"
proof -
  let ?status = "demo_listing\<lparr>bs_commands := [], bs_next_command_id := 4\<rparr>"
  let ?r = "async_activate demo_entry (new_reconciler :: unit reconciler)"
  have "list_ex is_update
      (snd (async_handle_entry_update demo_entry (Some ?status) ?r))"
    by code_simp
  then obtain opts where out: "UpdateOptions opts \<in> set (snd (async_handle_entry_update demo_entry (Some ?status) ?r))"
    by (auto simp: list_ex_iff is_update_iff)
  then have "options_pruned_to demo_entry (Some {}) (Some 4) = Some opts"
    by (auto simp: async_handle_entry_update_def Let_def async_listed_commands_def async_activate_def
        new_reconciler_def demo_listing_def split: if_splits option.splits)
  moreover have "cm_icon (meta_for demo_entry 4) = Some ''mdi:fan''" by code_simp
  moreover have "bs_next_command_id ?status \<le> 4" by simp
  ultimately show ?thesis
    using entry_update_keeps_new_commands [OF out, of 4] by auto
qed

end
