(* ===== verification/Transport.thy ===== *)
theory Transport
  imports Targets "HOL-Library.Word"
begin

text \<open>
  \<open>custom_components/rf_cloner/transport.py\<close>: the bridge's actions behind Home Assistant's
  ESPHome services. Home Assistant is not part of the repository: its state is a type variable
  and the three things the transport asks of it are the fields of \<open>hass_api\<close>, about which
  nothing is assumed here. An operation is an action over that state (\<open>Prelude\<close>).
\<close>

section \<open>What the transport asks of Home Assistant\<close>

record 'h hass_api =
  h_get_entry :: "'h \<Rightarrow> string \<Rightarrow> config_entry option"
  h_has_service :: "'h \<Rightarrow> string \<Rightarrow> string \<Rightarrow> bool"
  h_call :: "string \<Rightarrow> string \<Rightarrow> (string, pyval) dict \<Rightarrow> bool \<Rightarrow> ('h, exn, pyval) act"

record transport =
  tr_esphome_entry_id :: string
  tr_action_prefix :: string

section \<open>Resolving an action\<close>

definition node_name :: "('h, 'z) hass_api_scheme \<Rightarrow> transport \<Rightarrow> 'h \<Rightarrow> string option" where
  "node_name api t h =
     (case h_get_entry api h (tr_esphome_entry_id t) of
        None \<Rightarrow> None
      | Some entry \<Rightarrow>
          let nm = dict_get (ce_data entry) ESPHOME_CONF_DEVICE_NAME
          in if py_truthy nm then Some (py_str nm) else None)"

definition service_name :: "('h, 'z) hass_api_scheme \<Rightarrow> transport \<Rightarrow> string \<Rightarrow> 'h \<Rightarrow> string option" where
  "service_name api t action h =
     (case node_name api t h of
        None \<Rightarrow> None
      | Some node \<Rightarrow> Some (py_replace (CHR ''-'') (CHR ''_'') node @ ''_'' @ tr_action_prefix t @ action))"

definition supports :: "('h, 'z) hass_api_scheme \<Rightarrow> transport \<Rightarrow> string \<Rightarrow> 'h \<Rightarrow> bool" where
  "supports api t action h =
     (case service_name api t action h of
        None \<Rightarrow> False | Some service \<Rightarrow> h_has_service api h ESPHOME_DOMAIN service)"

definition available :: "('h, 'z) hass_api_scheme \<Rightarrow> transport \<Rightarrow> 'h \<Rightarrow> bool" where
  "available api t h = supports api t ''status'' h"

section \<open>One call\<close>

definition unresolved_error :: "transport \<Rightarrow> exn" where
  "unresolved_error t = BridgeUnavailable
     (''ESPHome config entry '' @ tr_esphome_entry_id t @ '' is unknown or has no device name'')"

definition unregistered_error :: "string \<Rightarrow> exn" where
  "unregistered_error service = BridgeUnavailable
     (''Action '' @ ESPHOME_DOMAIN @ ''.'' @ service @
      '' is not registered; the node is most likely disconnected'')"

definition no_mapping_error :: "string \<Rightarrow> pyval \<Rightarrow> exn" where
  "no_mapping_error service result = HomeAssistantError
     (''Action '' @ ESPHOME_DOMAIN @ ''.'' @ service @ '' returned '' @ py_type_name result @
      '', expected a mapping'')"

definition transport_call ::
  "('h, 'z) hass_api_scheme \<Rightarrow> transport \<Rightarrow> string \<Rightarrow> (string, pyval) dict \<Rightarrow> bool
     \<Rightarrow> ('h, exn, pyval option) act" where
  "transport_call api t action data response =
     bindA (readA (service_name api t action)) (\<lambda>resolved.
       case resolved of
         None \<Rightarrow> raiseA (unresolved_error t)
       | Some service \<Rightarrow>
           bindA (catchA (h_call api ESPHOME_DOMAIN service data response)
                    (\<lambda>err. case err of
                       ServiceNotFound _ \<Rightarrow> raiseA (unregistered_error service)
                     | _ \<Rightarrow> raiseA err))
             (\<lambda>result.
               if \<not> response then retA None
               else if \<not> is_dict result then raiseA (no_mapping_error service result)
               else retA (Some result)))"

section \<open>Reads\<close>

definition assert_payload :: "pyval option \<Rightarrow> exn + pyval" where
  "assert_payload r = (case r of None \<Rightarrow> Inl AssertionError | Some payload \<Rightarrow> Inr payload)"

definition async_status :: "('h, 'z) hass_api_scheme \<Rightarrow> transport \<Rightarrow> ('h, exn, bridge_status) act" where
  "async_status api t =
     bindA (transport_call api t ''status'' [] True) (\<lambda>r.
       liftE (bindE (assert_payload r) bridge_status_from_payload))"

definition async_export ::
  "('h, 'z) hass_api_scheme \<Rightarrow> transport \<Rightarrow> int \<Rightarrow> ('h, exn, exported_command option) act" where
  "async_export api t command_id =
     bindA (transport_call api t ''export'' [(''command_id'', PInt command_id)] True) (\<lambda>r.
       liftE (bindE (assert_payload r) exported_from_payload))"

section \<open>Mutations\<close>

definition command_call ::
  "('h, 'z) hass_api_scheme \<Rightarrow> transport \<Rightarrow> string \<Rightarrow> (string, pyval) dict \<Rightarrow> ('h, exn, unit) act" where
  "command_call api t action data = bindA (transport_call api t action data False) (\<lambda>_. retA ())"

definition async_learn :: "('h, 'z) hass_api_scheme \<Rightarrow> transport \<Rightarrow> string \<Rightarrow> ('h, exn, unit) act" where
  "async_learn api t nm = command_call api t ''learn'' [(''name'', PStr nm)]"

definition async_cancel :: "('h, 'z) hass_api_scheme \<Rightarrow> transport \<Rightarrow> ('h, exn, unit) act" where
  "async_cancel api t = command_call api t ''cancel'' []"

definition async_rename ::
  "('h, 'z) hass_api_scheme \<Rightarrow> transport \<Rightarrow> int \<Rightarrow> string \<Rightarrow> ('h, exn, unit) act" where
  "async_rename api t command_id nm =
     command_call api t ''rename'' [(''command_id'', PInt command_id), (''name'', PStr nm)]"

definition async_delete ::
  "('h, 'z) hass_api_scheme \<Rightarrow> transport \<Rightarrow> int \<Rightarrow> string \<Rightarrow> ('h, exn, unit) act" where
  "async_delete api t command_id nm =
     bindA (readA (supports api t ''delete_id'')) (\<lambda>by_id_supported.
       if by_id_supported then command_call api t ''delete_id'' [(''command_id'', PInt command_id)]
       else command_call api t ''delete'' [(''name'', PStr nm)])"

definition async_send :: "('h, 'z) hass_api_scheme \<Rightarrow> transport \<Rightarrow> int \<Rightarrow> ('h, exn, unit) act" where
  "async_send api t command_id = command_call api t ''send_id'' [(''command_id'', PInt command_id)]"

definition async_clear :: "('h, 'z) hass_api_scheme \<Rightarrow> transport \<Rightarrow> ('h, exn, unit) act" where
  "async_clear api t = command_call api t ''clear'' []"

section \<open>Restore\<close>

definition async_restore_begin ::
  "('h, 'z) hass_api_scheme \<Rightarrow> transport \<Rightarrow> string \<Rightarrow> int \<Rightarrow> ('h, exn, unit) act" where
  "async_restore_begin api t bridge_id next_command_id =
     command_call api t ''restore_begin''
       [(''bridge_id'', PStr bridge_id), (''next_command_id'', PInt next_command_id)]"

definition import_data :: "exported_command \<Rightarrow> (string, pyval) dict" where
  "import_data c =
     [(''command_id'', PInt (ec_command_id c)), (''name'', PStr (ec_name c)),
      (''timings'', PList (map PInt (ec_timings c))), (''gap_us'', PInt (ec_gap_us c)),
      (''repeat_times'', PInt (ec_repeat_times c)), (''frequency_hz'', PInt (ec_frequency_hz c)),
      (''modulation'', PInt (ec_modulation c))]"

definition async_import ::
  "('h, 'z) hass_api_scheme \<Rightarrow> transport \<Rightarrow> exported_command \<Rightarrow> ('h, exn, unit) act" where
  "async_import api t c = command_call api t ''import'' (import_data c)"

definition revision_domain_error :: "int \<Rightarrow> exn" where
  "revision_domain_error source_revision = HomeAssistantError
     (''source_revision '' @ py_str_int source_revision @
      '' is outside the bridge's revision domain (0 to '' @ py_str_int REVISION_MAX @ '')'')"

definition async_restore_commit ::
  "('h, 'z) hass_api_scheme \<Rightarrow> transport \<Rightarrow> int \<Rightarrow> ('h, exn, unit) act" where
  "async_restore_commit api t source_revision =
     (if \<not> (0 \<le> source_revision \<and> source_revision \<le> REVISION_MAX)
      then raiseA (revision_domain_error source_revision)
      else command_call api t ''restore_commit'' [(''source_revision'', PInt source_revision)])"

section \<open>Lemmas: how a call ends\<close>

text \<open>A call that cannot be resolved has no effect at all.\<close>

lemma transport_call_unresolved:
  "node_name api t h = None \<Longrightarrow> transport_call api t action data response h = (Inl (unresolved_error t), h)"
  by (simp add: transport_call_def service_name_def)

lemma transport_call_returns:
  assumes "service_name api t action h = Some service"
    and "h_call api ESPHOME_DOMAIN service data response h = (Inr v, h')"
  shows "transport_call api t action data response h =
    (if \<not> response then Inr None else if is_dict v then Inr (Some v)
     else Inl (no_mapping_error service v), h')"
  using assms by (simp add: transport_call_def bindA_def catchA_def)

lemma transport_call_raises:
  assumes "service_name api t action h = Some service"
    and "h_call api ESPHOME_DOMAIN service data response h = (Inl err, h')"
  shows "transport_call api t action data response h =
    (Inl (case err of ServiceNotFound _ \<Rightarrow> unregistered_error service | _ \<Rightarrow> err), h')"
  using assms by (simp add: transport_call_def bindA_def catchA_def split: exn.splits)

text \<open>The three ways a call fails: unresolved, not registered, or as the service itself failed.\<close>

lemma transport_call_Inl:
  assumes "transport_call api t action data response h = (Inl err, h')"
  shows "(\<exists>m. err = BridgeUnavailable m) \<or> (\<exists>m. response \<and> err = HomeAssistantError m) \<or>
    ((\<forall>m. err \<noteq> ServiceNotFound m) \<and>
     (\<exists>service. h_call api ESPHOME_DOMAIN service data response h = (Inl err, h')))"
proof (cases "service_name api t action h")
  case None
  with assms show ?thesis by (auto simp: transport_call_def unresolved_error_def)
next
  case (Some service)
  obtain r h2 where call: "h_call api ESPHOME_DOMAIN service data response h = (r, h2)"
    by (cases "h_call api ESPHOME_DOMAIN service data response h")
  show ?thesis
  proof (cases r)
    case (Inl e)
    with assms call transport_call_raises [OF Some, of data response e h2] show ?thesis
      by (auto simp: unregistered_error_def split: exn.splits)
  next
    case (Inr v)
    with assms call transport_call_returns [OF Some, of data response v h2] show ?thesis
      by (auto simp: no_mapping_error_def split: if_splits)
  qed
qed

lemma transport_call_response:
  "transport_call api t action data response h = (Inr r, h') \<Longrightarrow> response \<longleftrightarrow> (\<exists>v. r = Some v \<and> is_dict v)"
  by (auto simp: transport_call_def bindA_def split: option.splits prod.splits sum.splits if_splits)

lemma command_call_unresolved:
  "node_name api t h = None \<Longrightarrow> command_call api t action data h = (Inl (unresolved_error t), h)"
  by (simp add: command_call_def bindA_def transport_call_unresolved)

lemma command_call_returns:
  assumes "service_name api t action h = Some service"
    and "h_call api ESPHOME_DOMAIN service data False h = (Inr v, h')"
  shows "command_call api t action data h = (Inr (), h')"
  by (simp add: command_call_def bindA_def transport_call_returns [OF assms])

lemma command_call_raises:
  assumes "service_name api t action h = Some service"
    and "h_call api ESPHOME_DOMAIN service data False h = (Inl err, h')"
  shows "command_call api t action data h =
    (Inl (case err of ServiceNotFound _ \<Rightarrow> unregistered_error service | _ \<Rightarrow> err), h')"
  by (simp add: command_call_def bindA_def transport_call_raises [OF assms])

lemma command_call_Inl:
  "command_call api t action data h = (Inl err, h') \<Longrightarrow>
     transport_call api t action data False h = (Inl err, h')"
  by (auto simp: command_call_def bindA_def split: prod.splits sum.splits)

lemma async_status_returns:
  assumes "service_name api t ''status'' h = Some service"
    and "h_call api ESPHOME_DOMAIN service [] True h = (Inr v, h')" and "is_dict v"
  shows "async_status api t h = (bridge_status_from_payload v, h')"
  using transport_call_returns [OF assms(1,2)] assms(3)
  by (simp add: async_status_def bindA_def assert_payload_def)

lemma async_export_returns:
  assumes "service_name api t ''export'' h = Some service"
    and "h_call api ESPHOME_DOMAIN service [(''command_id'', PInt command_id)] True h = (Inr v, h')"
    and "is_dict v"
  shows "async_export api t command_id h = (exported_from_payload v, h')"
  using transport_call_returns [OF assms(1,2)] assms(3)
  by (simp add: async_export_def bindA_def assert_payload_def)

text \<open>Parsers raise only the exceptions of a malformed payload.\<close>

definition payload_error :: "exn \<Rightarrow> bool" where
  "payload_error err \<longleftrightarrow> err \<in> {KeyError, TypeError, ValueError, AttributeError}"

lemma payload_error_getitem: "py_getitem v k = Inl err \<Longrightarrow> payload_error err"
  by (auto simp: py_getitem_def payload_error_def split: pyval.splits option.splits)

lemma payload_error_get: "py_get v k d = Inl err \<Longrightarrow> payload_error err"
  by (auto simp: py_get_def payload_error_def split: pyval.splits)

lemma payload_error_int: "py_int v = Inl err \<Longrightarrow> payload_error err"
  by (cases v) (auto simp: payload_error_def split: option.splits)

lemma payload_error_iter: "py_iter v = Inl err \<Longrightarrow> payload_error err"
  by (cases v) (auto simp: payload_error_def)

lemma payload_error_mapE:
  assumes "\<And>x err. f x = Inl err \<Longrightarrow> payload_error err"
  shows "mapE f xs = Inl err \<Longrightarrow> payload_error err"
  by (induction xs) (auto simp: bindE_eq_Inl dest: assms)

lemmas payload_errors =
  payload_error_getitem payload_error_get payload_error_int payload_error_iter

lemma payload_error_row: "command_info_from_payload v = Inl err \<Longrightarrow> payload_error err"
  by (auto simp: command_info_from_payload_def bindE_eq_Inl dest: payload_errors)

lemma payload_error_rows: "mapE command_info_from_payload vs = Inl err \<Longrightarrow> payload_error err"
  by (rule payload_error_mapE) (erule payload_error_row)

lemma payload_error_ints: "mapE py_int vs = Inl err \<Longrightarrow> payload_error err"
  by (rule payload_error_mapE) (erule payload_error_int)

lemma payload_error_status: "bridge_status_from_payload v = Inl err \<Longrightarrow> payload_error err"
  by (auto simp: bridge_status_from_payload_def get_int_def bindE_eq_Inl
      dest: payload_errors payload_error_rows)

lemma payload_error_export: "exported_from_payload v = Inl err \<Longrightarrow> payload_error err"
  by (auto simp: exported_from_payload_def bindE_eq_Inl split: if_splits
      dest: payload_errors payload_error_ints)

lemma async_status_Inl:
  assumes "async_status api t h = (Inl err, h')"
  shows "payload_error err \<or> transport_call api t ''status'' [] True h = (Inl err, h')"
  using assms transport_call_response [of api t "''status''" "[]" True h]
  by (auto simp: async_status_def bindA_def assert_payload_def dest: payload_error_status
      split: prod.splits sum.splits)

lemma async_export_Inl:
  assumes "async_export api t command_id h = (Inl err, h')"
  shows "payload_error err \<or>
    transport_call api t ''export'' [(''command_id'', PInt command_id)] True h = (Inl err, h')"
  using assms transport_call_response [of api t "''export''" "[(''command_id'', PInt command_id)]" True h]
  by (auto simp: async_export_def bindA_def assert_payload_def dest: payload_error_export
      split: prod.splits sum.splits)

lemma transport_call_translated: "transport_call api t action data response h \<noteq> (Inl (ServiceNotFound m), h')"
  by (rule notI) (drule transport_call_Inl, auto)

lemma command_call_translated: "command_call api t action data h \<noteq> (Inl (ServiceNotFound m), h')"
  by (rule notI) (drule command_call_Inl, simp add: transport_call_translated)

section \<open>Properties\<close>

text \<open>
  An action the node does not offer never surfaces as Home Assistant's own error: no operation
  of the transport raises \<open>ServiceNotFound\<close>, whatever the service call underneath does.
\<close>

theorem service_not_found_never_escapes:
  "async_status api t h \<noteq> (Inl (ServiceNotFound m), h') \<and>
   async_export api t command_id h \<noteq> (Inl (ServiceNotFound m), h') \<and>
   async_learn api t nm h \<noteq> (Inl (ServiceNotFound m), h') \<and>
   async_cancel api t h \<noteq> (Inl (ServiceNotFound m), h') \<and>
   async_rename api t command_id nm h \<noteq> (Inl (ServiceNotFound m), h') \<and>
   async_delete api t command_id nm h \<noteq> (Inl (ServiceNotFound m), h') \<and>
   async_send api t command_id h \<noteq> (Inl (ServiceNotFound m), h') \<and>
   async_clear api t h \<noteq> (Inl (ServiceNotFound m), h') \<and>
   async_restore_begin api t bridge_id n h \<noteq> (Inl (ServiceNotFound m), h') \<and>
   async_import api t c h \<noteq> (Inl (ServiceNotFound m), h') \<and>
   async_restore_commit api t srev h \<noteq> (Inl (ServiceNotFound m), h')"
proof -
  have "\<not> payload_error (ServiceNotFound m)" by (simp add: payload_error_def)
  then have "async_status api t h \<noteq> (Inl (ServiceNotFound m), h')"
    and "async_export api t command_id h \<noteq> (Inl (ServiceNotFound m), h')"
    by (auto dest!: async_status_Inl async_export_Inl simp: transport_call_translated)
  then show ?thesis
    by (simp add: async_learn_def async_cancel_def async_rename_def async_delete_def async_send_def
        async_clear_def async_restore_begin_def async_import_def async_restore_commit_def
        revision_domain_error_def command_call_translated)
qed

text \<open>
  The commit either refuses a source revision and leaves the node alone, or the revision it
  sends passes the action boundary, a signed 32-bit integer, unchanged and is not the reserved
  terminal value.
\<close>

theorem restore_commit_in_domain:
  "async_restore_commit api t srev h = (Inl (revision_domain_error srev), h) \<or>
   (async_restore_commit api t srev h =
      command_call api t ''restore_commit'' [(''source_revision'', PInt srev)] h \<and>
    sint (word_of_int srev :: 32 word) = srev \<and> srev \<noteq> REVISION_TERMINAL)"
proof (cases "0 \<le> srev \<and> srev \<le> REVISION_MAX")
  case True
  then have "sint (word_of_int srev :: 32 word) = srev"
    by (simp add: const_eqs sint_uint uint_word_of_int signed_take_bit_int_eq_self take_bit_int_eq_self)
  with True show ?thesis by (simp add: async_restore_commit_def const_eqs)
next
  case False
  then show ?thesis by (auto simp: async_restore_commit_def)
qed

text \<open>
  The data an import sends carries everything of the command but the identity the restored
  registry adopts as a whole: with that identity put back, the payload parses to the command.
\<close>

theorem import_data_complete:
  "exported_from_payload (PDict
     ((''found'', PBool True) # (''schema'', PInt (ec_schema c)) #
      (''bridge_id'', PStr (ec_bridge_id c)) # import_data c)) = Inr (Some c)"
  by (simp add: exported_from_payload_def import_data_def)

end
