(* ===== verification/Snapshot.thy ===== *)
theory Snapshot
  imports Transport
begin

text \<open>
  \<open>custom_components/rf_cloner/snapshot.py\<close>: Home Assistant's restorable replica of a bridge's
  registry. The clock, the text form of a date and the storage helper belong to Home Assistant:
  they extend the interface of the transport, over an arbitrary type \<open>'t\<close> of dates.
\<close>

record ('h, 't) snapshot_api = "'h hass_api" +
  sa_load :: "string \<Rightarrow> ('h, exn, pyval option) act"
  sa_save :: "string \<Rightarrow> pyval \<Rightarrow> ('h, exn, unit) act"
  sa_utcnow :: "'h \<Rightarrow> 't"
  sa_parse_datetime :: "pyval \<Rightarrow> exn + 't option"
  sa_isoformat :: "'t \<Rightarrow> string"

record 't snapshot =
  sn_bridge_id :: string
  sn_revision :: int
  sn_next_command_id :: int
  sn_captured_at :: 't
  sn_commands :: "exported_command list"

section \<open>Storage form\<close>

fun stored_commands :: "pyval list \<Rightarrow> exn + exported_command list option" where
  "stored_commands [] = Inr (Some [])"
| "stored_commands (item # items) =
     bindE (exported_from_payload item) (\<lambda>command.
       case command of
         None \<Rightarrow> Inr None
       | Some c \<Rightarrow> bindE (stored_commands items) (\<lambda>rest. Inr (map_option ((#) c) rest)))"

definition from_stored ::
  "(pyval \<Rightarrow> exn + 't option) \<Rightarrow> pyval \<Rightarrow> exn + 't snapshot option" where
  "from_stored parse payload =
     catchE
       (bindE (bindE (py_getitem payload ''captured_at'') parse) (\<lambda>captured_at.
        case captured_at of
          None \<Rightarrow> Inr None
        | Some at \<Rightarrow>
            bindE (bindE (py_getitem payload ''commands'') py_iter) (\<lambda>items.
            bindE (stored_commands items) (\<lambda>commands.
            case commands of
              None \<Rightarrow> Inr None
            | Some cs \<Rightarrow>
                bindE (py_getitem payload ''bridge_id'') (\<lambda>bridge_id.
                bindE (bindE (py_getitem payload ''revision'') py_int) (\<lambda>revision.
                bindE (bindE (py_getitem payload ''next_command_id'') py_int) (\<lambda>next_command_id.
                Inr (Some \<lparr>sn_bridge_id = py_str bridge_id, sn_revision = revision,
                  sn_next_command_id = next_command_id, sn_captured_at = at,
                  sn_commands = cs\<rparr>))))))))
       (\<lambda>err. if err \<in> {KeyError, TypeError, ValueError} then Inr None else Inl err)"

definition as_stored :: "('t \<Rightarrow> string) \<Rightarrow> 't snapshot \<Rightarrow> pyval" where
  "as_stored isoformat s = PDict
     [(''bridge_id'', PStr (sn_bridge_id s)), (''revision'', PInt (sn_revision s)),
      (''next_command_id'', PInt (sn_next_command_id s)),
      (''captured_at'', PStr (isoformat (sn_captured_at s))),
      (''commands'', PList (map exported_as_dict (sn_commands s)))]"

section \<open>The manager\<close>

record 't snapshot_manager =
  sm_bridge_id :: string
  sm_snapshot :: "'t snapshot option"

definition store_key :: "string \<Rightarrow> string" where
  "store_key bridge_id = DOMAIN @ ''.'' @ bridge_id @ ''.snapshot''"

definition async_load ::
  "('h, 't, 'z) snapshot_api_scheme \<Rightarrow> ('t snapshot_manager \<times> 'h, exn, unit) act" where
  "async_load api =
     bindA (own sm_bridge_id) (\<lambda>bridge_id.
     bindA (on_world (sa_load api (store_key bridge_id))) (\<lambda>stored.
       case stored of
         None \<Rightarrow> retA ()
       | Some v \<Rightarrow>
           bindA (liftE (from_stored (sa_parse_datetime api) v)) (\<lambda>s.
             set_own (\<lambda>m. m\<lparr>sm_snapshot := s\<rparr>))))"

fun async_export_all ::
  "('h, 'z) hass_api_scheme \<Rightarrow> transport \<Rightarrow> command_info list
     \<Rightarrow> ('h, exn, exported_command list option) act" where
  "async_export_all api t [] = retA (Some [])"
| "async_export_all api t (c # cs) =
     bindA (async_export api t (ci_command_id c)) (\<lambda>result.
       case result of
         None \<Rightarrow> retA None
       | Some e \<Rightarrow> bindA (async_export_all api t cs) (\<lambda>rest. retA (map_option ((#) e) rest)))"

definition snapshot_current :: "'t snapshot_manager \<Rightarrow> bridge_status \<Rightarrow> bool" where
  "snapshot_current m status \<longleftrightarrow>
     (case sm_snapshot m of
        None \<Rightarrow> False
      | Some s \<Rightarrow> sn_bridge_id s = bs_bridge_id status \<and> sn_revision s = bs_revision status)"

definition async_refresh ::
  "('h, 't, 'z) snapshot_api_scheme \<Rightarrow> transport \<Rightarrow> bridge_status
     \<Rightarrow> ('t snapshot_manager \<times> 'h, exn, unit) act" where
  "async_refresh api t status =
     bindA (own id) (\<lambda>m.
     if bs_bridge_id status \<noteq> sm_bridge_id m then retA ()
     else if bs_restore_incomplete status then retA ()
     else if snapshot_current m status then retA ()
     else
       bindA (catchA (on_world (async_export_all api t (bs_commands status)))
                (\<lambda>err. if is_ha_error err then retA None else raiseA err)) (\<lambda>commands.
       case commands of
         None \<Rightarrow> retA ()
       | Some cs \<Rightarrow>
           bindA (on_world (readA (sa_utcnow api))) (\<lambda>now.
           let s = \<lparr>sn_bridge_id = bs_bridge_id status, sn_revision = bs_revision status,
             sn_next_command_id = bs_next_command_id status, sn_captured_at = now,
             sn_commands = cs\<rparr>
           in bindA (set_own (\<lambda>m. m\<lparr>sm_snapshot := Some s\<rparr>)) (\<lambda>_.
              on_world (sa_save api (store_key (sm_bridge_id m)) (as_stored (sa_isoformat api) s))))))"

definition async_remove_snapshot ::
  "(string \<Rightarrow> ('h, exn, unit) act) \<Rightarrow> string \<Rightarrow> ('h, exn, unit) act" where
  "async_remove_snapshot remove bridge_id = remove (store_key bridge_id)"

section \<open>Lemmas: the storage form\<close>

lemma stored_commands_roundtrip [simp]: "stored_commands (map exported_as_dict cs) = Inr (Some cs)"
  by (induction cs) simp_all

lemma from_stored_roundtrip:
  assumes "\<And>at. parse (PStr (isoformat at)) = Inr (Some at)"
  shows "from_stored parse (as_stored isoformat s) = Inr (Some s)"
  by (simp add: from_stored_def as_stored_def assms)

lemma stored_commands_Inl:
  "stored_commands items = Inl err \<Longrightarrow> \<exists>item \<in> set items. exported_from_payload item = Inl err"
  by (induction items) (auto simp: bindE_eq_Inl split: option.splits)

text \<open>The only exception of the parser of one command that the storage reader lets through.\<close>

lemma exported_AttributeError:
  assumes "exported_from_payload v = Inl AttributeError"
  shows "\<not> is_dict v"
proof
  assume "is_dict v"
  then obtain d where v: "v = PDict d" by (auto simp: is_dict_iff)
  have int: "py_int w \<noteq> Inl AttributeError" for w by (cases w) (auto split: option.splits)
  have ints: "mapE py_int ws \<noteq> Inl AttributeError" for ws
    by (induction ws) (auto simp: bindE_eq_Inl int)
  have iter: "py_iter w \<noteq> Inl AttributeError" for w by (cases w) auto
  show False
    using assms unfolding v
    by (auto simp: exported_from_payload_def bindE_eq_Inl int ints iter
        split: if_splits option.splits)
qed

section \<open>Lemmas: exporting everything\<close>

lemma async_export_all_complete:
  "async_export_all api t cs h = (Inr (Some es), h') \<Longrightarrow>
     list_all2 (\<lambda>c e. \<exists>h1 h2. async_export api t (ci_command_id c) h1 = (Inr (Some e), h2)) cs es"
proof (induction cs arbitrary: h es)
  case Nil
  then show ?case by simp
next
  case (Cons c cs)
  then obtain r h1 where one: "async_export api t (ci_command_id c) h = (Inr r, h1)"
    by (auto simp: bindA_eq_Inr)
  with Cons.prems obtain e where r: "r = Some e"
    by (cases r) (simp_all add: bindA_def)
  with one Cons.prems obtain rest where "async_export_all api t cs h1 = (Inr rest, h')"
      and "map_option ((#) e) rest = Some es"
    by (auto simp: bindA_eq_Inr)
  then obtain es' where "async_export_all api t cs h1 = (Inr (Some es'), h')" and "es = e # es'"
    by (cases rest) simp_all
  with Cons.IH one r show ?case by auto
qed

text \<open>The manager after a refresh: unchanged, or holding a replica of exactly this status.\<close>

definition replica_of ::
  "('h, 'z) hass_api_scheme \<Rightarrow> transport \<Rightarrow> bridge_status \<Rightarrow> 't snapshot \<Rightarrow> bool" where
  "replica_of api t status s \<longleftrightarrow>
     sn_bridge_id s = bs_bridge_id status \<and> sn_revision s = bs_revision status \<and>
     sn_next_command_id s = bs_next_command_id status \<and>
     list_all2 (\<lambda>c e. \<exists>h1 h2. async_export api t (ci_command_id c) h1 = (Inr (Some e), h2))
       (bs_commands status) (sn_commands s)"

text \<open>When a refresh has work to do.\<close>

definition refresh_due :: "'t snapshot_manager \<Rightarrow> bridge_status \<Rightarrow> bool" where
  "refresh_due m status \<longleftrightarrow>
     bs_bridge_id status = sm_bridge_id m \<and> \<not> bs_restore_incomplete status \<and> \<not> snapshot_current m status"

lemma async_refresh_not_due: "\<not> refresh_due m status \<Longrightarrow> async_refresh api t status (m, h) = (Inr (), (m, h))"
  by (auto simp: async_refresh_def refresh_due_def bindA_def)

definition taken_snapshot :: "('h, 't, 'z) snapshot_api_scheme \<Rightarrow> bridge_status \<Rightarrow> exported_command list \<Rightarrow> 'h \<Rightarrow> 't snapshot" where
  "taken_snapshot api status cs h =
     \<lparr>sn_bridge_id = bs_bridge_id status, sn_revision = bs_revision status,
      sn_next_command_id = bs_next_command_id status, sn_captured_at = sa_utcnow api h,
      sn_commands = cs\<rparr>"

lemma async_refresh_due:
  assumes "refresh_due m status"
    and "async_export_all api t (bs_commands status) h = (r, h1)"
  shows "async_refresh api t status (m, h) =
    (case r of
       Inl err \<Rightarrow> ((if is_ha_error err then Inr () else Inl err), (m, h1))
     | Inr None \<Rightarrow> (Inr (), (m, h1))
     | Inr (Some cs) \<Rightarrow>
         (case sa_save api (store_key (sm_bridge_id m))
                 (as_stored (sa_isoformat api) (taken_snapshot api status cs h1)) h1 of
            (r', h2) \<Rightarrow> (r', (m\<lparr>sm_snapshot := Some (taken_snapshot api status cs h1)\<rparr>, h2))))"
  using assms
  by (auto simp: async_refresh_def refresh_due_def bindA_def catchA_def taken_snapshot_def Let_def
      case_prod_beta split: sum.split option.split)

lemma async_refresh_cases:
  assumes "async_refresh api t status (m, h) = (r, (m', h'))"
  shows "m' = m \<or> (refresh_due m status \<and> (\<exists>s. m' = m\<lparr>sm_snapshot := Some s\<rparr> \<and> replica_of api t status s))"
proof (cases "refresh_due m status")
  case False
  with async_refresh_not_due [OF False, of api t h] assms show ?thesis by simp
next
  case True
  obtain x h1 where all: "async_export_all api t (bs_commands status) h = (x, h1)"
    by (cases "async_export_all api t (bs_commands status) h")
  have "replica_of api t status (taken_snapshot api status cs h1)" if "x = Inr (Some cs)" for cs
    using async_export_all_complete [of api t "bs_commands status" h cs h1] all that
    by (simp add: replica_of_def taken_snapshot_def)
  then show ?thesis
    using True assms async_refresh_due [OF True all]
    by (auto split: sum.splits option.splits prod.splits)
qed

section \<open>A small world to evaluate in\<close>

text \<open>
  A store kept as a dict, dates that are their own text, and a node that exports one command and
  knows no other.
\<close>

definition demo_command :: exported_command where
  "demo_command = \<lparr>ec_schema = 1, ec_bridge_id = ''b1'', ec_command_id = 4, ec_name = ''fan_on'',
     ec_gap_us = 5000, ec_repeat_times = 8, ec_frequency_hz = 433920000, ec_modulation = 0,
     ec_timings = [350, -1050, 1050, -350]\<rparr>"

definition demo_node_entry :: config_entry where
  "demo_node_entry = \<lparr>ce_entry_id = ''n1'', ce_domain = ''esphome'', ce_title = ''node'',
     ce_unique_id = None, ce_data = [(''device_name'', PStr ''rf-node'')], ce_options = [],
     ce_subentries = [], ce_version = 1, ce_minor_version = 1, ce_state = LOADED\<rparr>"

definition demo_api :: "((string, pyval) dict, string) snapshot_api" where
  "demo_api = \<lparr>
     h_get_entry = (\<lambda>h i. if i = ''n1'' then Some demo_node_entry else None),
     h_has_service = (\<lambda>h domain service. True),
     h_call = (\<lambda>domain service data response h.
       if map_of data ''command_id'' = Some (PInt 4) then (Inr (exported_as_dict demo_command), h)
       else (Inr (PDict [(''found'', PBool False)]), h)),
     sa_load = (\<lambda>k h. (Inr (map_of h k), h)),
     sa_save = (\<lambda>k v h. (Inr (), AList.update k v h)),
     sa_utcnow = (\<lambda>h. ''2026-01-01T00:00:00''),
     sa_parse_datetime = (\<lambda>v. case v of PStr s \<Rightarrow> Inr (Some s) | _ \<Rightarrow> Inl TypeError),
     sa_isoformat = id\<rparr>"

definition demo_transport :: transport where
  "demo_transport = \<lparr>tr_esphome_entry_id = ''n1'', tr_action_prefix = ''rf_''\<rparr>"

definition demo_status :: bridge_status where
  "demo_status = \<lparr>bs_bridge_id = ''b1'', bs_revision = 7, bs_next_command_id = 5,
     bs_restore_incomplete = False, bs_read_only = False, bs_fault = ''none'', bs_state = ''idle'',
     bs_last_result = '''', bs_count = 1, bs_max_commands = 32, bs_max_pulses = 256,
     bs_used_bytes = 0, bs_capacity_bytes = 0,
     bs_commands = [\<lparr>ci_command_id = 4, ci_name = ''fan_on'', ci_pulses = 4\<rparr>]\<rparr>"

definition demo_manager :: "string snapshot_manager" where
  "demo_manager = \<lparr>sm_bridge_id = ''b1'', sm_snapshot = None\<rparr>"

section \<open>Properties\<close>

text \<open>
  A stored snapshot reads back as the snapshot it was, every command's waveform included,
  provided dates survive their text form.
\<close>

theorem snapshot_roundtrip:
  assumes "\<And>at. sa_parse_datetime api (PStr (sa_isoformat api at)) = Inr (Some at)"
  shows "from_stored (sa_parse_datetime api) (as_stored (sa_isoformat api) s) = Inr (Some s)"
  by (rule from_stored_roundtrip) (rule assms)

theorem snapshot_roundtrip_witness:
  "from_stored (sa_parse_datetime demo_api) (as_stored (sa_isoformat demo_api)
      \<lparr>sn_bridge_id = ''b1'', sn_revision = 7, sn_next_command_id = 5, sn_captured_at = ''now'',
       sn_commands = [demo_command]\<rparr>) =
   Inr (Some \<lparr>sn_bridge_id = ''b1'', sn_revision = 7, sn_next_command_id = 5,
     sn_captured_at = ''now'', sn_commands = [demo_command]\<rparr>)"
  by (rule snapshot_roundtrip) (simp add: demo_api_def)

text \<open>
  C20: A refresh, however it ends, leaves the replica exactly as it was or replaces it by a
  complete one: taken from a bridge of the manager's own identity, outside a restore, at a
  revision the old replica did not have, with one successful export for every listed command,
  in the order of the listing. A replica just taken is current: the same status is not due again.
\<close>

theorem refresh_all_or_nothing:
  "case async_refresh api t status (m, h) of (r, (m', h')) \<Rightarrow>
     m' = m \<or>
     (bs_bridge_id status = sm_bridge_id m \<and> \<not> bs_restore_incomplete status \<and>
      \<not> snapshot_current m status \<and> snapshot_current m' status \<and>
      (\<exists>s. m' = m\<lparr>sm_snapshot := Some s\<rparr> \<and> replica_of api t status s))"
proof (cases "async_refresh api t status (m, h)")
  case (fields r m' h')
  then show ?thesis
    using async_refresh_cases [OF fields]
    by (auto simp: refresh_due_def snapshot_current_def replica_of_def)
qed

text \<open>
  C21: What a successful refresh holds in memory survives a restart: when the store returns what
  was saved and dates survive their text form, a fresh manager of the same bridge loads exactly
  the replica the refresh took.
\<close>

theorem refreshed_replica_survives_restart:
  assumes store: "\<And>k v h1 h2. sa_save api k v h1 = (Inr (), h2) \<Longrightarrow> sa_load api k h2 = (Inr (Some v), h2)"
    and dates: "\<And>at. sa_parse_datetime api (PStr (sa_isoformat api at)) = Inr (Some at)"
    and run: "async_refresh api t status (m, h) = (Inr (), (m', h'))"
    and taken: "m' \<noteq> m"
  shows "async_load api (\<lparr>sm_bridge_id = sm_bridge_id m, sm_snapshot = None\<rparr>, h') = (Inr (), (m', h'))"
proof -
  have due: "refresh_due m status"
    using async_refresh_not_due [of m status api t h] run taken by fastforce
  obtain x h1 where all: "async_export_all api t (bs_commands status) h = (x, h1)"
    by (cases "async_export_all api t (bs_commands status) h")
  let ?s = "\<lambda>cs. taken_snapshot api status cs h1"
  obtain cs where saved: "sa_save api (store_key (sm_bridge_id m)) (as_stored (sa_isoformat api) (?s cs)) h1 = (Inr (), h')"
      and m': "m' = m\<lparr>sm_snapshot := Some (?s cs)\<rparr>"
    using run taken async_refresh_due [OF due all]
    by (auto split: sum.splits option.splits prod.splits if_splits)
  have "sa_load api (store_key (sm_bridge_id m)) h' = (Inr (Some (as_stored (sa_isoformat api) (?s cs))), h')"
    by (rule store) (rule saved)
  moreover have "from_stored (sa_parse_datetime api) (as_stored (sa_isoformat api) (?s cs)) = Inr (Some (?s cs))"
    by (rule from_stored_roundtrip) (rule dates)
  ultimately show ?thesis by (cases m) (simp add: async_load_def bindA_def m')
qed

theorem refreshed_replica_survives_restart_witness:
  "\<exists>m' h'. async_refresh demo_api demo_transport demo_status (demo_manager, []) = (Inr (), (m', h')) \<and>
     sm_snapshot m' \<noteq> None \<and>
     async_load demo_api (demo_manager, h') = (Inr (), (m', h'))"
proof -
  obtain r m' h' where run: "async_refresh demo_api demo_transport demo_status (demo_manager, []) = (r, (m', h'))"
    by (cases "async_refresh demo_api demo_transport demo_status (demo_manager, [])")
  have "fst (async_refresh demo_api demo_transport demo_status (demo_manager, [])) = Inr ()"
    by code_simp
  moreover have "\<not> Option.is_none (sm_snapshot (fst (snd
      (async_refresh demo_api demo_transport demo_status (demo_manager, [])))))"
    by code_simp
  ultimately have r: "r = Inr ()" and s: "sm_snapshot m' \<noteq> None"
    using run by (simp_all add: Option.is_none_def)
  have "async_load demo_api (\<lparr>sm_bridge_id = sm_bridge_id demo_manager, sm_snapshot = None\<rparr>, h') = (Inr (), (m', h'))"
  proof (rule refreshed_replica_survives_restart)
    show "async_refresh demo_api demo_transport demo_status (demo_manager, []) = (Inr (), (m', h'))"
      using run r by simp
    show "m' \<noteq> demo_manager" using s by (auto simp: demo_manager_def)
  qed (auto simp: demo_api_def update_conv')
  then show ?thesis using run r s by (auto simp: demo_manager_def)
qed

text \<open>
  Reading a stored snapshot raises nothing but \<open>AttributeError\<close>, and that only for a stored
  list of commands with an item that is no dict; every other unreadable snapshot reads as none.
\<close>

theorem from_stored_raises_only_attribute_error:
  assumes "\<And>v err. parse v = Inl err \<Longrightarrow> err \<in> {KeyError, TypeError, ValueError}"
    and "from_stored parse payload = Inl err"
  shows "err = AttributeError \<and>
    (\<exists>items item. bindE (py_getitem payload ''commands'') py_iter = Inr items \<and> item \<in> set items \<and> \<not> is_dict item)"
proof -
  have nothere: "err \<notin> {KeyError, TypeError, ValueError}"
    using assms(2) by (auto simp: from_stored_def catchE_def split: sum.splits if_splits)
  have iter: "py_iter w = Inl e \<Longrightarrow> e = TypeError" for w e by (cases w) auto
  have int: "py_int w = Inl e \<Longrightarrow> e \<in> {TypeError, ValueError}" for w e
    by (cases w) (auto split: option.splits)
  have get: "py_getitem v k = Inl e \<Longrightarrow> e \<in> {KeyError, TypeError}" for v k e
    by (auto simp: py_getitem_def split: pyval.splits option.splits)
  obtain items where items: "bindE (py_getitem payload ''commands'') py_iter = Inr items"
      and bad: "stored_commands items = Inl err"
    using assms(2) nothere
    by (auto simp: from_stored_def catchE_def bindE_eq_Inl bindE_eq_Inr
        split: sum.splits if_splits option.splits dest!: iter int get assms(1))
  then obtain item where item: "item \<in> set items" and raised: "exported_from_payload item = Inl err"
    using stored_commands_Inl by blast
  then have "err = AttributeError"
    using payload_error_export [OF raised] nothere by (auto simp: payload_error_def)
  then show ?thesis using items item raised exported_AttributeError by blast
qed

theorem from_stored_raises_only_attribute_error_witness:
  "\<exists>err. from_stored (sa_parse_datetime demo_api)
      (PDict [(''captured_at'', PStr ''now''), (''commands'', PList [PInt 1])]) = Inl err \<and>
    err = AttributeError"
proof -
  have "from_stored (sa_parse_datetime demo_api)
      (PDict [(''captured_at'', PStr ''now''), (''commands'', PList [PInt 1])]) = Inl AttributeError"
    by (simp add: from_stored_def demo_api_def exported_from_payload_def py_get_not_dict)
  moreover have "sa_parse_datetime demo_api v = Inl e \<Longrightarrow> e \<in> {KeyError, TypeError, ValueError}" for v e
    by (auto simp: demo_api_def split: pyval.splits)
  ultimately show ?thesis
    using from_stored_raises_only_attribute_error [of "sa_parse_datetime demo_api"
        "PDict [(''captured_at'', PStr ''now''), (''commands'', PList [PInt 1])]" AttributeError]
    by blast
qed

end
