(* ===== verification/Coordinator.thy ===== *)
theory Coordinator
  imports Transport Complex_Main
begin

text \<open>
  \<open>custom_components/rf_cloner/coordinator.py\<close>: the polled status of one bridge and the
  mutations the integration initiates. The clock, \<open>asyncio.sleep\<close> and the coordinator base
  class's \<open>async_request_refresh\<close> belong to the surroundings and extend the interface of the
  transport. Time is a rational number of seconds. The lock orders whole operations; what is
  modelled is one operation, between taking the lock and releasing it.
\<close>

record 'h coordinator_api = "'h hass_api" +
  ca_monotonic :: "'h \<Rightarrow> rat"
  ca_sleep :: "rat \<Rightarrow> ('h, exn, unit) act"
  ca_request_refresh :: "('h, exn, unit) act"

record learn_outcome =
  lo_succeeded :: bool
  lo_command_id :: "int option"
  lo_name :: string
  lo_detail :: string

definition async_update_data ::
  "('h, 'z) hass_api_scheme \<Rightarrow> transport \<Rightarrow> ('h, exn, bridge_status) act" where
  "async_update_data api t =
     catchA (async_status api t)
       (\<lambda>err. if is_ha_error err then raiseA (UpdateFailed (exn_str err)) else raiseA err)"

section \<open>Waiting for a learn to end\<close>

text \<open>
  The loop may run for ever on a clock that stands still, so it is a partial function: \<open>None\<close>
  is not returning.
\<close>

partial_function (option) await_loop ::
  "('h, 'z) coordinator_api_scheme \<Rightarrow> transport \<Rightarrow> rat \<Rightarrow> bridge_status \<Rightarrow> 'h
     \<Rightarrow> ((exn + bridge_status) \<times> 'h) option" where
  "await_loop api t deadline status h =
     (if bs_state status = ''armed'' \<and> ca_monotonic api h < deadline then
        (case ca_sleep api (of_int LEARN_POLL_INTERVAL) h of
           (Inl err, h1) \<Rightarrow> Some (Inl err, h1)
         | (Inr _, h1) \<Rightarrow>
             (case async_status api t h1 of
                (Inl err, h2) \<Rightarrow> Some (Inl err, h2)
              | (Inr next_status, h2) \<Rightarrow> await_loop api t deadline next_status h2))
      else Some (Inr status, h))"

definition learn_result :: "string \<Rightarrow> bridge_status \<Rightarrow> learn_outcome" where
  "learn_result nm status =
     (case map_of (by_name status) nm of
        Some command \<Rightarrow>
          if bs_state status = ''captured''
          then \<lparr>lo_succeeded = True, lo_command_id = Some (ci_command_id command), lo_name = nm,
            lo_detail = bs_last_result status\<rparr>
          else \<lparr>lo_succeeded = False, lo_command_id = None, lo_name = nm,
            lo_detail = (if bs_last_result status = [] then bs_state status else bs_last_result status)\<rparr>
      | None \<Rightarrow> \<lparr>lo_succeeded = False, lo_command_id = None, lo_name = nm,
          lo_detail = (if bs_last_result status = [] then bs_state status else bs_last_result status)\<rparr>)"

definition finish_learn ::
  "('h, 'z) hass_api_scheme \<Rightarrow> transport \<Rightarrow> string \<Rightarrow> bridge_status \<Rightarrow> ('h, exn, learn_outcome) act" where
  "finish_learn api t nm status =
     (if bs_state status = ''armed''
      then bindA (async_cancel api t) (\<lambda>_. retA
        \<lparr>lo_succeeded = False, lo_command_id = None, lo_name = nm, lo_detail = ''timeout''\<rparr>)
      else retA (learn_result nm status))"

definition async_await_learn ::
  "('h, 'z) coordinator_api_scheme \<Rightarrow> transport \<Rightarrow> string \<Rightarrow> 'h
     \<Rightarrow> ((exn + learn_outcome) \<times> 'h) option" where
  "async_await_learn api t nm h =
     (let deadline = ca_monotonic api h + of_int LEARN_TIMEOUT in
      case async_status api t h of
        (Inl err, h1) \<Rightarrow> Some (Inl err, h1)
      | (Inr status, h1) \<Rightarrow>
          (case await_loop api t deadline status h1 of
             None \<Rightarrow> None
           | Some (Inl err, h2) \<Rightarrow> Some (Inl err, h2)
           | Some (Inr final, h2) \<Rightarrow> Some (finish_learn api t nm final h2)))"

section \<open>Operations\<close>

definition coordinator_learn ::
  "('h, 'z) coordinator_api_scheme \<Rightarrow> transport \<Rightarrow> string \<Rightarrow> 'h
     \<Rightarrow> ((exn + learn_outcome) \<times> 'h) option" where
  "coordinator_learn api t nm h =
     (case async_learn api t nm h of
        (Inl err, h1) \<Rightarrow> Some (Inl err, h1)
      | (Inr _, h1) \<Rightarrow>
          (case async_await_learn api t nm h1 of
             None \<Rightarrow> None
           | Some (Inl err, h2) \<Rightarrow> Some (Inl err, h2)
           | Some (Inr outcome, h2) \<Rightarrow>
               Some (bindA (ca_request_refresh api) (\<lambda>_. retA outcome) h2)))"

definition coordinator_rename ::
  "('h, 'z) coordinator_api_scheme \<Rightarrow> transport \<Rightarrow> int \<Rightarrow> string \<Rightarrow> ('h, exn, unit) act" where
  "coordinator_rename api t command_id nm =
     bindA (async_rename api t command_id nm) (\<lambda>_. ca_request_refresh api)"

definition coordinator_delete ::
  "('h, 'z) coordinator_api_scheme \<Rightarrow> transport \<Rightarrow> int \<Rightarrow> string \<Rightarrow> ('h, exn, unit) act" where
  "coordinator_delete api t command_id nm =
     bindA (async_delete api t command_id nm) (\<lambda>_. ca_request_refresh api)"

definition coordinator_send ::
  "('h, 'z) coordinator_api_scheme \<Rightarrow> transport \<Rightarrow> int \<Rightarrow> ('h, exn, unit) act" where
  "coordinator_send api t command_id = async_send api t command_id"

definition coordinator_cancel ::
  "('h, 'z) coordinator_api_scheme \<Rightarrow> transport \<Rightarrow> ('h, exn, unit) act" where
  "coordinator_cancel api t = bindA (async_cancel api t) (\<lambda>_. ca_request_refresh api)"

section \<open>Lemmas: the loop ends\<close>

text \<open>
  What is asked of the clock: it does not run backwards while a service is called, and a
  completed sleep lasts at least as long as it was asked to.
\<close>

definition clock_ok :: "('h, 'z) coordinator_api_scheme \<Rightarrow> bool" where
  "clock_ok api \<longleftrightarrow>
     (\<forall>d h h'. ca_sleep api d h = (Inr (), h') \<longrightarrow> ca_monotonic api h + d \<le> ca_monotonic api h') \<and>
     (\<forall>domain service data response h r h'.
        h_call api domain service data response h = (r, h') \<longrightarrow> ca_monotonic api h \<le> ca_monotonic api h')"

lemma clock_transport_call:
  assumes "clock_ok api" and "transport_call api t action data response h = (r, h')"
  shows "ca_monotonic api h \<le> ca_monotonic api h'"
proof (cases "service_name api t action h")
  case None
  with assms(2) show ?thesis by (auto simp: transport_call_def)
next
  case (Some service)
  obtain r2 h2 where call: "h_call api ESPHOME_DOMAIN service data response h = (r2, h2)"
    by (cases "h_call api ESPHOME_DOMAIN service data response h")
  then have "ca_monotonic api h \<le> ca_monotonic api h2"
    using assms(1) by (simp add: clock_ok_def)
  moreover have "h' = h2"
    using call assms(2) transport_call_returns [OF Some] transport_call_raises [OF Some]
    by (cases r2) (auto simp: call)
  ultimately show ?thesis by simp
qed

lemma clock_status:
  assumes "clock_ok api" and "async_status api t h = (r, h')"
  shows "ca_monotonic api h \<le> ca_monotonic api h'"
proof -
  obtain r2 h2 where call: "transport_call api t ''status'' [] True h = (r2, h2)"
    by (cases "transport_call api t ''status'' [] True h")
  moreover have "h' = h2"
    using assms(2) call by (cases r2) (auto simp: async_status_def bindA_def)
  ultimately show ?thesis using clock_transport_call [OF assms(1)] by blast
qed

text \<open>The same loop with a bound on the number of rounds: \<open>None\<close> when it needs another one.\<close>

fun await_rounds ::
  "nat \<Rightarrow> ('h, 'z) coordinator_api_scheme \<Rightarrow> transport \<Rightarrow> rat \<Rightarrow> bridge_status \<Rightarrow> 'h
     \<Rightarrow> ((exn + bridge_status) \<times> 'h) option" where
  "await_rounds 0 api t deadline status h =
     (if bs_state status = ''armed'' \<and> ca_monotonic api h < deadline then None else Some (Inr status, h))"
| "await_rounds (Suc n) api t deadline status h =
     (if bs_state status = ''armed'' \<and> ca_monotonic api h < deadline then
        (case ca_sleep api (of_int LEARN_POLL_INTERVAL) h of
           (Inl err, h1) \<Rightarrow> Some (Inl err, h1)
         | (Inr _, h1) \<Rightarrow>
             (case async_status api t h1 of
                (Inl err, h2) \<Rightarrow> Some (Inl err, h2)
              | (Inr next_status, h2) \<Rightarrow> await_rounds n api t deadline next_status h2))
      else Some (Inr status, h))"

lemma await_rounds_loop:
  "await_rounds n api t deadline status h = Some r \<Longrightarrow> await_loop api t deadline status h = Some r"
proof (induction n arbitrary: status h)
  case 0
  then show ?case by (subst await_loop.simps) (auto split: if_splits)
next
  case (Suc n)
  then show ?case
    by (subst await_loop.simps) (auto split: if_splits prod.splits sum.splits)
qed

lemma await_rounds_enough:
  assumes "clock_ok api" and "deadline - ca_monotonic api h \<le> of_nat n"
  shows "await_rounds n api t deadline status h \<noteq> None"
  using assms(2)
proof (induction n arbitrary: status h)
  case 0
  then show ?case by simp
next
  case (Suc n)
  show ?case
  proof (cases "bs_state status = ''armed'' \<and> ca_monotonic api h < deadline")
    case False
    then show ?thesis by auto
  next
    case True
    obtain r1 h1 where sleep: "ca_sleep api (of_int LEARN_POLL_INTERVAL) h = (r1, h1)"
      by (cases "ca_sleep api (of_int LEARN_POLL_INTERVAL) h")
    obtain r2 h2 where status: "async_status api t h1 = (r2, h2)"
      by (cases "async_status api t h1")
    have "await_rounds n api t deadline st h2 \<noteq> None" if "r1 = Inr ()" for st
    proof (rule Suc.IH)
      have "ca_monotonic api h + 1 \<le> ca_monotonic api h1"
        using assms(1) sleep that by (fastforce simp: clock_ok_def const_eqs)
      also have "\<dots> \<le> ca_monotonic api h2" using clock_status [OF assms(1) status] .
      finally show "deadline - ca_monotonic api h2 \<le> of_nat n" using Suc.prems by simp
    qed
    with True sleep status show ?thesis by (cases r1; cases r2) auto
  qed
qed

lemma await_loop_exit:
  assumes "await_loop api t deadline status h = Some (Inr final, h')"
  shows "(bs_state final \<noteq> ''armed'' \<or> deadline \<le> ca_monotonic api h') \<and>
    ((final = status \<and> h' = h) \<or> (\<exists>h1. async_status api t h1 = (Inr final, h')))"
proof -
  have "r = (Inr final, h') \<longrightarrow>
      (bs_state final \<noteq> ''armed'' \<or> deadline \<le> ca_monotonic api h') \<and>
      ((final = status \<and> h' = h) \<or> (\<exists>h1. async_status api t h1 = (Inr final, h')))"
    if "await_loop api t deadline status h = Some r" for r
    using that
  proof (induction rule: await_loop.raw_induct [rotated, consumes 1])
    case (1 rec api t deadline status h r)
    show ?case
    proof (cases "bs_state status = ''armed'' \<and> ca_monotonic api h < deadline")
      case False
      with 1(2) show ?thesis by auto
    next
      case True
      with 1(2) show ?thesis
        by (auto split: prod.splits sum.splits dest: 1(1))
    qed
  qed
  with assms show ?thesis by blast
qed

lemma await_loop_returns:
  assumes "clock_ok api" and "deadline \<le> ca_monotonic api h + of_int LEARN_TIMEOUT"
  shows "\<exists>r. await_loop api t deadline status h = Some r \<and> await_rounds 30 api t deadline status h = Some r"
proof -
  have "await_rounds 30 api t deadline status h \<noteq> None"
    using assms by (intro await_rounds_enough) (simp_all add: const_eqs)
  then obtain r where "await_rounds 30 api t deadline status h = Some r" by auto
  then show ?thesis using await_rounds_loop [of 30 api t deadline status h r] by auto
qed

lemma async_await_learn_status:
  assumes "async_await_learn api t nm h = Some (Inr outcome, h')"
  shows "\<exists>final h1 h2. async_status api t h1 = (Inr final, h2) \<and> finish_learn api t nm final h2 = (Inr outcome, h')"
proof -
  obtain status h1 where first: "async_status api t h = (Inr status, h1)"
    using assms by (auto simp: async_await_learn_def Let_def split: prod.splits sum.splits)
  then obtain final h2 where loop: "await_loop api t (ca_monotonic api h + of_int LEARN_TIMEOUT) status h1 = Some (Inr final, h2)"
      and finish: "finish_learn api t nm final h2 = (Inr outcome, h')"
    using assms by (auto simp: async_await_learn_def Let_def split: prod.splits sum.splits option.splits)
  then show ?thesis using await_loop_exit [OF loop] first by blast
qed

section \<open>A small world to evaluate in\<close>

text \<open>
  A clock that moves only while sleeping, and a node that reports a capture in progress for the
  given number of reads and the captured command after that.
\<close>

definition demo_learn_status :: "nat \<Rightarrow> pyval" where
  "demo_learn_status k = PDict
     [(''bridge_id'', PStr ''b1''), (''revision'', PInt 2), (''next_command_id'', PInt 2),
      (''state'', PStr (if k = 0 then ''captured'' else ''armed'')),
      (''commands'', PList [PDict [(''id'', PInt 1), (''name'', PStr ''on'')]])]"

definition demo_learn_api :: "(rat \<times> nat) coordinator_api" where
  "demo_learn_api = \<lparr>
     h_get_entry = (\<lambda>h i. Some \<lparr>ce_entry_id = i, ce_domain = ''esphome'', ce_title = ''node'',
       ce_unique_id = None, ce_data = [(''device_name'', PStr ''n'')], ce_options = [],
       ce_subentries = [], ce_version = 1, ce_minor_version = 1, ce_state = LOADED\<rparr>),
     h_has_service = (\<lambda>h domain service. True),
     h_call = (\<lambda>domain service data response (now, k). (Inr (demo_learn_status k), (now, k - 1))),
     ca_monotonic = fst,
     ca_sleep = (\<lambda>d (now, k). (Inr (), (now + d, k))),
     ca_request_refresh = (\<lambda>h. (Inr (), h))\<rparr>"

lemma demo_clock_ok: "clock_ok demo_learn_api"
  by (auto simp: clock_ok_def demo_learn_api_def)

section \<open>Properties\<close>

text \<open>
  C19: Waiting for a learn always ends: on a clock that does not run backwards and with sleeps that
  last, the wait returns or raises, and the loop has gone round at most thirty times, whatever
  the bridge reports and however long its answers take.
\<close>

theorem await_learn_terminates:
  assumes "clock_ok api"
  shows "\<exists>r. async_await_learn api t nm h = Some r \<and>
    (\<forall>status h1. async_status api t h = (Inr status, h1) \<longrightarrow>
       (\<exists>loop. await_rounds 30 api t (ca_monotonic api h + of_int LEARN_TIMEOUT) status h1 = Some loop \<and>
          r = (case loop of (Inl err, h2) \<Rightarrow> (Inl err, h2) | (Inr final, h2) \<Rightarrow> finish_learn api t nm final h2)))"
proof -
  obtain r1 h1 where first: "async_status api t h = (r1, h1)" by (cases "async_status api t h")
  show ?thesis
  proof (cases r1)
    case (Inl err)
    with first show ?thesis by (simp add: async_await_learn_def)
  next
    case (Inr status)
    obtain loop where "await_loop api t (ca_monotonic api h + of_int LEARN_TIMEOUT) status h1 = Some loop"
        and rounds: "await_rounds 30 api t (ca_monotonic api h + of_int LEARN_TIMEOUT) status h1 = Some loop"
      using await_loop_returns [OF assms, of "ca_monotonic api h + of_int LEARN_TIMEOUT" h1 t status]
        clock_status [OF assms first] by auto
    with first Inr have "async_await_learn api t nm h =
        Some (case loop of (Inl err, h2) \<Rightarrow> (Inl err, h2) | (Inr final, h2) \<Rightarrow> finish_learn api t nm final h2)"
      by (cases loop) (auto simp: async_await_learn_def Let_def split: sum.split)
    moreover have "status' = status \<and> h1' = h1" if "async_status api t h = (Inr status', h1')" for status' h1'
      using that first Inr by simp
    ultimately show ?thesis using rounds by blast
  qed
qed

theorem await_learn_terminates_witness:
  "\<exists>r. async_await_learn demo_learn_api \<lparr>tr_esphome_entry_id = ''n1'', tr_action_prefix = ''rf_''\<rparr>
     ''on'' (0, 100) = Some r"
  using await_learn_terminates [OF demo_clock_ok] by blast

text \<open>How a learn's outcome relates to the last status it read.\<close>

lemma learn_outcome_facts:
  "case coordinator_learn api t nm h of
     Some (Inr outcome, h') \<Rightarrow>
       lo_name outcome = nm \<and>
       (case lo_command_id outcome of
          None \<Rightarrow> \<not> lo_succeeded outcome
        | Some i \<Rightarrow> lo_succeeded outcome \<and>
            (\<exists>status h1 h2. async_status api t h1 = (Inr status, h2) \<and> bs_state status = ''captured'' \<and>
               (\<exists>c. c \<in> set (bs_commands status) \<and> ci_name c = nm \<and> ci_command_id c = i)))
   | _ \<Rightarrow> True"
proof (cases "\<exists>outcome h'. coordinator_learn api t nm h = Some (Inr outcome, h')")
  case False
  then show ?thesis by (auto split: option.split prod.split sum.split)
next
  case True
  then obtain outcome h' where run: "coordinator_learn api t nm h = Some (Inr outcome, h')" by blast
  then obtain h1 h2 where wait: "async_await_learn api t nm h1 = Some (Inr outcome, h2)"
    by (auto simp: coordinator_learn_def bindA_eq_Inr split: prod.splits sum.splits option.splits)
  obtain final h3 h4 where status: "async_status api t h3 = (Inr final, h4)"
      and finish: "finish_learn api t nm final h4 = (Inr outcome, h2)"
    using async_await_learn_status [OF wait] by auto
  from finish have "lo_name outcome = nm \<and>
      (lo_succeeded outcome \<and> (\<exists>c. lo_command_id outcome = Some (ci_command_id c) \<and>
          map_of (by_name final) nm = Some c \<and> bs_state final = ''captured'') \<or>
       \<not> lo_succeeded outcome \<and> lo_command_id outcome = None)"
    by (auto simp: finish_learn_def learn_result_def bindA_eq_Inr split: if_splits option.splits)
  moreover have "c \<in> set (bs_commands final) \<and> ci_name c = nm" if "map_of (by_name final) nm = Some c" for c
    using by_name_SomeD [OF that] .
  ultimately show ?thesis using status run by (auto 0 4)
qed

lemma learn_succeeded:
  assumes "coordinator_learn api t nm h = Some (Inr outcome, h')" and "lo_succeeded outcome"
  shows "lo_name outcome = nm \<and> (\<exists>i status h1 h2 c. lo_command_id outcome = Some i \<and>
    async_status api t h1 = (Inr status, h2) \<and> bs_state status = ''captured'' \<and>
    c \<in> set (bs_commands status) \<and> ci_name c = nm \<and> ci_command_id c = i)"
  using learn_outcome_facts [where api = api and t = t and nm = nm and h = h] assms by (auto split: option.splits)

text \<open>
  What a learn reports is what the bridge said: an outcome that succeeded names a command the
  bridge listed under the requested name, with that command's id, in a status that said
  captured; every other outcome carries no id. The outcome is under the requested name always.
\<close>

theorem learn_outcome_honest:
  "case coordinator_learn api t nm h of
     Some (Inr outcome, h') \<Rightarrow>
       lo_name outcome = nm \<and>
       (case lo_command_id outcome of
          None \<Rightarrow> \<not> lo_succeeded outcome
        | Some i \<Rightarrow> lo_succeeded outcome \<and>
            (\<exists>status h1 h2. async_status api t h1 = (Inr status, h2) \<and> bs_state status = ''captured'' \<and>
               (\<exists>c. c \<in> set (bs_commands status) \<and> ci_name c = nm \<and> ci_command_id c = i)))
   | _ \<Rightarrow> True"
  by (rule learn_outcome_facts)

text \<open>
  A failing poll reaches Home Assistant as the coordinator's own failure: the only error of the
  Home Assistant family an update raises is \<open>UpdateFailed\<close>, carrying the message of the cause.
\<close>

theorem update_wraps_errors:
  "case async_status api t h of
     (Inr status, h') \<Rightarrow> async_update_data api t h = (Inr status, h')
   | (Inl err, h') \<Rightarrow> async_update_data api t h =
       (Inl (if is_ha_error err then UpdateFailed (exn_str err) else err), h')"
  by (auto simp: async_update_data_def catchA_def split: prod.split sum.split)

end
