(* ===== verification/Devices.thy ===== *)
theory Devices
  imports Coordinator
begin

text \<open>
  \<open>custom_components/rf_cloner/devices.py\<close>: the device of the bridge and one device per RF target.
  Home Assistant's device registry is outside the repository: its operations extend the interface
  of the coordinator, and what a property needs of them is named (\<open>registry_ok\<close>). A device is the
  record of the attributes the integration reads or writes.
\<close>

section \<open>What is asked of the device registry\<close>

record device =
  de_id :: string
  de_name :: string
  de_model :: string
  de_area_id :: "string option"
  de_via_device_id :: "string option"

record device_spec =
  ds_config_entry_id :: string
  ds_config_subentry_id :: "string option"
  ds_identifier :: "string \<times> string"
  ds_name :: string
  ds_manufacturer :: string
  ds_model :: string
  ds_serial_number :: "string option"
  ds_via_device_id :: "string option"

datatype device_update =
    SetViaDevice string
  | SetArea "string option"

record 'h device_api = "'h coordinator_api" +
  dv_get_or_create :: "device_spec \<Rightarrow> ('h, exn, device) act"
  dv_update :: "string \<Rightarrow> device_update \<Rightarrow> ('h, exn, device option) act"
  dv_by_identifier :: "'h \<Rightarrow> string \<times> string \<Rightarrow> string \<Rightarrow> device option"
  dv_by_mac :: "'h \<Rightarrow> string \<Rightarrow> string \<Rightarrow> device option"
  dv_format_mac :: "string \<Rightarrow> string"

section \<open>The bridge's device\<close>

definition find_esphome_device :: "('h, 'z) device_api_scheme \<Rightarrow> string \<Rightarrow> 'h \<Rightarrow> string option" where
  "find_esphome_device api esphome_entry_id h =
     (case h_get_entry api h esphome_entry_id of
        None \<Rightarrow> None
      | Some entry \<Rightarrow>
          (case ce_unique_id entry of
             None \<Rightarrow> None
           | Some mac \<Rightarrow> map_option de_id (dv_by_mac api h (dv_format_mac api mac) esphome_entry_id)))"

definition async_register_bridge_device ::
  "('h, 'z) device_api_scheme \<Rightarrow> config_entry \<Rightarrow> string \<Rightarrow> string \<Rightarrow> ('h, exn, device) act" where
  "async_register_bridge_device api entry esphome_entry_id bridge_id =
     bindA (dv_get_or_create api
       \<lparr>ds_config_entry_id = ce_entry_id entry, ds_config_subentry_id = None,
        ds_identifier = (DOMAIN, bridge_id), ds_name = ce_title entry,
        ds_manufacturer = MANUFACTURER, ds_model = MODEL, ds_serial_number = Some bridge_id,
        ds_via_device_id = None\<rparr>) (\<lambda>device.
     bindA (readA (find_esphome_device api esphome_entry_id)) (\<lambda>esphome_device_id.
       if esphome_device_id \<noteq> None \<and> de_via_device_id device \<noteq> esphome_device_id then
         bindA (dv_update api (de_id device) (SetViaDevice (the esphome_device_id))) (\<lambda>updated.
           case updated of None \<Rightarrow> raiseA AssertionError | Some d \<Rightarrow> retA d)
       else retA device))"

section \<open>The targets' devices\<close>

definition target_identifier :: "string \<Rightarrow> rf_target \<Rightarrow> string \<times> string" where
  "target_identifier bridge_id target = (DOMAIN, device_identifier target bridge_id)"

definition async_register_target_device ::
  "('h, 'z) device_api_scheme \<Rightarrow> config_entry \<Rightarrow> string \<Rightarrow> string \<Rightarrow> rf_target \<Rightarrow> ('h, exn, device) act" where
  "async_register_target_device api entry bridge_id bridge_device_id target =
     bindA (readA (\<lambda>h. dv_by_identifier api h (target_identifier bridge_id target) (ce_entry_id entry) = None)) (\<lambda>is_new.
     bindA (liftE (target_model (rt_target_type target))) (\<lambda>model.
     bindA (dv_get_or_create api
       \<lparr>ds_config_entry_id = ce_entry_id entry, ds_config_subentry_id = Some (rt_subentry_id target),
        ds_identifier = target_identifier bridge_id target, ds_name = rt_name target,
        ds_manufacturer = MANUFACTURER, ds_model = model, ds_serial_number = None,
        ds_via_device_id = Some bridge_device_id\<rparr>) (\<lambda>device.
     if is_new \<and> rt_area_id target \<noteq> None \<and> de_area_id device = None then
       bindA (dv_update api (de_id device) (SetArea (rt_area_id target))) (\<lambda>updated.
         retA (case updated of None \<Rightarrow> device | Some d \<Rightarrow> d))
     else retA device)))"

definition async_sync_target_devices ::
  "('h, 'z) device_api_scheme \<Rightarrow> config_entry \<Rightarrow> string \<Rightarrow> string \<Rightarrow> ('h, exn, unit) act" where
  "async_sync_target_devices api entry bridge_id bridge_device_id =
     forA (\<lambda>target. bindA (async_register_target_device api entry bridge_id bridge_device_id target) (\<lambda>_. retA ()))
       (map snd (targets entry))"

definition target_device ::
  "('h, 'z) device_api_scheme \<Rightarrow> config_entry \<Rightarrow> string \<Rightarrow> rf_target \<Rightarrow> 'h \<Rightarrow> device option" where
  "target_device api entry bridge_id target h =
     dv_by_identifier api h (target_identifier bridge_id target) (ce_entry_id entry)"

definition async_target_device_id ::
  "('h, 'z) device_api_scheme \<Rightarrow> config_entry \<Rightarrow> string \<Rightarrow> rf_target \<Rightarrow> 'h \<Rightarrow> string option" where
  "async_target_device_id api entry bridge_id target h =
     (case target_device api entry bridge_id target h of None \<Rightarrow> None | Some d \<Rightarrow> Some (de_id d))"

definition async_target_device_area ::
  "('h, 'z) device_api_scheme \<Rightarrow> config_entry \<Rightarrow> string \<Rightarrow> rf_target \<Rightarrow> 'h \<Rightarrow> string option" where
  "async_target_device_area api entry bridge_id target h =
     (case target_device api entry bridge_id target h of None \<Rightarrow> None | Some d \<Rightarrow> de_area_id d)"

definition async_set_target_area ::
  "('h, 'z) device_api_scheme \<Rightarrow> config_entry \<Rightarrow> string \<Rightarrow> rf_target \<Rightarrow> string option \<Rightarrow> ('h, exn, unit) act" where
  "async_set_target_area api entry bridge_id target area_id =
     bindA (readA (async_target_device_id api entry bridge_id target)) (\<lambda>device_id.
       case device_id of
         None \<Rightarrow> retA ()
       | Some i \<Rightarrow> bindA (dv_update api i (SetArea area_id)) (\<lambda>_. retA ()))"

section \<open>What the device registry does\<close>

fun apply_device_update :: "device_update \<Rightarrow> device \<Rightarrow> device" where
  "apply_device_update (SetViaDevice v) d = d\<lparr>de_via_device_id := Some v\<rparr>"
| "apply_device_update (SetArea a) d = d\<lparr>de_area_id := a\<rparr>"

text \<open>
  Getting or creating returns the device found under the identifier from then on; it carries the
  presentation asked for, an existing device keeps its id and its area, a new one has an id no
  registered device has. A device may be found under several identifiers: the one asked for is then
  found changed under each of them, and no other device changes. An update changes the device with
  that id, wherever it is found, and no other.
\<close>

definition registry_ok :: "('h, 'z) device_api_scheme \<Rightarrow> bool" where
  "registry_ok api \<longleftrightarrow>
     (\<forall>spec h d h'. dv_get_or_create api spec h = (Inr d, h') \<longrightarrow>
        dv_by_identifier api h' (ds_identifier spec) (ds_config_entry_id spec) = Some d \<and>
        de_name d = ds_name spec \<and> de_model d = ds_model spec \<and>
        (ds_via_device_id spec \<noteq> None \<longrightarrow> de_via_device_id d = ds_via_device_id spec) \<and>
        (case dv_by_identifier api h (ds_identifier spec) (ds_config_entry_id spec) of
           Some d0 \<Rightarrow> de_id d = de_id d0 \<and> de_area_id d = de_area_id d0
         | None \<Rightarrow> \<forall>i e d'. dv_by_identifier api h i e = Some d' \<longrightarrow> de_id d' \<noteq> de_id d) \<and>
        (\<forall>i e. (i, e) \<noteq> (ds_identifier spec, ds_config_entry_id spec) \<longrightarrow>
           dv_by_identifier api h' i e =
             map_option (\<lambda>d'. if de_id d' = de_id d then d else d') (dv_by_identifier api h i e))) \<and>
     (\<forall>k u h r h'. dv_update api k u h = (Inr r, h') \<longrightarrow>
        (\<forall>i e. dv_by_identifier api h' i e =
           map_option (\<lambda>d. if de_id d = k then apply_device_update u d else d) (dv_by_identifier api h i e)) \<and>
        (\<forall>i e d d'. r = Some d' \<longrightarrow> dv_by_identifier api h i e = Some d \<longrightarrow> de_id d = k \<longrightarrow>
           d' = apply_device_update u d))"

lemma registry_createD:
  assumes "registry_ok api" and "dv_get_or_create api spec h = (Inr d, h')"
  shows "dv_by_identifier api h' (ds_identifier spec) (ds_config_entry_id spec) = Some d"
    and "de_name d = ds_name spec" and "de_model d = ds_model spec"
    and "ds_via_device_id spec = Some v \<Longrightarrow> de_via_device_id d = Some v"
    and "dv_by_identifier api h (ds_identifier spec) (ds_config_entry_id spec) = Some d0 \<Longrightarrow>
      de_id d = de_id d0 \<and> de_area_id d = de_area_id d0"
    and "dv_by_identifier api h (ds_identifier spec) (ds_config_entry_id spec) = None \<Longrightarrow>
      dv_by_identifier api h i e = Some d' \<Longrightarrow> de_id d' \<noteq> de_id d"
    and "(i, e) \<noteq> (ds_identifier spec, ds_config_entry_id spec) \<Longrightarrow> dv_by_identifier api h' i e =
      map_option (\<lambda>d'. if de_id d' = de_id d then d else d') (dv_by_identifier api h i e)"
proof -
  note all = assms(1) [unfolded registry_ok_def, THEN conjunct1, rule_format, OF assms(2)]
  show "dv_by_identifier api h' (ds_identifier spec) (ds_config_entry_id spec) = Some d"
    and "de_name d = ds_name spec" and "de_model d = ds_model spec"
    using all by blast+
  show "ds_via_device_id spec = Some v \<Longrightarrow> de_via_device_id d = Some v"
    using all by simp
  show "dv_by_identifier api h (ds_identifier spec) (ds_config_entry_id spec) = Some d0 \<Longrightarrow>
      de_id d = de_id d0 \<and> de_area_id d = de_area_id d0"
    using all by simp
  show "dv_by_identifier api h (ds_identifier spec) (ds_config_entry_id spec) = None \<Longrightarrow>
      dv_by_identifier api h i e = Some d' \<Longrightarrow> de_id d' \<noteq> de_id d"
    using all by (cases i) simp
  show "(i, e) \<noteq> (ds_identifier spec, ds_config_entry_id spec) \<Longrightarrow> dv_by_identifier api h' i e =
      map_option (\<lambda>d'. if de_id d' = de_id d then d else d') (dv_by_identifier api h i e)"
    using all by blast
qed

lemma registry_updateD:
  assumes "registry_ok api" and "dv_update api k u h = (Inr r, h')"
  shows "dv_by_identifier api h' i e =
      map_option (\<lambda>d. if de_id d = k then apply_device_update u d else d) (dv_by_identifier api h i e)"
    and "r = Some d' \<Longrightarrow> dv_by_identifier api h i e = Some d \<Longrightarrow> de_id d = k \<Longrightarrow> d' = apply_device_update u d"
  using assms(1) [unfolded registry_ok_def, THEN conjunct2, rule_format, OF assms(2)] by blast+

lemma apply_device_update_id [simp]: "de_id (apply_device_update u d) = de_id d"
  by (cases u) simp_all

section \<open>Lemmas: registering one target\<close>

lemma target_model_total: "\<exists>m. target_model ty = Inr m"
  by (auto simp: target_model_def const_eqs split: option.split)

text \<open>What a target's device should look like after it has been registered.\<close>

definition presents :: "rf_target \<Rightarrow> string \<Rightarrow> device option \<Rightarrow> device \<Rightarrow> bool" where
  "presents target bridge_device_id before d \<longleftrightarrow>
     de_name d = rt_name target \<and> Inr (de_model d) = target_model (rt_target_type target) \<and>
     de_via_device_id d = Some bridge_device_id \<and>
     (case before of
        Some d0 \<Rightarrow> de_id d = de_id d0 \<and> de_area_id d = de_area_id d0
      | None \<Rightarrow> rt_area_id target \<noteq> None \<longrightarrow> de_area_id d \<noteq> None)"

text \<open>
  Registering one target: its device presents it afterwards and keeps its id if there was one, or has
  one no other device has; under any other identifier, what was not found is not found, and a device
  with another id is unchanged.
\<close>

lemma register_target_device:
  assumes ok: "registry_ok api"
    and run: "async_register_target_device api entry bridge_id bridge_device_id target h = (Inr dev, h')"
  obtains d where "target_device api entry bridge_id target h' = Some d"
    and "presents target bridge_device_id (target_device api entry bridge_id target h) d"
    and "target_device api entry bridge_id target h = None \<Longrightarrow>
      (\<forall>i e d'. dv_by_identifier api h i e = Some d' \<longrightarrow> de_id d' \<noteq> de_id d)"
    and "\<forall>i e. (i, e) \<noteq> (target_identifier bridge_id target, ce_entry_id entry) \<longrightarrow>
      (dv_by_identifier api h i e = None \<longrightarrow> dv_by_identifier api h' i e = None) \<and>
      (\<forall>d'. dv_by_identifier api h i e = Some d' \<and> de_id d' \<noteq> de_id d \<longrightarrow> dv_by_identifier api h' i e = Some d')"
proof -
  obtain model where model: "target_model (rt_target_type target) = Inr model"
    using target_model_total by blast
  let ?spec = "\<lparr>ds_config_entry_id = ce_entry_id entry, ds_config_subentry_id = Some (rt_subentry_id target),
        ds_identifier = target_identifier bridge_id target, ds_name = rt_name target,
        ds_manufacturer = MANUFACTURER, ds_model = model, ds_serial_number = None,
        ds_via_device_id = Some bridge_device_id\<rparr>"
  let ?before = "target_device api entry bridge_id target h"
  let ?place = "\<lambda>d. ?before = None \<and> rt_area_id target \<noteq> None \<and> de_area_id d = None"
  obtain r h1 where created: "dv_get_or_create api ?spec h = (r, h1)"
    by (cases "dv_get_or_create api ?spec h")
  with run model obtain d where r: "r = Inr d"
    by (cases r) (auto simp: async_register_target_device_def bindA_def)
  note create = registry_createD [OF ok created [unfolded r], simplified]
  have at1: "target_device api entry bridge_id target h1 = Some d"
    using create(1) by (simp add: target_device_def)
  have rest: "(if ?place d then bindA (dv_update api (de_id d) (SetArea (rt_area_id target)))
        (\<lambda>updated. retA (case updated of None \<Rightarrow> d | Some d' \<Rightarrow> d')) else retA d) h1 = (Inr dev, h')"
    using run model created r by (simp add: async_register_target_device_def bindA_def target_device_def)
  show thesis
  proof (cases "?place d")
    case False
    have h': "h' = h1" using rest unfolding if_not_P [OF False] by simp
    have pres: "presents target bridge_device_id ?before d"
      using create(2-5) model False by (cases ?before) (auto simp: presents_def target_device_def)
    show thesis
      by (rule that [of d]) (use at1 h' pres create(6,7) in \<open>auto simp: target_device_def\<close>)
  next
    case True
    obtain u where upd: "dv_update api (de_id d) (SetArea (rt_area_id target)) h1 = (Inr u, h')"
      using rest unfolding if_P [OF True] by (auto simp: bindA_eq_Inr)
    note moved = registry_updateD(1) [OF ok upd]
    show thesis
    proof (rule that [of "d\<lparr>de_area_id := rt_area_id target\<rparr>"])
      show "target_device api entry bridge_id target h' = Some (d\<lparr>de_area_id := rt_area_id target\<rparr>)"
        using at1 moved by (simp add: target_device_def)
      show "presents target bridge_device_id ?before (d\<lparr>de_area_id := rt_area_id target\<rparr>)"
        using True create(2-4) model by (auto simp: presents_def)
    qed (use create(6,7) moved in \<open>auto simp: target_device_def\<close>)
  qed
qed

section \<open>Lemmas: registering them all\<close>

lemma target_identifier_inject:
  "target_identifier bridge_id s = target_identifier bridge_id t \<longleftrightarrow> rt_target_id s = rt_target_id t"
  by (simp add: target_identifier_def device_identifier_def target_device_identifier_def)

lemma targets_key: "(k, t) \<in> set (targets entry) \<Longrightarrow> rt_target_id t = k"
  unfolding targets_def by (drule dict_of_values) auto

lemma distinct_target_ids: "distinct (map rt_target_id (map snd (targets entry)))"
proof -
  have "map rt_target_id (map snd (targets entry)) = dict_keys (targets entry)"
    by (auto dest: targets_key)
  moreover have "distinct (dict_keys (targets entry))"
    by (simp add: targets_def distinct_dict_of)
  ultimately show ?thesis by (simp only:)
qed

text \<open>No two of the targets have one device.\<close>

definition apart :: "('h, 'z) device_api_scheme \<Rightarrow> config_entry \<Rightarrow> string \<Rightarrow> rf_target list \<Rightarrow> 'h \<Rightarrow> bool" where
  "apart api entry bridge_id ts h \<longleftrightarrow>
     (\<forall>s \<in> set ts. \<forall>t \<in> set ts. \<forall>d d'. target_device api entry bridge_id s h = Some d \<and>
        target_device api entry bridge_id t h = Some d' \<and> de_id d = de_id d' \<longrightarrow> rt_target_id s = rt_target_id t)"

text \<open>A device found in the registry that is the device of none of the targets.\<close>

definition unrelated :: "('h, 'z) device_api_scheme \<Rightarrow> config_entry \<Rightarrow> string \<Rightarrow> rf_target list \<Rightarrow> 'h \<Rightarrow> device \<Rightarrow> bool" where
  "unrelated api entry bridge_id ts h d \<longleftrightarrow>
     (\<forall>t \<in> set ts. \<forall>d'. target_device api entry bridge_id t h = Some d' \<longrightarrow> de_id d' \<noteq> de_id d)"

lemma apart_unrelated:
  assumes "apart api entry bridge_id (t # ts) h" and "target_device api entry bridge_id t h = Some d"
    and "rt_target_id t \<notin> rt_target_id ` set ts"
  shows "unrelated api entry bridge_id ts h d"
  using assms unfolding apart_def unrelated_def by (metis imageI list.set_intros)

lemma apart_ConsI:
  assumes "apart api entry bridge_id ts h" and "target_device api entry bridge_id t h = Some d"
    and "unrelated api entry bridge_id ts h d"
  shows "apart api entry bridge_id (t # ts) h"
  unfolding apart_def
proof (intro ballI allI impI, elim conjE)
  fix s s' x x'
  assume s: "s \<in> set (t # ts)" "s' \<in> set (t # ts)" and same: "de_id x = de_id x'"
    and x: "target_device api entry bridge_id s h = Some x" "target_device api entry bridge_id s' h = Some x'"
  have far: "de_id y \<noteq> de_id d" if "r \<in> set ts" and "target_device api entry bridge_id r h = Some y" for r y
    using assms(3) that by (simp add: unrelated_def)
  consider "s = t" "s' = t" | "s = t" "s' \<in> set ts" | "s \<in> set ts" "s' = t" | "s \<in> set ts" "s' \<in> set ts"
    using s by auto
  then show "rt_target_id s = rt_target_id s'"
  proof cases
    case 2
    with far [OF 2(2) x(2)] x(1) assms(2) same show ?thesis by simp
  next
    case 3
    with far [OF 3(1) x(1)] x(2) assms(2) same show ?thesis by simp
  next
    case 4
    with assms(1) x same show ?thesis unfolding apart_def by blast
  qed simp
qed

lemma register_target_devices:
  assumes ok: "registry_ok api"
  shows "forA (\<lambda>target. bindA (async_register_target_device api entry bridge_id bridge_device_id target) (\<lambda>_. retA ()))
      ts h = (Inr (), h') \<Longrightarrow> apart api entry bridge_id ts h \<Longrightarrow> distinct (map rt_target_id ts) \<Longrightarrow>
    apart api entry bridge_id ts h' \<and>
    (\<forall>t \<in> set ts. \<exists>d. target_device api entry bridge_id t h' = Some d \<and>
       presents t bridge_device_id (target_device api entry bridge_id t h) d) \<and>
    (\<forall>i e d. dv_by_identifier api h i e = Some d \<and> unrelated api entry bridge_id ts h d \<longrightarrow>
       dv_by_identifier api h' i e = Some d \<and> unrelated api entry bridge_id ts h' d) \<and>
    (\<forall>i e. dv_by_identifier api h i e = None \<and> (e = ce_entry_id entry \<longrightarrow> i \<notin> target_identifier bridge_id ` set ts) \<longrightarrow>
       dv_by_identifier api h' i e = None)"
proof (induction ts arbitrary: h)
  case Nil
  then show ?case by (simp add: apart_def)
next
  case (Cons t ts)
  let ?dev = "target_device api entry bridge_id"
  from Cons.prems(1) have "bindA (async_register_target_device api entry bridge_id bridge_device_id t)
      (\<lambda>_. forA (\<lambda>target. bindA (async_register_target_device api entry bridge_id bridge_device_id target) (\<lambda>_. retA ())) ts)
      h = (Inr (), h')"
    by (simp only: forA.simps bindA_assoc bindA_basic)
  then obtain dev h1 where
    one: "async_register_target_device api entry bridge_id bridge_device_id t h = (Inr dev, h1)" and
    rest: "forA (\<lambda>target. bindA (async_register_target_device api entry bridge_id bridge_device_id target) (\<lambda>_. retA ()))
      ts h1 = (Inr (), h')"
    unfolding bindA_eq_Inr by blast
  from Cons.prems(3) have fresh: "rt_target_id t \<notin> rt_target_id ` set ts" and dist: "distinct (map rt_target_id ts)" by simp_all
  obtain d where d: "?dev t h1 = Some d" "presents t bridge_device_id (?dev t h) d"
    and new: "?dev t h = None \<Longrightarrow> \<forall>i e d'. dv_by_identifier api h i e = Some d' \<longrightarrow> de_id d' \<noteq> de_id d"
    and others: "\<forall>i e. (i, e) \<noteq> (target_identifier bridge_id t, ce_entry_id entry) \<longrightarrow>
      (dv_by_identifier api h i e = None \<longrightarrow> dv_by_identifier api h1 i e = None) \<and>
      (\<forall>d'. dv_by_identifier api h i e = Some d' \<and> de_id d' \<noteq> de_id d \<longrightarrow> dv_by_identifier api h1 i e = Some d')"
    using register_target_device [OF ok one] by blast
  have same_id: "de_id d = de_id d0" if "?dev t h = Some d0" for d0
    using d(2) that by (simp add: presents_def)
  have other_id: "de_id d' \<noteq> de_id d" if "dv_by_identifier api h i e = Some d'"
    "\<And>d0. ?dev t h = Some d0 \<Longrightarrow> de_id d' \<noteq> de_id d0" for i e d'
  proof (cases "?dev t h")
    case None
    with new that(1) show ?thesis by blast
  next
    case (Some d0)
    with same_id that(2) show ?thesis by metis
  qed
  have kept: "?dev s h1 = ?dev s h" if s: "s \<in> set ts" for s
  proof -
    have "rt_target_id s \<noteq> rt_target_id t" using s fresh by (metis imageI)
    then have key: "(target_identifier bridge_id s, ce_entry_id entry) \<noteq> (target_identifier bridge_id t, ce_entry_id entry)"
      by (simp add: target_identifier_inject)
    show ?thesis
    proof (cases "?dev s h")
      case None
      with others [rule_format, OF key] show ?thesis by (simp add: target_device_def)
    next
      case (Some x)
      have "de_id x \<noteq> de_id d"
      proof (rule other_id)
        show "dv_by_identifier api h (target_identifier bridge_id s) (ce_entry_id entry) = Some x"
          using Some by (simp add: target_device_def)
        show "de_id x \<noteq> de_id d0" if "?dev t h = Some d0" for d0
          using apart_unrelated [OF Cons.prems(2) that fresh] s Some by (auto simp: unrelated_def)
      qed
      with others [rule_format, OF key] Some show ?thesis by (simp add: target_device_def)
    qed
  qed
  have "apart api entry bridge_id ts h1"
    unfolding apart_def
  proof (intro ballI allI impI, elim conjE)
    fix s s' x x'
    assume s: "s \<in> set ts" "s' \<in> set ts" and x: "?dev s h1 = Some x" "?dev s' h1 = Some x'" "de_id x = de_id x'"
    from x kept s have "?dev s h = Some x" "?dev s' h = Some x'" by metis+
    with Cons.prems(2) s x(3) show "rt_target_id s = rt_target_id s'"
      unfolding apart_def by (meson list.set_intros(2))
  qed
  note IH = Cons.IH [OF rest this dist]
  have unrel: "unrelated api entry bridge_id ts h1 x \<longleftrightarrow> unrelated api entry bridge_id ts h x" for x
    unfolding unrelated_def by (rule ball_cong [OF refl]) (simp only: kept)
  have d_alone: "unrelated api entry bridge_id ts h1 d"
    unfolding unrelated_def
  proof (intro ballI allI impI)
    fix s x
    assume s: "s \<in> set ts" and "?dev s h1 = Some x"
    then have x: "?dev s h = Some x" by (simp add: kept)
    show "de_id x \<noteq> de_id d"
    proof (rule other_id)
      show "dv_by_identifier api h (target_identifier bridge_id s) (ce_entry_id entry) = Some x"
        using x by (simp add: target_device_def)
      show "de_id x \<noteq> de_id d0" if "?dev t h = Some d0" for d0
        using apart_unrelated [OF Cons.prems(2) that fresh] s x by (auto simp: unrelated_def)
    qed
  qed
  have IH_apart: "apart api entry bridge_id ts h'"
    and IH_ts: "\<And>s. s \<in> set ts \<Longrightarrow> \<exists>d. ?dev s h' = Some d \<and> presents s bridge_device_id (?dev s h1) d"
    and IH_same: "\<And>i e x. dv_by_identifier api h1 i e = Some x \<Longrightarrow> unrelated api entry bridge_id ts h1 x \<Longrightarrow>
      dv_by_identifier api h' i e = Some x \<and> unrelated api entry bridge_id ts h' x"
    and IH_none: "\<And>i e. dv_by_identifier api h1 i e = None \<Longrightarrow>
      (e = ce_entry_id entry \<Longrightarrow> i \<notin> target_identifier bridge_id ` set ts) \<Longrightarrow> dv_by_identifier api h' i e = None"
    using IH by blast+
  have first: "?dev t h' = Some d" and "unrelated api entry bridge_id ts h' d"
    using IH_same [OF d(1) [unfolded target_device_def] d_alone] by (simp_all add: target_device_def)
  then have apart': "apart api entry bridge_id (t # ts) h'"
    by (rule apart_ConsI [OF IH_apart])
  have all: "\<exists>d. ?dev s h' = Some d \<and> presents s bridge_device_id (?dev s h) d" if "s \<in> set (t # ts)" for s
  proof (cases "s = t")
    case True
    with first d(2) show ?thesis by simp
  next
    case False
    with that have "s \<in> set ts" by simp
    with IH_ts [of s] kept [of s] show ?thesis by simp
  qed
  have same: "dv_by_identifier api h' i e = Some x \<and> unrelated api entry bridge_id (t # ts) h' x"
    if x: "dv_by_identifier api h i e = Some x" and "unrelated api entry bridge_id (t # ts) h x" for i e x
  proof -
    from that(2) have "unrelated api entry bridge_id ts h x"
      and apart_t: "\<And>d0. ?dev t h = Some d0 \<Longrightarrow> de_id d0 \<noteq> de_id x" by (auto simp: unrelated_def)
    then have "unrelated api entry bridge_id ts h1 x" by (simp add: unrel)
    moreover have "(i, e) \<noteq> (target_identifier bridge_id t, ce_entry_id entry)"
      using x apart_t by (auto simp: target_device_def)
    moreover have other: "de_id x \<noteq> de_id d"
      by (rule other_id [OF x]) (use apart_t in metis)
    ultimately have "dv_by_identifier api h1 i e = Some x" "unrelated api entry bridge_id ts h1 x"
      using others x by blast+
    then have "dv_by_identifier api h' i e = Some x" "unrelated api entry bridge_id ts h' x"
      using IH_same by blast+
    with first other show ?thesis by (simp add: unrelated_def)
  qed
  have none: "dv_by_identifier api h' i e = None"
    if "dv_by_identifier api h i e = None"
      and away: "e = ce_entry_id entry \<Longrightarrow> i \<notin> target_identifier bridge_id ` set (t # ts)" for i e
  proof (rule IH_none)
    have "(i, e) \<noteq> (target_identifier bridge_id t, ce_entry_id entry)" using away by auto
    with others that(1) show "dv_by_identifier api h1 i e = None" by blast
    show "i \<notin> target_identifier bridge_id ` set ts" if "e = ce_entry_id entry" using away [OF that] by simp
  qed
  show ?case
    using apart' all same none by blast
qed

section \<open>Properties\<close>

text \<open>
  C38: After the devices of an entry were brought in step, every target it defines has a device with
  the target's name and model, linked through the bridge; a device that was there keeps its id
  and the area the user has put it in, a new one has an area when the target names one; and no
  device that is not a target's has changed, under whichever identifiers it is found, nor has one
  appeared. This is as long as no two targets share a device, which syncing keeps.
\<close>

theorem sync_presents_targets:
  assumes "registry_ok api" and "apart api entry bridge_id (map snd (targets entry)) h"
    and "async_sync_target_devices api entry bridge_id bridge_device_id h = (Inr (), h')"
  shows "(\<forall>(k, t) \<in> set (targets entry). \<exists>d. target_device api entry bridge_id t h' = Some d \<and>
      presents t bridge_device_id (target_device api entry bridge_id t h) d) \<and>
    (\<forall>i e d. dv_by_identifier api h i e = Some d \<and> unrelated api entry bridge_id (map snd (targets entry)) h d \<longrightarrow>
      dv_by_identifier api h' i e = Some d) \<and>
    (\<forall>i e. dv_by_identifier api h i e = None \<and>
      (e = ce_entry_id entry \<longrightarrow> (\<forall>(k, t) \<in> set (targets entry). i \<noteq> target_identifier bridge_id t)) \<longrightarrow>
      dv_by_identifier api h' i e = None) \<and>
    apart api entry bridge_id (map snd (targets entry)) h'"
  using register_target_devices [OF assms(1) assms(3) [unfolded async_sync_target_devices_def] assms(2)
      distinct_target_ids]
  by fastforce

text \<open>A registry kept as a dict, with ids longer than any in it.\<close>

type_synonym demo_registry = "((string \<times> string) \<times> string, device) dict"

definition demo_get_or_create :: "device_spec \<Rightarrow> (demo_registry, exn, device) act" where
  "demo_get_or_create spec = (\<lambda>h.
     let key = (ds_identifier spec, ds_config_entry_id spec);
         old = (case map_of h key of
           Some d \<Rightarrow> d
         | None \<Rightarrow> \<lparr>de_id = CHR ''x'' # concat (map (de_id \<circ> snd) h), de_name = [], de_model = [],
             de_area_id = None, de_via_device_id = None\<rparr>);
         d = old\<lparr>de_name := ds_name spec, de_model := ds_model spec,
           de_via_device_id := (case ds_via_device_id spec of None \<Rightarrow> de_via_device_id old | v \<Rightarrow> v)\<rparr>
     in (Inr d, AList.update key d (map (\<lambda>(k, x). (k, if de_id x = de_id d then d else x)) h)))"

definition demo_update :: "string \<Rightarrow> device_update \<Rightarrow> (demo_registry, exn, device option) act" where
  "demo_update k u = (\<lambda>h.
     (Inr None, map (\<lambda>(key, d). (key, if de_id d = k then apply_device_update u d else d)) h))"

definition demo_device_api :: "demo_registry device_api" where
  "demo_device_api = \<lparr>
     h_get_entry = (\<lambda>h i. None), h_has_service = (\<lambda>h d s. False),
     h_call = (\<lambda>d s data r h. (Inl (OtherError ''none''), h)),
     ca_monotonic = (\<lambda>h. 0), ca_sleep = (\<lambda>d h. (Inr (), h)), ca_request_refresh = (\<lambda>h. (Inr (), h)),
     dv_get_or_create = demo_get_or_create, dv_update = demo_update,
     dv_by_identifier = (\<lambda>h i e. map_of h (i, e)), dv_by_mac = (\<lambda>h m e. None), dv_format_mac = id\<rparr>"

lemma longer_than_all: "d \<in> set ds \<Longrightarrow> length (de_id d) < length (CHR ''x'' # concat (map de_id ds))"
  by (induction ds) auto

lemma demo_registry_ok: "registry_ok demo_device_api"
proof -
  have fresh: "de_id d \<noteq> CHR ''x'' # concat (map (de_id \<circ> snd) h)"
    if "map_of h k = Some d" for h :: demo_registry and k d
    using longer_than_all [of d "map snd h"] map_of_SomeD [OF that] by force
  have fresh': "map_option (\<lambda>x. if de_id x = CHR ''x'' # concat (map (de_id \<circ> snd) h) then d else x) (map_of h k) = map_of h k"
    for h :: demo_registry and k d
    using fresh [of h k] by (cases "map_of h k") auto
  have update: "map_of (map (\<lambda>(key, d). (key, f d)) h) k = map_option f (map_of h k)"
    for h :: demo_registry and k and f :: "device \<Rightarrow> device"
    by (induction h) auto
  show ?thesis
    unfolding registry_ok_def
    by (auto simp: demo_device_api_def demo_get_or_create_def demo_update_def Let_def update_conv' update
        dest: fresh split: option.split)
qed

theorem sync_presents_targets_witness:
  "\<exists>h'. async_sync_target_devices demo_device_api demo_entry ''b1'' ''x'' [] = (Inr (), h') \<and>
     (\<exists>d. map_of h' ((''rf_cloner'', ''b1_target_t1''), ''e1'') = Some d \<and> de_name d = ''Fan'')"
proof -
  let ?run = "async_sync_target_devices demo_device_api demo_entry ''b1'' ''x'' []"
  have "fst ?run = Inr ()" by code_simp
  then have run: "?run = (Inr (), snd ?run)" by (metis prod.collapse)
  have "apart demo_device_api demo_entry ''b1'' (map snd (targets demo_entry)) []"
    by (simp add: apart_def target_device_def demo_device_api_def)
  note all = sync_presents_targets [OF demo_registry_ok this run]
  have "targets demo_entry = [(''t1'', \<lparr>rt_target_id = ''t1'', rt_subentry_id = ''s1'', rt_name = ''Fan'',
      rt_target_type = ''fan'', rt_area_id = None\<rparr>)]" by code_simp
  with all run show ?thesis
    by (auto simp: target_device_def presents_def target_identifier_def device_identifier_def
        target_device_identifier_def demo_device_api_def demo_entry_def const_eqs)
qed

end
