(* ===== verification/Runtime.thy ===== *)
theory Runtime
  imports Reconcile Snapshot Devices
begin

text \<open>
  \<open>custom_components/rf_cloner/data.py\<close> and the two components that only read it:
  \<open>services.py\<close>, the actions of the integration, and \<open>diagnostics.py\<close>, the download. Of the
  coordinator object the runtime carries what the others read, the status it last polled.
\<close>

section \<open>Runtime data\<close>

record ('l, 't) runtime_data =
  rd_bridge_id :: string
  rd_bridge_device_id :: string
  rd_transport :: transport
  rd_status :: "bridge_status option"
  rd_reconciler :: "'l reconciler"
  rd_snapshots :: "'t snapshot_manager"
  rd_bound_to :: "string \<times> string"

section \<open>Actions\<close>

record ('h, 'l, 't) service_api = "'h coordinator_api" +
  sv_runtime :: "'h \<Rightarrow> string \<Rightarrow> ('l, 't) runtime_data option"

definition ATTR_CONFIG_ENTRY_ID :: string where "ATTR_CONFIG_ENTRY_ID = ''config_entry_id''"
definition SERVICE_LEARN :: string where "SERVICE_LEARN = ''learn''"
definition SERVICE_CANCEL_LEARN :: string where "SERVICE_CANCEL_LEARN = ''cancel_learn''"
definition SERVICE_EXPORT_SNAPSHOT :: string where "SERVICE_EXPORT_SNAPSHOT = ''export_snapshot''"

text \<open>What is registered: domain, service, required fields, and whether it only responds.\<close>

definition setup_services :: "(string \<times> string \<times> string list \<times> bool) list" where
  "setup_services =
     [(DOMAIN, SERVICE_LEARN, [ATTR_CONFIG_ENTRY_ID, CONF_NAME], False),
      (DOMAIN, SERVICE_CANCEL_LEARN, [ATTR_CONFIG_ENTRY_ID], False),
      (DOMAIN, SERVICE_EXPORT_SNAPSHOT, [ATTR_CONFIG_ENTRY_ID], True)]"

definition resolve_entry ::
  "('h, 'l, 't, 'z) service_api_scheme \<Rightarrow> string \<Rightarrow> ('h, exn, config_entry) act" where
  "resolve_entry api entry_id =
     bindA (readA (\<lambda>h. h_get_entry api h entry_id)) (\<lambda>found.
       case found of
         None \<Rightarrow> raiseA (ServiceValidationError ''unknown_entry'' [(''entry_id'', entry_id)])
       | Some entry \<Rightarrow>
           if ce_domain entry \<noteq> DOMAIN
           then raiseA (ServiceValidationError ''unknown_entry'' [(''entry_id'', entry_id)])
           else if ce_state entry \<noteq> LOADED
           then raiseA (ServiceValidationError ''entry_not_loaded'' [(''title'', ce_title entry)])
           else retA entry)"

definition entry_runtime ::
  "('h, 'l, 't, 'z) service_api_scheme \<Rightarrow> config_entry \<Rightarrow> ('h, exn, ('l, 't) runtime_data) act" where
  "entry_runtime api entry =
     bindA (readA (\<lambda>h. sv_runtime api h (ce_entry_id entry))) (\<lambda>runtime.
       case runtime of None \<Rightarrow> raiseA AttributeError | Some r \<Rightarrow> retA r)"

definition service_learn ::
  "('h, 'l, 't, 'z) service_api_scheme \<Rightarrow> string \<Rightarrow> string \<Rightarrow> 'h \<Rightarrow> ((exn + unit) \<times> 'h) option" where
  "service_learn api entry_id raw_name h =
     (case resolve_entry api entry_id h of
        (Inl err, h1) \<Rightarrow> Some (Inl err, h1)
      | (Inr entry, h1) \<Rightarrow>
          let nm = py_strip raw_name in
          case validate_command_name nm of
            Some problem \<Rightarrow> Some (Inl (ServiceValidationError problem [(''name'', nm)]), h1)
          | None \<Rightarrow>
              (case entry_runtime api entry h1 of
                 (Inl err, h2) \<Rightarrow> Some (Inl err, h2)
               | (Inr runtime, h2) \<Rightarrow>
                   (case coordinator_learn api (rd_transport runtime) nm h2 of
                      None \<Rightarrow> None
                    | Some (Inl err, h3) \<Rightarrow> Some (Inl err, h3)
                    | Some (Inr outcome, h3) \<Rightarrow>
                        if \<not> lo_succeeded outcome
                        then Some (Inl (ServiceValidationError ''learn_failed''
                          [(''name'', nm), (''detail'', lo_detail outcome)]), h3)
                        else Some (Inr (), h3))))"

definition service_cancel_learn ::
  "('h, 'l, 't, 'z) service_api_scheme \<Rightarrow> string \<Rightarrow> ('h, exn, unit) act" where
  "service_cancel_learn api entry_id =
     bindA (resolve_entry api entry_id) (\<lambda>entry.
     bindA (entry_runtime api entry) (\<lambda>runtime.
     coordinator_cancel api (rd_transport runtime)))"

definition service_export_snapshot ::
  "('h, 'l, 't, 'z) service_api_scheme \<Rightarrow> ('t \<Rightarrow> string) \<Rightarrow> string \<Rightarrow> ('h, exn, pyval) act" where
  "service_export_snapshot api isoformat entry_id =
     bindA (resolve_entry api entry_id) (\<lambda>entry.
     bindA (entry_runtime api entry) (\<lambda>runtime.
       case sm_snapshot (rd_snapshots runtime) of
         None \<Rightarrow> raiseA (ServiceValidationError ''no_snapshot'' [(''title'', ce_title entry)])
       | Some snapshot \<Rightarrow> retA (as_stored isoformat snapshot)))"

section \<open>Diagnostics\<close>

definition opt_str :: "string option \<Rightarrow> pyval" where
  "opt_str s = (case s of None \<Rightarrow> PNone | Some x \<Rightarrow> PStr x)"

definition diagnose_target :: "config_entry \<Rightarrow> rf_target \<Rightarrow> pyval" where
  "diagnose_target entry target = PDict
     [(''target_id'', PStr (rt_target_id target)), (''type'', PStr (rt_target_type target)),
      (''has_area'', PBool (rt_area_id target \<noteq> None)),
      (''commands'', PList (map PInt (sorted_list_of_set (commands_for_target entry (rt_target_id target)))))]"

definition diagnose_meta :: "int \<times> command_meta \<Rightarrow> string \<times> pyval" where
  "diagnose_meta km = (py_str_int (fst km), PDict
     [(''assigned'', PBool (cm_target_id (snd km) \<noteq> None)), (''icon'', opt_str (cm_icon (snd km)))])"

definition diagnose_status :: "bridge_status \<Rightarrow> pyval" where
  "diagnose_status status = PDict
     [(''bridge_id'', PStr (bs_bridge_id status)), (''revision'', PInt (bs_revision status)),
      (''next_command_id'', PInt (bs_next_command_id status)),
      (''restore_incomplete'', PBool (bs_restore_incomplete status)),
      (''read_only'', PBool (bs_read_only status)), (''fault'', PStr (bs_fault status)),
      (''state'', PStr (bs_state status)), (''last_result'', PStr (bs_last_result status)),
      (''count'', PInt (bs_count status)), (''max_commands'', PInt (bs_max_commands status)),
      (''max_pulses'', PInt (bs_max_pulses status)), (''used_bytes'', PInt (bs_used_bytes status)),
      (''capacity_bytes'', PInt (bs_capacity_bytes status)),
      (''commands'', PList (map (\<lambda>c. PDict
         [(''id'', PInt (ci_command_id c)), (''name'', PStr (ci_name c)), (''pulses'', PInt (ci_pulses c))])
         (bs_commands status)))]"

definition diagnose_snapshot :: "('t \<Rightarrow> string) \<Rightarrow> 't snapshot \<Rightarrow> pyval" where
  "diagnose_snapshot isoformat s = PDict
     [(''bridge_id'', PStr (sn_bridge_id s)), (''revision'', PInt (sn_revision s)),
      (''next_command_id'', PInt (sn_next_command_id s)),
      (''captured_at'', PStr (isoformat (sn_captured_at s))),
      (''commands'', PList (map (\<lambda>c. PDict
         [(''id'', PInt (ec_command_id c)), (''name'', PStr (ec_name c)),
          (''pulses'', PInt (int (length (ec_timings c))))]) (sn_commands s)))]"

definition config_entry_diagnostics ::
  "('h, 'z) hass_api_scheme \<Rightarrow> ('t \<Rightarrow> string) \<Rightarrow> config_entry \<Rightarrow> ('l, 't) runtime_data \<Rightarrow> 'h \<Rightarrow> pyval" where
  "config_entry_diagnostics api isoformat entry runtime h = PDict
     [(''entry'', PDict
        [(''unique_id'', opt_str (ce_unique_id entry)),
         (''esphome_entry_id'', PStr (fst (rd_bound_to runtime))),
         (''action_prefix'', PStr (snd (rd_bound_to runtime))),
         (''version'', PStr (py_str_int (ce_version entry) @ ''.'' @ py_str_int (ce_minor_version entry)))]),
      (''targets'', PList (map (diagnose_target entry \<circ> snd) (targets entry))),
      (''command_meta'', PDict (dict_of (map diagnose_meta (sort_key fst (command_meta_of entry))))),
      (''transport'', PDict
        [(''node_name'', opt_str (node_name api (rd_transport runtime) h)),
         (''available'', PBool (available api (rd_transport runtime) h)),
         (''supports_delete_id'', PBool (supports api (rd_transport runtime) ''delete_id'' h))]),
      (''status'', case rd_status runtime of None \<Rightarrow> PNone | Some s \<Rightarrow> diagnose_status s),
      (''snapshot'', case sm_snapshot (rd_snapshots runtime) of
         None \<Rightarrow> PNone | Some s \<Rightarrow> diagnose_snapshot isoformat s),
      (''identity_mismatch'', PBool (rc_identity_mismatch (rd_reconciler runtime)))]"

section \<open>Lemmas\<close>

text \<open>Resolving reads only, and finds a loaded entry of the integration or says which it is not.\<close>

definition resolved :: "('h, 'l, 't, 'z) service_api_scheme \<Rightarrow> string \<Rightarrow> 'h \<Rightarrow> exn + config_entry" where
  "resolved api entry_id h = fst (resolve_entry api entry_id h)"

lemma resolve_entry_reads: "resolve_entry api entry_id h = (resolved api entry_id h, h)"
  by (simp add: resolved_def resolve_entry_def split: option.split)

lemma resolved_cases:
  "(\<exists>entry. resolved api entry_id h = Inr entry \<and> h_get_entry api h entry_id = Some entry \<and>
      ce_domain entry = DOMAIN \<and> ce_state entry = LOADED) \<or>
   (\<exists>entry. resolved api entry_id h = Inl (ServiceValidationError ''entry_not_loaded'' [(''title'', ce_title entry)]) \<and>
      h_get_entry api h entry_id = Some entry \<and> ce_domain entry = DOMAIN \<and> ce_state entry \<noteq> LOADED) \<or>
   resolved api entry_id h = Inl (ServiceValidationError ''unknown_entry'' [(''entry_id'', entry_id)]) \<and>
      (\<forall>entry. h_get_entry api h entry_id = Some entry \<longrightarrow> ce_domain entry \<noteq> DOMAIN)"
  by (auto simp: resolved_def resolve_entry_def split: option.split)

lemma entry_runtime_reads:
  "entry_runtime api entry h =
     ((case sv_runtime api h (ce_entry_id entry) of None \<Rightarrow> Inl AttributeError | Some r \<Rightarrow> Inr r), h)"
  by (simp add: entry_runtime_def split: option.split)

lemma service_export_eq:
  "service_export_snapshot api isoformat entry_id h =
     (bindE (resolved api entry_id h) (\<lambda>entry.
      case sv_runtime api h (ce_entry_id entry) of
        None \<Rightarrow> Inl AttributeError
      | Some r \<Rightarrow>
          (case sm_snapshot (rd_snapshots r) of
             None \<Rightarrow> Inl (ServiceValidationError ''no_snapshot'' [(''title'', ce_title entry)])
           | Some s \<Rightarrow> Inr (as_stored isoformat s))), h)"
  by (cases "resolved api entry_id h")
    (simp_all add: service_export_snapshot_def bindA_def resolve_entry_reads entry_runtime_reads
      split: option.split)

section \<open>Properties\<close>

text \<open>
  C40: The learn action is honest: it returns without an error only when it was aimed at a loaded
  bridge of this integration, the name without the blanks around it is one the bridge accepts,
  and a status of that bridge said captured and listed a command of that name. Aimed anywhere
  else, or with any other name, it raises a validation error and nothing at all has happened.
\<close>

theorem learn_action_honest:
  assumes "service_learn api entry_id raw_name h = Some (r, h')"
  shows "(r = Inr () \<longrightarrow>
      (\<exists>entry runtime status h1 h2 c. h_get_entry api h entry_id = Some entry \<and>
         ce_domain entry = DOMAIN \<and> ce_state entry = LOADED \<and>
         validate_command_name (py_strip raw_name) = None \<and>
         sv_runtime api h (ce_entry_id entry) = Some runtime \<and>
         async_status api (rd_transport runtime) h1 = (Inr status, h2) \<and> bs_state status = ''captured'' \<and>
         c \<in> set (bs_commands status) \<and> ci_name c = py_strip raw_name)) \<and>
    (validate_command_name (py_strip raw_name) \<noteq> None \<or>
       \<not> (\<exists>entry. h_get_entry api h entry_id = Some entry \<and> ce_domain entry = DOMAIN \<and> ce_state entry = LOADED)
       \<longrightarrow> h' = h \<and> (\<exists>key placeholders. r = Inl (ServiceValidationError key placeholders)))"
proof (cases "resolved api entry_id h")
  case (Inl err)
  with resolved_cases [of api entry_id h] assms show ?thesis
    by (auto simp: service_learn_def resolve_entry_reads)
next
  case (Inr entry)
  with resolved_cases [of api entry_id h] have found: "h_get_entry api h entry_id = Some entry"
      "ce_domain entry = DOMAIN" "ce_state entry = LOADED" by auto
  show ?thesis
  proof (cases "validate_command_name (py_strip raw_name)")
    case (Some problem)
    with Inr assms show ?thesis by (auto simp: service_learn_def resolve_entry_reads Let_def)
  next
    case None
    have "\<exists>runtime status h1 h2 c. sv_runtime api h (ce_entry_id entry) = Some runtime \<and>
         async_status api (rd_transport runtime) h1 = (Inr status, h2) \<and> bs_state status = ''captured'' \<and>
         c \<in> set (bs_commands status) \<and> ci_name c = py_strip raw_name" if r: "r = Inr ()"
    proof -
      from assms [unfolded r] Inr None obtain runtime outcome where
        rt: "sv_runtime api h (ce_entry_id entry) = Some runtime" and
        learn: "coordinator_learn api (rd_transport runtime) (py_strip raw_name) h = Some (Inr outcome, h')" and
        ok: "lo_succeeded outcome"
        by (auto simp: service_learn_def resolve_entry_reads entry_runtime_reads Let_def
            split: option.splits sum.splits prod.splits if_splits)
      from learn_succeeded [OF learn ok] rt show ?thesis by blast
    qed
    with found None show ?thesis by auto
  qed
qed

definition demo_service_entry :: config_entry where
  "demo_service_entry = demo_entry\<lparr>ce_state := LOADED\<rparr>"

definition demo_runtime :: "(unit, string) runtime_data" where
  "demo_runtime = \<lparr>rd_bridge_id = ''b1'', rd_bridge_device_id = ''d1'', rd_transport = demo_transport,
     rd_status = Some demo_status, rd_reconciler = new_reconciler,
     rd_snapshots = demo_manager\<lparr>sm_snapshot := Some
       \<lparr>sn_bridge_id = ''b1'', sn_revision = 7, sn_next_command_id = 5, sn_captured_at = ''now'',
        sn_commands = [demo_command]\<rparr>\<rparr>,
     rd_bound_to = (''n1'', ''rf_'')\<rparr>"

definition demo_service_api :: "(rat \<times> nat, unit, string) service_api" where
  "demo_service_api = \<lparr>
     h_get_entry = (\<lambda>h i. if i = ''e1'' then Some demo_service_entry else Some demo_node_entry),
     h_has_service = (\<lambda>h domain service. True),
     h_call = (\<lambda>domain service data response (now, k). (Inr (demo_learn_status k), (now, k - 1))),
     ca_monotonic = fst,
     ca_sleep = (\<lambda>d (now, k). (Inr (), (now + d, k))),
     ca_request_refresh = (\<lambda>h. (Inr (), h)),
     sv_runtime = (\<lambda>h i. if i = ''e1'' then Some demo_runtime else None)\<rparr>"

theorem learn_action_honest_witness:
  "\<exists>r h'. service_learn demo_service_api ''e1'' '' not a name '' (0, 3) = Some (r, h') \<and> h' = (0, 3)"
proof -
  have bad: "validate_command_name (py_strip '' not a name '') = Some ''name_invalid''" by code_simp
  have "resolve_entry demo_service_api ''e1'' (0, 3) = (Inr demo_service_entry, (0, 3))"
    by (simp add: resolve_entry_def demo_service_api_def demo_service_entry_def demo_entry_def const_eqs)
  then have "\<exists>r. service_learn demo_service_api ''e1'' '' not a name '' (0, 3) = Some (r, (0, 3))"
    by (simp add: service_learn_def bad Let_def)
  then show ?thesis using learn_action_honest bad by blast
qed

text \<open>
  What the export action returns is a backup: read back as a stored snapshot, the response is the
  replica the integration holds, every waveform included, and exporting changes nothing.
\<close>

theorem exported_snapshot_restorable:
  assumes "service_export_snapshot api isoformat entry_id h = (Inr payload, h')"
    and "\<And>d. parse (PStr (isoformat d)) = Inr (Some d)"
  shows "h' = h \<and> (\<exists>entry runtime. h_get_entry api h entry_id = Some entry \<and>
    sv_runtime api h (ce_entry_id entry) = Some runtime \<and>
    sm_snapshot (rd_snapshots runtime) \<noteq> None \<and>
    from_stored parse payload = Inr (sm_snapshot (rd_snapshots runtime)))"
proof -
  obtain entry where entry: "resolved api entry_id h = Inr entry"
    using assms(1) by (cases "resolved api entry_id h") (simp_all add: service_export_eq)
  obtain runtime where runtime: "sv_runtime api h (ce_entry_id entry) = Some runtime"
    using assms(1) entry by (cases "sv_runtime api h (ce_entry_id entry)") (simp_all add: service_export_eq)
  obtain s where s: "sm_snapshot (rd_snapshots runtime) = Some s"
    using assms(1) entry runtime by (cases "sm_snapshot (rd_snapshots runtime)") (simp_all add: service_export_eq)
  have out: "payload = as_stored isoformat s" "h' = h"
    using assms(1) entry runtime s by (simp_all add: service_export_eq)
  moreover have "h_get_entry api h entry_id = Some entry"
    using resolved_cases [of api entry_id h] entry by auto
  moreover have "from_stored parse (as_stored isoformat s) = Inr (Some s)"
    by (rule from_stored_roundtrip) (rule assms(2))
  ultimately show ?thesis using runtime s out by simp
qed

theorem exported_snapshot_restorable_witness:
  "\<exists>payload. service_export_snapshot demo_service_api id ''e1'' (0, 3) = (Inr payload, (0, 3)) \<and>
     from_stored (\<lambda>v. case v of PStr s \<Rightarrow> Inr (Some s) | _ \<Rightarrow> Inl TypeError) payload =
       Inr (sm_snapshot (rd_snapshots demo_runtime))"
proof -
  let ?run = "service_export_snapshot demo_service_api id ''e1'' (0, 3)"
  have "\<exists>payload. fst ?run = Inr payload"
    by (simp add: service_export_eq resolved_def resolve_entry_def demo_service_api_def demo_service_entry_def
        demo_entry_def demo_runtime_def const_eqs)
  then obtain payload where run: "?run = (Inr payload, snd ?run)" by (metis prod.collapse)
  have "sv_runtime demo_service_api h (ce_entry_id entry) = Some runtime \<Longrightarrow> runtime = demo_runtime" for h entry runtime
    by (simp add: demo_service_api_def split: if_splits)
  with exported_snapshot_restorable [OF run, of "\<lambda>v. case v of PStr s \<Rightarrow> Inr (Some s) | _ \<Rightarrow> Inl TypeError"]
  have "snd ?run = (0, 3)" and "from_stored (\<lambda>v. case v of PStr s \<Rightarrow> Inr (Some s) | _ \<Rightarrow> Inl TypeError) payload =
       Inr (sm_snapshot (rd_snapshots demo_runtime))" by auto
  with run show ?thesis by metis
qed

text \<open>A replica with everything but ids, names and lengths wiped out of its commands.\<close>

definition redacted :: "exported_command \<Rightarrow> exported_command" where
  "redacted c = \<lparr>ec_schema = 0, ec_bridge_id = [], ec_command_id = ec_command_id c, ec_name = ec_name c,
     ec_gap_us = 0, ec_repeat_times = 0, ec_frequency_hz = 0, ec_modulation = 0,
     ec_timings = replicate (length (ec_timings c)) 0\<rparr>"

definition redact_snapshots :: "'t snapshot_manager \<Rightarrow> 't snapshot_manager" where
  "redact_snapshots m = m\<lparr>sm_snapshot := map_option
     (\<lambda>s. s\<lparr>sn_commands := map redacted (sn_commands s)\<rparr>) (sm_snapshot m)\<rparr>"

text \<open>
  The diagnostics carry no waveform: they are the same for every replica that agrees on the
  identity, the revision, the date and each command's id, name and number of pulses, whatever
  was recorded.
\<close>

theorem diagnostics_hide_waveforms:
  "config_entry_diagnostics api isoformat entry
      (runtime\<lparr>rd_snapshots := redact_snapshots (rd_snapshots runtime)\<rparr>) h =
   config_entry_diagnostics api isoformat entry runtime h"
  by (cases "sm_snapshot (rd_snapshots runtime)")
    (simp_all add: config_entry_diagnostics_def redact_snapshots_def diagnose_snapshot_def redacted_def comp_def)

end
