(* ===== verification/Restore.thy ===== *)
theory Restore
  imports Snapshot
begin

text \<open>
  \<open>custom_components/rf_cloner/restore.py\<close>: restoring a snapshot onto replacement hardware, with
  the checks before the first write and the checks of the bridge's own report after the last.
\<close>

section \<open>Checks before anything is written\<close>

definition oversized :: "bridge_status \<Rightarrow> 't snapshot \<Rightarrow> string list" where
  "oversized status snapshot =
     map ec_name (filter (\<lambda>c. int (length (ec_timings c)) > bs_max_pulses status) (sn_commands snapshot))"

definition check_restore_target :: "bridge_status \<Rightarrow> 't snapshot \<Rightarrow> exn + unit" where
  "check_restore_target status snapshot =
     (if bs_read_only status
      then Inl (RestoreNotPossible (''the target is in read-only mode ('' @ bs_fault status @ '')''))
      else if bs_restore_incomplete status
      then Inl (RestoreNotPossible ''the target already has an unfinished restore'')
      else if bs_count status \<noteq> 0
      then Inl (RestoreNotPossible
        (''the target already holds '' @ py_str_int (bs_count status) @ '' command(s); clear it first''))
      else if int (length (sn_commands snapshot)) > bs_max_commands status
      then Inl (RestoreNotPossible
        (''the target holds '' @ py_str_int (bs_max_commands status) @ '' commands and the snapshot has '' @
         py_str_int (int (length (sn_commands snapshot)))))
      else if oversized status snapshot \<noteq> []
      then Inl (RestoreNotPossible
        (''the target's '' @ py_str_int (bs_max_pulses status) @ ''-pulse limit cannot hold: '' @
         py_join '', '' (oversized status snapshot)))
      else if \<not> (0 \<le> sn_revision snapshot \<and> sn_revision snapshot \<le> REVISION_MAX)
      then Inl (RestoreNotPossible
        (''the snapshot's revision '' @ py_str_int (sn_revision snapshot) @
         '' is outside the bridge's revision domain (0 to '' @ py_str_int REVISION_MAX @ '')''))
      else Inr ())"

section \<open>Checks of the result\<close>

definition check_restored :: "bridge_status \<Rightarrow> 't snapshot \<Rightarrow> exn + unit" where
  "check_restored result snapshot =
     (if bs_bridge_id result \<noteq> sn_bridge_id snapshot
      then Inl (HomeAssistantError
        (''Restore finished but the bridge reports '' @ bs_bridge_id result @ '', expected '' @
         sn_bridge_id snapshot))
      else if bs_restore_incomplete result
      then Inl (HomeAssistantError ''Restore did not commit; the bridge is still mid-restore'')
      else if bs_count result \<noteq> int (length (sn_commands snapshot))
      then Inl (HomeAssistantError
        (''Restore wrote '' @ py_str_int (bs_count result) @ '' of '' @
         py_str_int (int (length (sn_commands snapshot))) @ '' command(s)''))
      else if bs_revision result \<le> sn_revision snapshot
      then Inl (HomeAssistantError
        (''Restore committed revision '' @ py_str_int (bs_revision result) @
         '', which does not advance the snapshot's revision '' @ py_str_int (sn_revision snapshot) @
         ''; the bridge's firmware may predate rf_restore_commit(source_revision)''))
      else Inr ())"

section \<open>The restore\<close>

definition async_restore ::
  "('h, 'z) hass_api_scheme \<Rightarrow> transport \<Rightarrow> 't snapshot \<Rightarrow> ('h, exn, unit) act" where
  "async_restore api t snapshot =
     bindA (async_status api t) (\<lambda>status.
     bindA (liftE (check_restore_target status snapshot)) (\<lambda>_.
     bindA (async_restore_begin api t (sn_bridge_id snapshot) (sn_next_command_id snapshot)) (\<lambda>_.
     bindA (forA (async_import api t) (sn_commands snapshot)) (\<lambda>_.
     bindA (async_restore_commit api t (sn_revision snapshot)) (\<lambda>_.
     bindA (async_status api t) (\<lambda>result.
     liftE (check_restored result snapshot)))))))"

section \<open>Lemmas\<close>

text \<open>What the two checks decide, without their messages.\<close>

definition restorable :: "bridge_status \<Rightarrow> 't snapshot \<Rightarrow> bool" where
  "restorable status snapshot \<longleftrightarrow>
     accepts_mutations status \<and> bs_count status = 0 \<and>
     int (length (sn_commands snapshot)) \<le> bs_max_commands status \<and>
     (\<forall>c \<in> set (sn_commands snapshot). int (length (ec_timings c)) \<le> bs_max_pulses status) \<and>
     0 \<le> sn_revision snapshot \<and> sn_revision snapshot < REVISION_TERMINAL"

definition restored :: "bridge_status \<Rightarrow> 't snapshot \<Rightarrow> bool" where
  "restored result snapshot \<longleftrightarrow>
     bs_bridge_id result = sn_bridge_id snapshot \<and> \<not> bs_restore_incomplete result \<and>
     bs_count result = int (length (sn_commands snapshot)) \<and> sn_revision snapshot < bs_revision result"

lemma oversized_Nil_iff:
  "oversized status snapshot = [] \<longleftrightarrow>
     (\<forall>c \<in> set (sn_commands snapshot). int (length (ec_timings c)) \<le> bs_max_pulses status)"
  by (auto simp: oversized_def filter_empty_conv)

lemma check_restore_target_cases:
  "check_restore_target status snapshot = Inr () \<and> restorable status snapshot \<or>
   (\<exists>m. check_restore_target status snapshot = Inl (RestoreNotPossible m)) \<and> \<not> restorable status snapshot"
  unfolding check_restore_target_def restorable_def oversized_Nil_iff accepts_mutations_def
  by (simp add: const_eqs) linarith

lemma check_restored_cases:
  "check_restored result snapshot = Inr () \<and> restored result snapshot \<or>
   (\<exists>m. check_restored result snapshot = Inl (HomeAssistantError m)) \<and> \<not> restored result snapshot"
  unfolding check_restored_def restored_def by auto

lemma check_restore_target_Inr: "check_restore_target status snapshot = Inr u \<longleftrightarrow> restorable status snapshot"
  using check_restore_target_cases [of status snapshot] by auto

lemma check_restored_Inr: "check_restored result snapshot = Inr u \<longleftrightarrow> restored result snapshot"
  using check_restored_cases [of result snapshot] by auto

lemma forA_append: "forA f (xs @ ys) = bindA (forA f xs) (\<lambda>_. forA f ys)"
  by (induction xs) (simp_all add: bindA_assoc)

text \<open>The writes of a restore, in their order.\<close>

definition restore_writes ::
  "('h, 'z) hass_api_scheme \<Rightarrow> transport \<Rightarrow> 't snapshot \<Rightarrow> ('h, exn, unit) act" where
  "restore_writes api t snapshot =
     bindA (async_restore_begin api t (sn_bridge_id snapshot) (sn_next_command_id snapshot)) (\<lambda>_.
     bindA (forA (async_import api t) (sn_commands snapshot)) (\<lambda>_.
     async_restore_commit api t (sn_revision snapshot)))"

lemma async_restore_eq:
  "async_restore api t snapshot =
     bindA (async_status api t) (\<lambda>status.
     bindA (liftE (check_restore_target status snapshot)) (\<lambda>_.
     bindA (restore_writes api t snapshot) (\<lambda>_.
     bindA (async_status api t) (\<lambda>result. liftE (check_restored result snapshot)))))"
  by (simp add: async_restore_def restore_writes_def bindA_assoc)

lemma async_restore_Inr_iff:
  "async_restore api t snapshot h = (Inr (), h') \<longleftrightarrow>
     (\<exists>status result h1 h2.
        async_status api t h = (Inr status, h1) \<and> restorable status snapshot \<and>
        restore_writes api t snapshot h1 = (Inr (), h2) \<and>
        async_status api t h2 = (Inr result, h') \<and> restored result snapshot)"
  by (auto simp: async_restore_eq bindA_eq_Inr check_restore_target_Inr check_restored_Inr)

lemma async_restore_refused:
  assumes "async_status api t h = (Inr status, h1)" and "\<not> restorable status snapshot"
  shows "\<exists>m. async_restore api t snapshot h = (Inl (RestoreNotPossible m), h1)"
  using check_restore_target_cases [of status snapshot] assms
  by (auto simp: async_restore_eq bindA_Inr)

end
