(* ===== verification/IconsSuggested.thy ===== *)
theory IconsSuggested
  imports Const "HOL-Library.Sublist"
begin

text \<open>
  \<open>custom_components/rf_cloner/icons_suggested.py\<close>: the icon suggested for a newly named
  command. The tables are the code's, in its order; the first keyword found wins.
\<close>

section \<open>Tables\<close>

definition by_target_type :: "(string, string) dict" where
  "by_target_type =
    [(''fan'', ''mdi:fan''), (''gate'', ''mdi:gate''), (''light'', ''mdi:lightbulb''),
     (''cover'', ''mdi:window-shutter''), (''tv'', ''mdi:television''),
     (''air_conditioner'', ''mdi:air-conditioner'')]"

definition by_keyword :: "(string list \<times> string) list" where
  "by_keyword =
    [([''speed up'', ''speedup'', ''faster'', ''speed plus''], ''mdi:fan-plus''),
     ([''speed down'', ''speeddown'', ''slower'', ''speed minus''], ''mdi:fan-minus''),
     ([''speed 1'', ''speed1'', ''low''], ''mdi:fan-speed-1''),
     ([''speed 2'', ''speed2'', ''medium'', ''med''], ''mdi:fan-speed-2''),
     ([''speed 3'', ''speed3'', ''high'', ''max''], ''mdi:fan-speed-3''),
     ([''vol up'', ''volume up'', ''vol plus''], ''mdi:volume-plus''),
     ([''vol down'', ''volume down'', ''vol minus''], ''mdi:volume-minus''),
     ([''light'', ''lamp'', ''luz''], ''mdi:lightbulb''),
     ([''power'', ''on off'', ''onoff'', ''toggle''], ''mdi:power''),
     ([''open'', ''abrir''], ''mdi:gate-open''),
     ([''close'', ''shut'', ''fechar''], ''mdi:gate''),
     ([''stop'', ''halt'', ''parar''], ''mdi:stop''),
     ([''up'', ''raise'', ''subir''], ''mdi:arrow-up''),
     ([''down'', ''lower'', ''descer''], ''mdi:arrow-down''),
     ([''fan'', ''ventilador''], ''mdi:fan''),
     ([''cool'', ''cold''], ''mdi:snowflake''),
     ([''heat'', ''warm''], ''mdi:fire''),
     ([''swing'', ''oscillate''], ''mdi:swap-vertical''),
     ([''play''], ''mdi:play''),
     ([''pause''], ''mdi:pause'')]"

definition cover_like :: "string list" where
  "cover_like = [''cover'']"

definition cover_overrides :: "(string, string) dict" where
  "cover_overrides =
    [(''mdi:gate-open'', ''mdi:window-shutter-open''), (''mdi:gate'', ''mdi:window-shutter'')]"

section \<open>Matching\<close>

definition fold_separators :: "string \<Rightarrow> string" where
  "fold_separators s = fold (\<lambda>sep. py_replace sep (CHR '' '')) ''_-.'' s"

definition normalise :: "string \<Rightarrow> string" where
  "normalise nm = '' '' @ py_join '' '' (py_split (fold_separators (py_lower nm))) @ '' ''"

fun first_keyword :: "(string list \<times> string) list \<Rightarrow> string \<Rightarrow> string option" where
  "first_keyword [] haystack = None"
| "first_keyword ((keywords, icon) # rest) haystack =
     (if list_ex (\<lambda>keyword. py_contains ('' '' @ keyword @ '' '') haystack) keywords then Some icon
      else first_keyword rest haystack)"

definition suggest_icon :: "string \<Rightarrow> string \<Rightarrow> string" where
  "suggest_icon command_name target_type =
     (case first_keyword by_keyword (normalise command_name) of
        Some icon \<Rightarrow>
          if target_type \<in> set cover_like
          then (case map_of cover_overrides icon of Some i \<Rightarrow> i | None \<Rightarrow> icon) else icon
      | None \<Rightarrow>
          (case map_of by_target_type target_type of Some i \<Rightarrow> i | None \<Rightarrow> DEFAULT_COMMAND_ICON))"

section \<open>Lemmas: the padded search is a search for words\<close>

definition word :: "string \<Rightarrow> bool" where
  "word w \<longleftrightarrow> w \<noteq> [] \<and> CHR '' '' \<notin> set w"

text \<open>Words joined by spaces with one more at each end, in a form that recurses over the words.\<close>

fun padded :: "string list \<Rightarrow> string" where
  "padded [] = '' ''"
| "padded (w # ws) = CHR '' '' # w @ padded ws"

lemma padded_join: "ws \<noteq> [] \<Longrightarrow> '' '' @ py_join '' '' ws @ '' '' = padded ws"
  by (induction "'' ''" ws rule: py_join.induct) auto

lemma padded_append: "padded (ks @ ws) = concat (map (\<lambda>w. CHR '' '' # w) ks) @ padded ws"
  by (induction ks) simp_all

lemma padded_Cons: "\<exists>t. padded ws = CHR '' '' # t"
  by (cases ws) simp_all

lemma split_at_space:
  assumes "k @ CHR '' '' # a = w @ CHR '' '' # b" and "CHR '' '' \<notin> set k" and "CHR '' '' \<notin> set w"
  shows "k = w \<and> a = b"
  using assms
proof (induction k arbitrary: w)
  case Nil
  then show ?case by (cases w) auto
next
  case (Cons c k)
  then show ?case by (cases w) auto
qed

lemma padded_prefix:
  assumes "padded ws = padded ks @ ys" and "list_all word ks" and "list_all word ws"
  shows "\<exists>post. ws = ks @ post"
  using assms
proof (induction ks arbitrary: ws)
  case Nil
  then show ?case by simp
next
  case (Cons k ks)
  show ?case
  proof (cases ws)
    case Nil
    with Cons.prems show ?thesis by (auto simp: word_def)
  next
    case (Cons w ws')
    obtain a where a: "padded ks = CHR '' '' # a" using padded_Cons by blast
    obtain b where b: "padded ws' = CHR '' '' # b" using padded_Cons by blast
    have "k @ CHR '' '' # a @ ys = w @ CHR '' '' # b"
      using Cons.prems(1) Cons a b by simp
    then have "k = w" and "a @ ys = b"
      using split_at_space [of k "a @ ys" w b] Cons.prems(2,3) Cons by (simp_all add: word_def)
    with Cons.IH [of ws'] Cons.prems(2,3) Cons a b show ?thesis by auto
  qed
qed

lemma padded_infix:
  assumes "padded ws = xs @ padded ks @ ys" and "ks \<noteq> []" and "list_all word ks" and "list_all word ws"
  shows "\<exists>pre post. ws = pre @ ks @ post"
  using assms(1,4)
proof (induction ws arbitrary: xs)
  case Nil
  obtain k ks' where "ks = k # ks'" using assms(2) by (cases ks) simp_all
  with Nil assms(3) show ?case by (cases xs) (auto simp: word_def)
next
  case (Cons w ws)
  show ?case
  proof (cases xs)
    case Nil
    with Cons.prems assms(3) padded_prefix [of "w # ws" ks ys]
    have "\<exists>post. w # ws = [] @ ks @ post" by simp
    then show ?thesis by blast
  next
    case (Cons c xs')
    obtain t where t: "padded ks = CHR '' '' # t" using padded_Cons by blast
    have "w @ padded ws = xs' @ padded ks @ ys" using Cons.prems(1) Cons by simp
    then obtain us where "(w = xs' @ us \<and> us @ padded ws = padded ks @ ys) \<or>
        (w @ us = xs' \<and> padded ws = us @ padded ks @ ys)"
      unfolding append_eq_append_conv2 by blast
    then obtain vs where "padded ws = vs @ padded ks @ ys"
    proof
      assume "w = xs' @ us \<and> us @ padded ws = padded ks @ ys"
      with Cons.prems(2) t show thesis using that [of "[]"] by (cases us) (auto simp: word_def)
    qed (use that in blast)
    with Cons.IH Cons.prems(2) obtain pre post where "ws = pre @ ks @ post" by auto
    then have "w # ws = (w # pre) @ ks @ post" by simp
    then show ?thesis by blast
  qed
qed

lemma padded_contains_iff:
  assumes "ks \<noteq> []" and "list_all word ks" and "list_all word ws"
  shows "py_contains (padded ks) (padded ws) \<longleftrightarrow> sublist ks ws"
proof
  assume "py_contains (padded ks) (padded ws)"
  then show "sublist ks ws"
    using padded_infix [OF _ assms] by (auto simp: py_contains_iff sublist_def)
next
  assume "sublist ks ws"
  then obtain pre post where ws: "ws = pre @ ks @ post" by (auto simp: sublist_def)
  obtain t where t: "padded post = CHR '' '' # t" using padded_Cons by blast
  have "padded ws = concat (map (\<lambda>w. CHR '' '' # w) pre) @ padded ks @ t"
    using padded_append [of ks "[]"] by (simp add: ws padded_append t)
  then show "py_contains (padded ks) (padded ws)" by (auto simp: py_contains_iff)
qed

lemma split_ws_words: "CHR '' '' \<notin> set w \<Longrightarrow> list_all word (split_ws w s)"
proof (induction w s rule: split_ws.induct)
  case (1 w)
  then show ?case by (simp add: word_def)
next
  case (2 w c cs)
  have "py_isspace (CHR '' '')" by (simp add: py_isspace_def)
  with 2 show ?case by (auto simp: word_def)
qed

lemma py_split_words: "list_all word (py_split s)"
  by (simp add: py_split_def split_ws_words)

definition name_words :: "string \<Rightarrow> string list" where
  "name_words nm = py_split (fold_separators (py_lower nm))"

text \<open>Every keyword of the table is its own words joined by single spaces.\<close>

lemma keywords_are_words:
  "list_all (\<lambda>(keywords, _). list_all (\<lambda>k. py_split k \<noteq> [] \<and> py_join '' '' (py_split k) = k) keywords) by_keyword"
  by code_simp

lemma keyword_found_iff:
  assumes "py_split k \<noteq> []" and "py_join '' '' (py_split k) = k"
  shows "py_contains ('' '' @ k @ '' '') (normalise nm) \<longleftrightarrow> sublist (py_split k) (name_words nm)"
proof (cases "name_words nm = []")
  case True
  have "word (hd (py_split k))"
    using py_split_words [of k] assms(1) by (cases "py_split k") simp_all
  moreover have "'' '' @ k @ '' '' = padded (py_split k)"
    using padded_join [OF assms(1)] assms(2) by simp
  moreover obtain w ws where "py_split k = w # ws" using assms(1) by (cases "py_split k") simp_all
  ultimately show ?thesis
    using True padded_Cons [of ws]
    by (auto simp: normalise_def name_words_def [symmetric] word_def py_startswith_iff
      Cons_eq_append_conv append_eq_Cons_conv)
next
  case False
  then have "normalise nm = padded (name_words nm)"
    using padded_join [OF False] by (simp add: normalise_def name_words_def)
  moreover have "'' '' @ k @ '' '' = padded (py_split k)"
    using padded_join [OF assms(1)] assms(2) by simp
  ultimately show ?thesis
    using padded_contains_iff [OF assms(1) py_split_words, of "name_words nm"]
    by (simp add: name_words_def py_split_words)
qed

lemma first_keyword_find:
  assumes "list_all (\<lambda>(keywords, _). list_all (\<lambda>k. py_split k \<noteq> [] \<and> py_join '' '' (py_split k) = k) keywords) table"
  shows "first_keyword table (normalise nm) =
    map_option snd (List.find (\<lambda>(keywords, _). list_ex (\<lambda>k. sublist (py_split k) (name_words nm)) keywords) table)"
  using assms
proof (induction table)
  case Nil
  show ?case by simp
next
  case (Cons row table)
  obtain kws icon where row: "row = (kws, icon)" by (cases row)
  have "list_ex (\<lambda>k. py_contains ('' '' @ k @ '' '') (normalise nm)) kws \<longleftrightarrow>
      list_ex (\<lambda>k. sublist (py_split k) (name_words nm)) kws"
    using Cons.prems row keyword_found_iff by (auto simp: list_ex_iff list_all_iff)
  with Cons row show ?case by simp
qed

text \<open>No table holds an empty icon, so no suggestion is empty.\<close>

lemma icons_not_empty:
  "list_all (\<lambda>(_, icon). icon \<noteq> []) by_keyword" "list_all (\<lambda>(_, icon). icon \<noteq> []) by_target_type"
  "list_all (\<lambda>(_, icon). icon \<noteq> []) cover_overrides" "DEFAULT_COMMAND_ICON \<noteq> []"
  by code_simp+

lemma first_keyword_not_empty: "list_all (\<lambda>(_, icon). icon \<noteq> []) table \<Longrightarrow> first_keyword table nm \<noteq> Some []"
  by (induction table) (auto split: if_splits)

lemma map_of_not_empty: "list_all (\<lambda>(_, icon). icon \<noteq> []) table \<Longrightarrow> map_of table k \<noteq> Some []"
  by (induction table) auto

lemma suggest_icon_not_empty: "suggest_icon nm target_type \<noteq> []"
  using icons_not_empty(4) first_keyword_not_empty [OF icons_not_empty(1), of "normalise nm"]
    map_of_not_empty [OF icons_not_empty(2)] map_of_not_empty [OF icons_not_empty(3)]
  by (auto simp: suggest_icon_def split: option.split)

section \<open>Properties\<close>

text \<open>What the suggestion should be, said over the words of the name.\<close>

definition matches_row :: "string list \<Rightarrow> string list \<times> string \<Rightarrow> bool" where
  "matches_row ws row \<longleftrightarrow> list_ex (\<lambda>k. sublist (py_split k) ws) (fst row)"

text \<open>
  The suggestion is the icon of the first row of the table one of whose keywords occurs in the
  name as consecutive whole words (a word inside a longer word never counts), with the shutter
  icons for a cover; a name without any keyword gets the icon of the target's type, and the
  default icon for a type without one.
\<close>

theorem suggest_icon_by_words:
  "suggest_icon nm target_type =
     (case List.find (matches_row (name_words nm)) by_keyword of
        Some row \<Rightarrow>
          if target_type = ''cover''
          then (case map_of cover_overrides (snd row) of None \<Rightarrow> snd row | Some i \<Rightarrow> i)
          else snd row
      | None \<Rightarrow>
          (case map_of by_target_type target_type of None \<Rightarrow> ''mdi:remote'' | Some i \<Rightarrow> i))"
proof -
  have "(\<lambda>(keywords, _). list_ex (\<lambda>k. sublist (py_split k) (name_words nm)) keywords) =
      matches_row (name_words nm)"
    by (auto simp: matches_row_def)
  then have "first_keyword by_keyword (normalise nm) =
      map_option snd (List.find (matches_row (name_words nm)) by_keyword)"
    using first_keyword_find [OF keywords_are_words, of nm] by simp
  then show ?thesis
    by (simp add: suggest_icon_def cover_like_def const_eqs split: option.splits)
qed



end
