(* ===== verification/Flows.thy ===== *)
theory Flows
  imports Runtime Restore IconsSuggested "HOL-Library.Char_ord" "HOL-Library.List_Lexorder"
begin

text \<open>
  \<open>custom_components/rf_cloner/config_flow.py\<close>: the forms through which a user sets a bridge up,
  re-points it, defines its targets and learns, organises and deletes its commands. A step is an
  action over the flow object's fields and the world: the entry the flow is about with its runtime
  data, and whatever else Home Assistant holds. The forms have validated what the user sends, so
  the input of a step is a record of its fields. Home Assistant's own operations are the fields of
  \<open>flow_api\<close>; what a property needs of them is named where it is stated.
\<close>

section \<open>Forms and results\<close>

datatype selector =
    TextSelector
  | IconSelector
  | AreaSelector
  | BoolField
  | SelectSelector "(string \<times> string) list"
  | TranslatedSelector "string list" string

record form_field =
  ff_key :: string
  ff_required :: bool
  ff_default :: "pyval option"
  ff_selector :: selector

datatype flow_result =
    Abort string "(string \<times> string) list"
  | ShowForm string "form_field list" "(string, string) dict" "(string \<times> string) list"
  | CreateEntry string "(string, pyval) dict" "string option"
  | ShowMenu string "string list"
  | ShowProgress string string "(string \<times> string) list"
  | ShowProgressDone string

datatype flow_class = TargetSubentryFlow | LearnCommandFlow

definition UNASSIGNED :: string where "UNASSIGNED = ''__unassigned__''"

section \<open>The world a flow acts on\<close>

record ('l, 't, 'x) world =
  w_entry :: config_entry
  w_runtime :: "('l, 't) runtime_data option"
  w_outside :: 'x

datatype learn_task = TaskRunning | TaskDone "exn + learn_outcome"

record 'w flow_api = "'w device_api" +
  fa_entries :: "'w \<Rightarrow> string \<Rightarrow> config_entry list"
  fa_set_unique_id :: "string \<Rightarrow> ('w, exn, unit) act"
  fa_abort_if_configured :: "string \<Rightarrow> ('w, exn, unit) act"
  fa_update_data :: "(string, pyval) dict \<Rightarrow> ('w, exn, unit) act"
  fa_update_options :: "(string, pyval) dict \<Rightarrow> ('w, exn, unit) act"
  fa_update_subentry :: "string \<Rightarrow> string \<Rightarrow> (string, pyval) dict \<Rightarrow> ('w, exn, unit) act"
  fa_new_target_id :: "('w, exn, string) act"
  fa_create_learn_task :: "transport \<Rightarrow> string \<Rightarrow> ('w, exn, learn_task) act"

definition on_reconciler :: "('l reconciler \<Rightarrow> 'l reconciler) \<Rightarrow> (('l, 't, 'x) world, exn, unit) act" where
  "on_reconciler f = (\<lambda>w.
     (Inr (), w\<lparr>w_runtime := map_option (\<lambda>r. r\<lparr>rd_reconciler := f (rd_reconciler r)\<rparr>) (w_runtime w)\<rparr>))"

section \<open>Pickers\<close>

definition esphome_entries :: "('w, 'z) flow_api_scheme \<Rightarrow> 'w \<Rightarrow> config_entry list" where
  "esphome_entries api w = sort_key (\<lambda>e. py_lower (ce_title e)) (fa_entries api w ESPHOME_DOMAIN)"

definition esphome_entry_selector :: "('w, 'z) flow_api_scheme \<Rightarrow> 'w \<Rightarrow> selector" where
  "esphome_entry_selector api w =
     SelectSelector (map (\<lambda>e. (ce_entry_id e, ce_title e)) (esphome_entries api w))"

definition target_type_selector :: selector where
  "target_type_selector = TranslatedSelector TARGET_TYPES ''target_type''"

definition target_selector :: "config_entry \<Rightarrow> selector" where
  "target_selector entry =
     SelectSelector ((UNASSIGNED, ''Unassigned'') #
       map (\<lambda>t. (rt_target_id t, rt_name t))
         (sort_key (\<lambda>t. py_lower (rt_name t)) (map snd (targets entry))))"

definition command_label :: "config_entry \<Rightarrow> command_info \<Rightarrow> string \<times> string" where
  "command_label entry c =
     (py_str_int (ci_command_id c),
      ci_name c @ '' ('' @
        (case assigned_target entry (ci_command_id c) of None \<Rightarrow> ''Unassigned'' | Some t \<Rightarrow> rt_name t) @ '')'')"

definition command_selector :: "config_entry \<Rightarrow> bridge_status \<Rightarrow> selector" where
  "command_selector entry status =
     SelectSelector (map (command_label entry) (sort_key (\<lambda>c. py_lower (ci_name c)) (bs_commands status)))"

definition supported_subentry_types :: "(string, flow_class) dict" where
  "supported_subentry_types =
     [(SUBENTRY_TYPE_TARGET, TargetSubentryFlow), (ACTION_TYPE_LEARN_COMMAND, LearnCommandFlow)]"

section \<open>Setting a bridge up, and re-pointing it\<close>

record config_flow =
  cf_replacement :: "(string \<times> string \<times> bridge_status) option"

record node_input =
  ni_esphome_entry_id :: string
  ni_action_prefix :: "string option"

definition new_config_flow :: config_flow where
  "new_config_flow = \<lparr>cf_replacement = None\<rparr>"

definition input_prefix :: "node_input \<Rightarrow> string" where
  "input_prefix i = (case ni_action_prefix i of None \<Rightarrow> DEFAULT_ACTION_PREFIX | Some p \<Rightarrow> p)"

definition node_transport :: "string \<Rightarrow> string \<Rightarrow> transport" where
  "node_transport esphome_entry_id action_prefix =
     \<lparr>tr_esphome_entry_id = esphome_entry_id, tr_action_prefix = action_prefix\<rparr>"

definition async_probe ::
  "('h, 'z) hass_api_scheme \<Rightarrow> string \<Rightarrow> string \<Rightarrow> ('h, exn, bridge_status option \<times> string option) act" where
  "async_probe api esphome_entry_id action_prefix =
     bindA (readA (\<lambda>h. h_get_entry api h esphome_entry_id)) (\<lambda>found.
       if found = None then retA (None, Some ''esphome_entry_missing'')
       else
         let t = node_transport esphome_entry_id action_prefix in
         bindA (readA (supports api t ''status'')) (\<lambda>supported.
           if \<not> supported then retA (None, Some ''no_bridge_actions'')
           else catchA (bindA (async_status api t) (\<lambda>status. retA (Some status, None)))
             (\<lambda>err. if is_ha_error err then retA (None, Some ''cannot_connect'') else raiseA err)))"

definition suggested_title :: "('h, 'z) hass_api_scheme \<Rightarrow> string \<Rightarrow> 'h \<Rightarrow> string" where
  "suggested_title api esphome_entry_id h =
     (case h_get_entry api h esphome_entry_id of None \<Rightarrow> ''RF Bridge'' | Some e \<Rightarrow> ce_title e)"

definition probe_error :: "string option \<Rightarrow> string" where
  "probe_error err = (case err of None \<Rightarrow> ''unknown'' | Some e \<Rightarrow> if e = [] then ''unknown'' else e)"

definition node_fields :: "selector \<Rightarrow> pyval option \<Rightarrow> pyval \<Rightarrow> form_field list" where
  "node_fields picker node pfx =
     [\<lparr>ff_key = CONF_ESPHOME_ENTRY_ID, ff_required = True, ff_default = node, ff_selector = picker\<rparr>,
      \<lparr>ff_key = CONF_ACTION_PREFIX, ff_required = False, ff_default = Some pfx, ff_selector = TextSelector\<rparr>]"

definition user_form :: "('w, 'z) flow_api_scheme \<Rightarrow> (string, string) dict \<Rightarrow> ('w, exn, flow_result) act" where
  "user_form api errors = readA (\<lambda>w. ShowForm ''user''
     (node_fields (esphome_entry_selector api w) None (PStr DEFAULT_ACTION_PREFIX)) errors [])"

definition config_step_user ::
  "('w, 'z) flow_api_scheme \<Rightarrow> node_input option \<Rightarrow> ('w, exn, flow_result) act" where
  "config_step_user api user_input =
     bindA (readA (esphome_entries api)) (\<lambda>choices.
       if choices = [] then retA (Abort ''no_esphome_entries'' [])
       else case user_input of
         None \<Rightarrow> user_form api []
       | Some i \<Rightarrow>
           let eid = ni_esphome_entry_id i; pfx = input_prefix i in
           bindA (async_probe api eid pfx) (\<lambda>(status, err).
             case status of
               None \<Rightarrow> user_form api [(''base'', probe_error err)]
             | Some s \<Rightarrow>
                 bindA (fa_set_unique_id api (bs_bridge_id s)) (\<lambda>_.
                 bindA (fa_abort_if_configured api (bs_bridge_id s)) (\<lambda>_.
                 readA (\<lambda>w. CreateEntry (suggested_title api eid w)
                   [(CONF_ESPHOME_ENTRY_ID, PStr eid), (CONF_ACTION_PREFIX, PStr pfx)] None)))))"

definition rebind ::
  "(('l, 't, 'x) world, 'z) flow_api_scheme \<Rightarrow> string \<Rightarrow> string \<Rightarrow> string
     \<Rightarrow> (('l, 't, 'x) world, exn, flow_result) act" where
  "rebind api esphome_entry_id action_prefix reason =
     bindA (readA w_entry) (\<lambda>entry.
     bindA (fa_update_data api (dict_merge (ce_data entry)
       [(CONF_ESPHOME_ENTRY_ID, PStr esphome_entry_id), (CONF_ACTION_PREFIX, PStr action_prefix)])) (\<lambda>_.
     retA (Abort reason [])))"

definition loaded_snapshot :: "('l, 't, 'x) world \<Rightarrow> 't snapshot option" where
  "loaded_snapshot w =
     (case w_runtime w of None \<Rightarrow> None | Some r \<Rightarrow> sm_snapshot (rd_snapshots r))"

text \<open>\<open>confirmed\<close> says whether the user has submitted the form, which has no fields.\<close>

definition config_step_replace ::
  "(('l, 't, 'x) world, 'z) flow_api_scheme \<Rightarrow> bool
     \<Rightarrow> (config_flow \<times> ('l, 't, 'x) world, exn, flow_result) act" where
  "config_step_replace api confirmed =
     bindA (own cf_replacement) (\<lambda>replacement.
       case replacement of
         None \<Rightarrow> raiseA AssertionError
       | Some (esphome_entry_id, action_prefix, status) \<Rightarrow>
           bindA (on_world (readA loaded_snapshot)) (\<lambda>held.
             case held of
               None \<Rightarrow> retA (Abort ''no_snapshot'' [])
             | Some snapshot \<Rightarrow>
                 (case check_restore_target status snapshot of
                    Inl (RestoreNotPossible m) \<Rightarrow> retA (Abort ''restore_not_possible'' [(''detail'', m)])
                  | Inl err \<Rightarrow> raiseA err
                  | Inr _ \<Rightarrow>
                      if \<not> confirmed then retA (ShowForm ''replace'' [] []
                        [(''bridge_id'', sn_bridge_id snapshot), (''found_bridge_id'', bs_bridge_id status),
                         (''commands'', py_str_int (int (length (sn_commands snapshot))))])
                      else bindA
                        (catchA
                          (bindA (on_world (async_restore api (node_transport esphome_entry_id action_prefix) snapshot))
                            (\<lambda>_. retA None))
                          (\<lambda>err. if is_ha_error err
                             then retA (Some (Abort ''restore_failed'' [(''detail'', exn_str err)]))
                             else raiseA err))
                        (\<lambda>failed. case failed of
                           Some result \<Rightarrow> retA result
                         | None \<Rightarrow> on_world (rebind api esphome_entry_id action_prefix ''restore_successful'')))))"

definition current_node :: "config_entry \<Rightarrow> config_entry list \<Rightarrow> pyval option" where
  "current_node entry choices =
     (case map_of (ce_data entry) CONF_ESPHOME_ENTRY_ID of
        None \<Rightarrow> None
      | Some v \<Rightarrow> if list_ex (\<lambda>e. PStr (ce_entry_id e) = v) choices then Some v else None)"

definition reconfigure_form ::
  "(('l, 't, 'x) world, 'z) flow_api_scheme \<Rightarrow> pyval option \<Rightarrow> (string, string) dict
     \<Rightarrow> (('l, 't, 'x) world, exn, flow_result) act" where
  "reconfigure_form api current errors = readA (\<lambda>w.
     ShowForm ''reconfigure'' (node_fields (esphome_entry_selector api w) current
       (case map_of (ce_data (w_entry w)) CONF_ACTION_PREFIX of None \<Rightarrow> PStr DEFAULT_ACTION_PREFIX | Some p \<Rightarrow> p))
       errors [])"

definition config_step_reconfigure ::
  "(('l, 't, 'x) world, 'z) flow_api_scheme \<Rightarrow> node_input option
     \<Rightarrow> (config_flow \<times> ('l, 't, 'x) world, exn, flow_result) act" where
  "config_step_reconfigure api user_input =
     bindA (on_world (readA (esphome_entries api))) (\<lambda>choices.
       if choices = [] then retA (Abort ''no_esphome_entries'' [])
       else bindA (on_world (readA (\<lambda>w. current_node (w_entry w) choices))) (\<lambda>current.
       case user_input of
         None \<Rightarrow> on_world (reconfigure_form api current [])
       | Some i \<Rightarrow>
           let eid = ni_esphome_entry_id i; pfx = input_prefix i in
           bindA (on_world (async_probe api eid pfx)) (\<lambda>(status, err).
             case status of
               None \<Rightarrow> on_world (reconfigure_form api current [(''base'', probe_error err)])
             | Some s \<Rightarrow>
                 bindA (on_world (readA (ce_unique_id \<circ> w_entry))) (\<lambda>unique_id.
                   if Some (bs_bridge_id s) = unique_id
                   then on_world (rebind api eid pfx ''reconfigure_successful'')
                   else bindA (set_own (\<lambda>f. f\<lparr>cf_replacement := Some (eid, pfx, s)\<rparr>)) (\<lambda>_.
                     config_step_replace api False)))))"

section \<open>Targets\<close>

record target_input =
  ti_name :: string
  ti_target_type :: pyval
  ti_area_id :: "string option"

definition flow_current_area ::
  "(('l, 't, 'x) world, 'z) flow_api_scheme \<Rightarrow> rf_target option \<Rightarrow> ('l, 't, 'x) world \<Rightarrow> string option" where
  "flow_current_area api target w =
     (case target of
        None \<Rightarrow> None
      | Some t \<Rightarrow>
          (case w_runtime w of
             None \<Rightarrow> rt_area_id t
           | Some runtime \<Rightarrow>
               (case async_target_device_area api (w_entry w) (rd_bridge_id runtime) t w of
                  None \<Rightarrow> rt_area_id t | Some a \<Rightarrow> Some a)))"

definition target_schema ::
  "(('l, 't, 'x) world, 'z) flow_api_scheme \<Rightarrow> rf_target option \<Rightarrow> ('l, 't, 'x) world \<Rightarrow> form_field list" where
  "target_schema api target w =
     [\<lparr>ff_key = CONF_NAME, ff_required = True, ff_default = map_option (PStr \<circ> rt_name) target,
       ff_selector = TextSelector\<rparr>,
      \<lparr>ff_key = CONF_TARGET_TYPE, ff_required = True,
       ff_default = Some (PStr (case target of None \<Rightarrow> TARGET_TYPE_GENERIC | Some t \<Rightarrow> rt_target_type t)),
       ff_selector = target_type_selector\<rparr>,
      \<lparr>ff_key = CONF_AREA_ID, ff_required = False,
       ff_default = map_option PStr (flow_current_area api target w), ff_selector = AreaSelector\<rparr>]"

definition name_taken :: "config_entry \<Rightarrow> string option \<Rightarrow> string \<Rightarrow> bool" where
  "name_taken entry except nm =
     list_ex (\<lambda>t. py_casefold (rt_name t) = py_casefold nm \<and> Some (rt_target_id t) \<noteq> except)
       (map snd (targets entry))"

definition unique_id_text :: "string option \<Rightarrow> string" where
  "unique_id_text u = (case u of None \<Rightarrow> ''None'' | Some s \<Rightarrow> s)"

definition target_step_user ::
  "(('l, 't, 'x) world, 'z) flow_api_scheme \<Rightarrow> target_input option
     \<Rightarrow> (('l, 't, 'x) world, exn, flow_result) act" where
  "target_step_user api user_input =
     bindA (readA w_entry) (\<lambda>entry.
     let form = (\<lambda>errors. readA (\<lambda>w. ShowForm ''user'' (target_schema api None w) errors [])) in
     case user_input of
       None \<Rightarrow> form []
     | Some i \<Rightarrow>
         let nm = py_strip (ti_name i) in
         if nm = [] then form [(CONF_NAME, ''name_empty'')]
         else if name_taken entry None nm then form [(CONF_NAME, ''target_name_taken'')]
         else bindA (fa_new_target_id api) (\<lambda>target_id.
           retA (CreateEntry nm
             [(CONF_TARGET_ID, PStr target_id),
              (CONF_TARGET_TYPE, PStr (validate_target_type (ti_target_type i))),
              (CONF_AREA_ID, opt_str (ti_area_id i))]
             (Some (unique_id_text (ce_unique_id entry) @ ''_target_'' @ target_id)))))"

definition target_step_reconfigure ::
  "(('l, 't, 'x) world, 'z) flow_api_scheme \<Rightarrow> string \<Rightarrow> target_input option
     \<Rightarrow> (('l, 't, 'x) world, exn, flow_result) act" where
  "target_step_reconfigure api subentry_id user_input =
     bindA (readA w_entry) (\<lambda>entry.
     case map_of (ce_subentries entry) subentry_id of
       None \<Rightarrow> retA (Abort ''unknown_target'' [])
     | Some subentry \<Rightarrow>
         (case target_from_subentry subentry of
            None \<Rightarrow> retA (Abort ''unknown_target'' [])
          | Some target \<Rightarrow>
              bindA (readA (flow_current_area api (Some target))) (\<lambda>current_area.
              let form = (\<lambda>errors. readA (\<lambda>w.
                ShowForm ''reconfigure'' (target_schema api (Some target) w) errors [])) in
              case user_input of
                None \<Rightarrow> form []
              | Some i \<Rightarrow>
                  let nm = py_strip (ti_name i) in
                  if nm = [] then form [(CONF_NAME, ''name_empty'')]
                  else if name_taken entry (Some (rt_target_id target)) nm
                  then form [(CONF_NAME, ''target_name_taken'')]
                  else
                    bindA (fa_update_subentry api subentry_id nm (dict_merge (se_data subentry)
                      [(CONF_TARGET_TYPE, PStr (validate_target_type (ti_target_type i))),
                       (CONF_AREA_ID, opt_str (ti_area_id i))])) (\<lambda>_.
                    bindA (readA w_runtime) (\<lambda>runtime.
                    bindA
                      (case runtime of
                         None \<Rightarrow> retA ()
                       | Some r \<Rightarrow>
                           if ti_area_id i \<noteq> current_area
                           then bindA (readA w_entry) (\<lambda>entry_now.
                             async_set_target_area api entry_now (rd_bridge_id r) target (ti_area_id i))
                           else retA ())
                      (\<lambda>_. retA (Abort ''reconfigure_successful'' [])))))))"

section \<open>Learning a command\<close>

record learn_steps =
  ls_name :: string
  ls_icon :: "string option"
  ls_target_id :: "string option"
  ls_task :: "learn_task option"

record learn_input =
  li_name :: string
  li_target_id :: "string option"
  li_icon :: "string option"

definition new_learn_steps :: learn_steps where
  "new_learn_steps = \<lparr>ls_name = [], ls_icon = None, ls_target_id = None, ls_task = None\<rparr>"

definition loaded_status :: "('l, 't, 'x) world \<Rightarrow> bridge_status option" where
  "loaded_status w = (case w_runtime w of None \<Rightarrow> None | Some r \<Rightarrow> rd_status r)"

definition chosen_target :: "string option \<Rightarrow> string option" where
  "chosen_target field = (let chosen = (case field of None \<Rightarrow> UNASSIGNED | Some t \<Rightarrow> t) in
     if chosen = UNASSIGNED then None else Some chosen)"

definition chosen_icon :: "string option \<Rightarrow> string option" where
  "chosen_icon field = (let icon = py_strip (case field of None \<Rightarrow> [] | Some i \<Rightarrow> i) in
     if icon = [] then None else Some icon)"

text \<open>\<open>a or b\<close> on an optional string, and the type a command's target gives it.\<close>

definition str_or :: "string option \<Rightarrow> string \<Rightarrow> string" where
  "str_or a b = (case a of None \<Rightarrow> b | Some x \<Rightarrow> if x = [] then b else x)"

definition target_type_of :: "rf_target option \<Rightarrow> string" where
  "target_type_of target = (case target of None \<Rightarrow> TARGET_TYPE_GENERIC | Some t \<Rightarrow> rt_target_type t)"

definition learn_form :: "config_entry \<Rightarrow> (string, string) dict \<Rightarrow> flow_result" where
  "learn_form entry errors = ShowForm ''learn_command''
     [\<lparr>ff_key = CONF_NAME, ff_required = True, ff_default = None, ff_selector = TextSelector\<rparr>,
      \<lparr>ff_key = CONF_TARGET_ID, ff_required = False, ff_default = Some (PStr UNASSIGNED),
       ff_selector = target_selector entry\<rparr>,
      \<lparr>ff_key = CONF_ICON, ff_required = False, ff_default = None, ff_selector = IconSelector\<rparr>]
     errors []"

definition learn_step_learn ::
  "(('l, 't, 'x) world, 'z) flow_api_scheme
     \<Rightarrow> ('f learn_steps_scheme \<times> ('l, 't, 'x) world, exn, flow_result) act" where
  "learn_step_learn api =
     bindA (on_world (readA w_runtime)) (\<lambda>runtime.
       case runtime of
         None \<Rightarrow> retA (Abort ''not_loaded'' [])
       | Some r \<Rightarrow>
           bindA (own ls_name) (\<lambda>nm.
           bindA (own ls_task) (\<lambda>task.
           bindA
             (case task of
                Some running \<Rightarrow> retA running
              | None \<Rightarrow>
                  bindA (on_world (readA (ca_monotonic api))) (\<lambda>now.
                  bindA (on_world (on_reconciler (async_reserve now nm))) (\<lambda>_.
                  bindA (on_world (fa_create_learn_task api (rd_transport r) nm)) (\<lambda>created.
                  bindA (set_own (\<lambda>s. s\<lparr>ls_task := Some created\<rparr>)) (\<lambda>_. retA created)))))
             (\<lambda>running. retA (case running of
                TaskRunning \<Rightarrow> ShowProgress ''learn'' ''learning'' [(''name'', nm)]
              | TaskDone _ \<Rightarrow> ShowProgressDone ''learned'')))))"

definition learn_step_command ::
  "(('l, 't, 'x) world, 'z) flow_api_scheme \<Rightarrow> learn_input option
     \<Rightarrow> ('f learn_steps_scheme \<times> ('l, 't, 'x) world, exn, flow_result) act" where
  "learn_step_command api user_input =
     bindA (on_world (readA w_entry)) (\<lambda>entry.
     bindA (on_world (readA loaded_status)) (\<lambda>held.
       case held of
         None \<Rightarrow> retA (Abort ''not_loaded'' [])
       | Some status \<Rightarrow>
           if \<not> accepts_mutations status then retA (Abort ''not_writable'' [])
           else if is_full status then retA (Abort ''registry_full'' [])
           else case user_input of
             None \<Rightarrow> retA (learn_form entry [])
           | Some i \<Rightarrow>
               let nm = py_strip (li_name i) in
               case validate_command_name nm of
                 Some problem \<Rightarrow> retA (learn_form entry [(CONF_NAME, problem)])
               | None \<Rightarrow>
                   if map_of (by_name status) nm \<noteq> None
                   then retA (learn_form entry [(CONF_NAME, ''name_taken'')])
                   else bindA (set_own (\<lambda>s. s\<lparr>ls_name := nm, ls_target_id := chosen_target (li_target_id i),
                          ls_icon := chosen_icon (li_icon i)\<rparr>)) (\<lambda>_.
                     learn_step_learn api)))"

definition learn_failed :: "string \<Rightarrow> string \<Rightarrow> (('l, 't, 'x) world, exn, flow_result) act" where
  "learn_failed nm detail =
     bindA (on_reconciler (async_release nm)) (\<lambda>_. retA (Abort ''learn_failed'' [(''detail'', detail)]))"

definition learn_step_learned ::
  "(('l, 't, 'x) world, 'z) flow_api_scheme
     \<Rightarrow> ('f learn_steps_scheme \<times> ('l, 't, 'x) world, exn, flow_result) act" where
  "learn_step_learned api =
     bindA (own ls_task) (\<lambda>task. bindA (own id) (\<lambda>s. on_world (
     bindA (readA w_entry) (\<lambda>entry.
     bindA (readA w_runtime) (\<lambda>runtime.
       case task of
         None \<Rightarrow> raiseA AssertionError
       | Some t \<Rightarrow>
           if runtime = None then retA (Abort ''not_loaded'' [])
           else (case t of
             TaskRunning \<Rightarrow> raiseA (OtherError ''InvalidStateError'')
           | TaskDone (Inl err) \<Rightarrow>
               if is_ha_error err then learn_failed (ls_name s) (exn_str err) else raiseA err
           | TaskDone (Inr outcome) \<Rightarrow>
               (case lo_command_id outcome of
                  None \<Rightarrow> learn_failed (ls_name s) (if lo_detail outcome = [] then ''unknown'' else lo_detail outcome)
                | Some command_id \<Rightarrow>
                    if \<not> lo_succeeded outcome
                    then learn_failed (ls_name s) (if lo_detail outcome = [] then ''unknown'' else lo_detail outcome)
                    else
                      let target = map_of (targets entry) (case ls_target_id s of None \<Rightarrow> [] | Some x \<Rightarrow> x);
                          icon = str_or (ls_icon s) (suggest_icon (lo_name outcome) (target_type_of target))
                      in bindA (fa_update_options api (options_with entry
                            [(command_id, \<lparr>cm_target_id = map_option rt_target_id target, cm_icon = Some icon\<rparr>)])) (\<lambda>_.
                         bindA (on_reconciler (async_release (ls_name s))) (\<lambda>_.
                         retA (Abort ''learned''
                           [(''name'', lo_name outcome),
                            (''target'', case target of Some x \<Rightarrow> rt_name x | None \<Rightarrow> ''Unassigned'')]))))))))))"

definition learn_flow_step_user ::
  "(('l, 't, 'x) world, 'z) flow_api_scheme
     \<Rightarrow> ('f learn_steps_scheme \<times> ('l, 't, 'x) world, exn, flow_result) act" where
  "learn_flow_step_user api = learn_step_command api None"

section \<open>Managing commands\<close>

record options_flow = learn_steps +
  of_command_id :: "int option"

record command_input =
  oi_delete :: bool
  oi_name :: string
  oi_target_id :: "string option"
  oi_icon :: "string option"

definition options_step_init ::
  "(options_flow \<times> ('l, 't, 'x) world, exn, flow_result) act" where
  "options_step_init =
     bindA (on_world (readA w_runtime)) (\<lambda>runtime.
       retA (if runtime = None then Abort ''not_loaded'' []
         else ShowMenu ''init'' [''learn_command'', ''manage_command'']))"

definition command_form ::
  "config_entry \<Rightarrow> selector \<Rightarrow> int \<Rightarrow> command_info \<Rightarrow> (string, string) dict \<Rightarrow> flow_result" where
  "command_form entry picker command_id command errors =
     (let current = assigned_target entry command_id;
          icon = str_or (cm_icon (meta_for entry command_id))
            (suggest_icon (ci_name command) (target_type_of current))
      in ShowForm ''command''
        [\<lparr>ff_key = CONF_NAME, ff_required = True, ff_default = Some (PStr (ci_name command)), ff_selector = TextSelector\<rparr>,
         \<lparr>ff_key = CONF_TARGET_ID, ff_required = False,
          ff_default = Some (PStr (case current of Some t \<Rightarrow> rt_target_id t | None \<Rightarrow> UNASSIGNED)),
          ff_selector = picker\<rparr>,
         \<lparr>ff_key = CONF_ICON, ff_required = False, ff_default = Some (PStr icon), ff_selector = IconSelector\<rparr>,
         \<lparr>ff_key = ''delete'', ff_required = False, ff_default = Some (PBool False), ff_selector = BoolField\<rparr>]
        errors [(''name'', ci_name command)])"

definition with_command ::
  "(options_flow \<times> ('l, 't, 'x) world, exn, int \<times> bridge_status \<times> command_info + flow_result) act" where
  "with_command =
     bindA (on_world (readA loaded_status)) (\<lambda>held.
     bindA (own of_command_id) (\<lambda>chosen.
       retA (case (held, chosen) of
         (Some status, Some command_id) \<Rightarrow>
           (case map_of (by_id status) command_id of
              None \<Rightarrow> Inr (Abort ''unknown_command'' [])
            | Some command \<Rightarrow> Inl (command_id, status, command))
       | _ \<Rightarrow> Inr (Abort ''not_loaded'' []))))"

definition loaded_transport :: "('l, 't, 'x) world \<Rightarrow> transport" where
  "loaded_transport w =
     (case w_runtime w of Some r \<Rightarrow> rd_transport r | None \<Rightarrow> node_transport [] [])"

definition options_step_confirm_delete ::
  "(('l, 't, 'x) world, 'z) flow_api_scheme \<Rightarrow> bool
     \<Rightarrow> (options_flow \<times> ('l, 't, 'x) world, exn, flow_result) act" where
  "options_step_confirm_delete api confirmed =
     bindA with_command (\<lambda>found.
       case found of
         Inr result \<Rightarrow> retA result
       | Inl (command_id, status, command) \<Rightarrow>
           if \<not> confirmed then retA (ShowForm ''confirm_delete'' [] [] [(''name'', ci_name command)])
           else if \<not> accepts_mutations status then retA (Abort ''not_writable'' [])
           else bindA (on_world (readA loaded_transport)) (\<lambda>t.
             catchA
               (bindA (on_world (coordinator_delete api t command_id (ci_name command)))
                 (\<lambda>_. retA (Abort ''command_deleted'' [(''name'', ci_name command)])))
               (\<lambda>err. if is_ha_error err then retA (Abort ''delete_failed'' [(''detail'', exn_str err)])
                  else raiseA err)))"

definition save_command ::
  "(('l, 't, 'x) world, 'z) flow_api_scheme \<Rightarrow> int \<Rightarrow> command_input
     \<Rightarrow> (('l, 't, 'x) world, exn, flow_result) act" where
  "save_command api command_id i =
     bindA (readA w_entry) (\<lambda>entry.
     bindA (fa_update_options api (options_with entry
       [(command_id, \<lparr>cm_target_id = chosen_target (oi_target_id i), cm_icon = chosen_icon (oi_icon i)\<rparr>)])) (\<lambda>_.
     retA (Abort ''command_saved'' [])))"

definition options_step_command ::
  "(('l, 't, 'x) world, 'z) flow_api_scheme \<Rightarrow> command_input option
     \<Rightarrow> (options_flow \<times> ('l, 't, 'x) world, exn, flow_result) act" where
  "options_step_command api user_input =
     bindA (on_world (readA w_entry)) (\<lambda>entry.
     bindA with_command (\<lambda>found.
       case found of
         Inr result \<Rightarrow> retA result
       | Inl (command_id, status, command) \<Rightarrow>
           (case user_input of
              None \<Rightarrow> retA (command_form entry (target_selector entry) command_id command [])
            | Some i \<Rightarrow>
                if oi_delete i then options_step_confirm_delete api False
                else
                  let nm = py_strip (oi_name i) in
                  case validate_command_name nm of
                    Some problem \<Rightarrow> retA (command_form entry (target_selector entry) command_id command [(CONF_NAME, problem)])
                  | None \<Rightarrow>
                      if (case map_of (by_name status) nm of None \<Rightarrow> False
                          | Some taken_by \<Rightarrow> ci_command_id taken_by \<noteq> command_id)
                      then retA (command_form entry (target_selector entry) command_id command [(CONF_NAME, ''name_taken'')])
                      else if nm = ci_name command then on_world (save_command api command_id i)
                      else if \<not> accepts_mutations status then retA (Abort ''not_writable'' [])
                      else bindA (on_world (readA loaded_transport)) (\<lambda>t.
                        bindA
                          (catchA
                            (bindA (on_world (coordinator_rename api t command_id nm)) (\<lambda>_. retA True))
                            (\<lambda>err. if is_ha_error err then retA False else raiseA err))
                          (\<lambda>renamed.
                            if renamed then on_world (save_command api command_id i)
                            else bindA (on_world (readA (target_selector \<circ> w_entry))) (\<lambda>picker.
                              retA (command_form entry picker command_id command [(''base'', ''rename_failed'')])))))))"

definition options_step_manage ::
  "(('l, 't, 'x) world, 'z) flow_api_scheme \<Rightarrow> string option
     \<Rightarrow> (options_flow \<times> ('l, 't, 'x) world, exn, flow_result) act" where
  "options_step_manage api user_input =
     bindA (on_world (readA w_entry)) (\<lambda>entry.
     bindA (on_world (readA loaded_status)) (\<lambda>held.
       case held of
         None \<Rightarrow> retA (Abort ''not_loaded'' [])
       | Some status \<Rightarrow>
           if bs_commands status = [] then retA (Abort ''no_commands'' [])
           else case user_input of
             None \<Rightarrow> retA (ShowForm ''manage_command''
               [\<lparr>ff_key = CONF_COMMAND_ID, ff_required = True, ff_default = None,
                 ff_selector = command_selector entry status\<rparr>] [] [])
           | Some text \<Rightarrow>
               bindA (liftE (py_int (PStr text))) (\<lambda>command_id.
               bindA (set_own (\<lambda>s. s\<lparr>of_command_id := Some command_id\<rparr>)) (\<lambda>_.
               options_step_command api None))))"

end
