(* ===== verification/FlowLearn.thy ===== *)
theory FlowLearn
  imports Flows
begin

text \<open>
  What the flows that learn and manage commands promise: a learn ends with the command placed or
  with nothing changed, it starts only under a name the bridge can take and that is held from
  then on, and saving a command's organisation asks the bridge for nothing but a rename.
\<close>

section \<open>Lemmas: what a flow stores\<close>

text \<open>
  Home Assistant's update of an entry changes the field it is given and nothing else of what the
  flow sees, and does not fail; the entry's update listener runs as an event of its own.
\<close>

definition stores_options :: "(('l, 't, 'x) world, 'z) flow_api_scheme \<Rightarrow> bool" where
  "stores_options api \<longleftrightarrow> (\<forall>opts w r w'. fa_update_options api opts w = (r, w') \<longrightarrow>
     r = Inr () \<and> w_entry w' = (w_entry w)\<lparr>ce_options := opts\<rparr> \<and> w_runtime w' = w_runtime w)"

definition stores_data :: "(('l, 't, 'x) world, 'z) flow_api_scheme \<Rightarrow> bool" where
  "stores_data api \<longleftrightarrow> (\<forall>data w r w'. fa_update_data api data w = (r, w') \<longrightarrow>
     r = Inr () \<and> w_entry w' = (w_entry w)\<lparr>ce_data := data\<rparr> \<and> w_runtime w' = w_runtime w)"

lemma stores_optionsD:
  assumes "stores_options api"
  obtains w' where "fa_update_options api opts w = (Inr (), w')"
    and "w_entry w' = (w_entry w)\<lparr>ce_options := opts\<rparr>" and "w_runtime w' = w_runtime w"
  using assms unfolding stores_options_def by (metis (full_types) prod.exhaust_sel)

lemma stores_dataD:
  assumes "stores_data api"
  obtains w' where "fa_update_data api data w = (Inr (), w')"
    and "w_entry w' = (w_entry w)\<lparr>ce_data := data\<rparr>" and "w_runtime w' = w_runtime w"
  using assms unfolding stores_data_def by (metis (full_types) prod.exhaust_sel)

text \<open>Placing one command changes what is read of that command and of no other.\<close>

lemma meta_for_options_with:
  assumes "wf_meta m"
  shows "meta_for (entry\<lparr>ce_options := options_with entry [(k, m)]\<rparr>) k' = (if k' = k then m else meta_for entry k')"
proof -
  have "is_empty m \<Longrightarrow> m = empty_meta" by (cases m) (simp add: is_empty_def empty_meta_def)
  then show ?thesis
    unfolding meta_for_def
    by (auto simp: meta_options.look_put_one [OF assms])
qed

lemma targets_no_empty_key: "map_of (targets entry) [] = None"
proof -
  have "k \<noteq> []" if "(k, t) \<in> set (targets entry)" for k t
  proof -
    from that have "(k, t) \<in> set (map (\<lambda>t. (rt_target_id t, t))
        (List.map_filter target_from_subentry (map snd (ce_subentries entry))))"
      unfolding targets_def by (rule dict_of_values)
    then show ?thesis
      by (auto simp: List.map_filter_def target_from_subentry_def split: if_splits option.splits)
  qed
  then have "[] \<notin> set (dict_keys (targets entry))" by (metis imageE list.set_map prod.collapse)
  then show ?thesis by (simp add: map_of_eq_None_iff)
qed

lemma targets_lookup_key: "map_of (targets entry) k = Some t \<Longrightarrow> rt_target_id t = k"
  by (drule map_of_SomeD) (rule targets_key)

lemma on_reconciler_run:
  "on_reconciler f w = (Inr (), w\<lparr>w_runtime := map_option (\<lambda>r. r\<lparr>rd_reconciler := f (rd_reconciler r)\<rparr>) (w_runtime w)\<rparr>)"
  by (simp add: on_reconciler_def)

text \<open>The names a learn flow still holds.\<close>

definition reserved_names :: "('l, 't, 'x) world \<Rightarrow> string set" where
  "reserved_names w = (case w_runtime w of None \<Rightarrow> {} | Some r \<Rightarrow> fst ` set (rc_reserved (rd_reconciler r)))"

lemma release_reserved [simp]:
  "reserved_names (snd (on_reconciler (async_release nm) w)) = reserved_names w - {nm}"
proof -
  have "fst ` set (AList.delete nm d) = fst ` set d - {nm}" for d :: "(string, rat) dict"
    by (auto simp: AList.delete_eq)
  then show ?thesis
    by (cases "w_runtime w") (simp_all add: reserved_names_def on_reconciler_def async_release_def)
qed

lemma str_or_not_empty: "b \<noteq> [] \<Longrightarrow> str_or a b \<noteq> []"
  by (simp add: str_or_def split: option.split)

text \<open>The end of a learn, branch by branch.\<close>

definition learned_target :: "'f learn_steps_scheme \<Rightarrow> config_entry \<Rightarrow> rf_target option" where
  "learned_target s entry = (case ls_target_id s of None \<Rightarrow> None | Some t \<Rightarrow> map_of (targets entry) t)"

lemma learn_failed_run:
  "learn_failed nm detail w =
     (Inr (Abort ''learn_failed'' [(''detail'', detail)]), snd (on_reconciler (async_release nm) w))"
  by (simp add: learn_failed_def bindA_def on_reconciler_def)

lemma learned_run:
  assumes "ls_task s = Some (TaskDone (Inr outcome))" and "lo_succeeded outcome"
    and "lo_command_id outcome = Some k" and "w_runtime w \<noteq> None" and "stores_options api"
  shows "\<exists>w1. w_runtime w1 = w_runtime w \<and>
    w_entry w1 = (w_entry w)\<lparr>ce_options := options_with (w_entry w)
      [(k, \<lparr>cm_target_id = map_option rt_target_id (map_of (targets (w_entry w)) (case ls_target_id s of None \<Rightarrow> [] | Some x \<Rightarrow> x)),
        cm_icon = Some (str_or (ls_icon s) (suggest_icon (lo_name outcome)
          (target_type_of (map_of (targets (w_entry w)) (case ls_target_id s of None \<Rightarrow> [] | Some x \<Rightarrow> x)))))\<rparr>)]\<rparr> \<and>
    learn_step_learned api (s, w) =
      (Inr (Abort ''learned'' [(''name'', lo_name outcome),
         (''target'', case map_of (targets (w_entry w)) (case ls_target_id s of None \<Rightarrow> [] | Some x \<Rightarrow> x) of
            Some x \<Rightarrow> rt_name x | None \<Rightarrow> ''Unassigned'')]),
       (s, snd (on_reconciler (async_release (ls_name s)) w1)))"
proof -
  let ?t = "map_of (targets (w_entry w)) (case ls_target_id s of None \<Rightarrow> [] | Some x \<Rightarrow> x)"
  let ?opts = "options_with (w_entry w) [(k, \<lparr>cm_target_id = map_option rt_target_id ?t,
        cm_icon = Some (str_or (ls_icon s) (suggest_icon (lo_name outcome) (target_type_of ?t)))\<rparr>)]"
  obtain w1 where upd: "fa_update_options api ?opts w = (Inr (), w1)"
      and "w_entry w1 = (w_entry w)\<lparr>ce_options := ?opts\<rparr>" and "w_runtime w1 = w_runtime w"
    using stores_optionsD [OF assms(5)] .
  moreover have "bindA (fa_update_options api ?opts) f w = f () w1" for f :: "unit \<Rightarrow> (_, exn, flow_result) act"
    by (rule bindA_Inr) (rule upd)
  moreover have "bindA (on_reconciler g) f w1 = f () (snd (on_reconciler g w1))" for g and f :: "unit \<Rightarrow> (_, exn, flow_result) act"
    by (simp add: bindA_def on_reconciler_def)
  ultimately show ?thesis
    using assms(1-4) by (intro exI [of _ w1]) (simp add: learn_step_learned_def bindA_def Let_def)
qed

lemma learned_target_lookup:
  "map_of (targets entry) (case ls_target_id s of None \<Rightarrow> [] | Some x \<Rightarrow> x) = learned_target s entry"
  by (simp add: learned_target_def targets_no_empty_key split: option.split)

definition placed_icon :: "'f learn_steps_scheme \<Rightarrow> learn_outcome \<Rightarrow> config_entry \<Rightarrow> string" where
  "placed_icon s outcome entry =
     str_or (ls_icon s) (suggest_icon (lo_name outcome) (target_type_of (learned_target s entry)))"

lemma assigned_target_meta:
  "cm_target_id (meta_for entry k) = map_option rt_target_id t \<Longrightarrow>
     (case t of None \<Rightarrow> True | Some x \<Rightarrow> map_of (targets entry) (rt_target_id x) = Some x) \<Longrightarrow>
   assigned_target entry k = t"
  by (cases t) (simp_all add: assigned_target_def)

lemma learned_placement:
  assumes "ls_task s = Some (TaskDone (Inr outcome))" and "lo_succeeded outcome"
    and "lo_command_id outcome = Some k" and "w_runtime w \<noteq> None" and "stores_options api"
  obtains w' placeholders where "learn_step_learned api (s, w) = (Inr (Abort ''learned'' placeholders), (s, w'))"
    and "ls_name s \<notin> reserved_names w'"
    and "assigned_target (w_entry w') k = learned_target s (w_entry w)"
    and "cm_icon (meta_for (w_entry w') k) = Some (placed_icon s outcome (w_entry w))"
    and "\<And>k'. k' \<noteq> k \<Longrightarrow> meta_for (w_entry w') k' = meta_for (w_entry w) k'"
    and "\<And>opts. (w_entry w')\<lparr>ce_options := opts\<rparr> = (w_entry w)\<lparr>ce_options := opts\<rparr>"
proof -
  let ?t = "learned_target s (w_entry w)"
  let ?m = "\<lparr>cm_target_id = map_option rt_target_id ?t, cm_icon = Some (placed_icon s outcome (w_entry w))\<rparr>"
  obtain w1 ph where
    entry: "w_entry w1 = (w_entry w)\<lparr>ce_options := options_with (w_entry w) [(k, ?m)]\<rparr>" and
    run: "learn_step_learned api (s, w) =
      (Inr (Abort ''learned'' ph), (s, snd (on_reconciler (async_release (ls_name s)) w1)))"
    using learned_run [OF assms] unfolding learned_target_lookup placed_icon_def by blast
  have key: "case ?t of None \<Rightarrow> True | Some x \<Rightarrow>
      map_of (targets (w_entry w)) (rt_target_id x) = Some x \<and> rt_target_id x \<noteq> []"
    using targets_lookup_key targets_no_empty_key
    by (fastforce simp: learned_target_def split: option.splits)
  have wf: "wf_meta ?m"
    using key by (auto simp: wf_meta_def placed_icon_def str_or_not_empty suggest_icon_not_empty split: option.splits)
  let ?w' = "snd (on_reconciler (async_release (ls_name s)) w1)"
  have same: "w_entry ?w' = w_entry w1" by (simp add: on_reconciler_def)
  note meta = meta_for_options_with [OF wf, of "w_entry w" k]
  show ?thesis
  proof (rule that [OF run])
    show "assigned_target (w_entry ?w') k = ?t"
      using key by (intro assigned_target_meta) (auto simp: same entry meta split: option.splits)
  qed (simp_all add: same entry meta)
qed

lemma unlearned_run:
  assumes "ls_task s = Some (TaskDone outcome)" and "w_runtime w \<noteq> None"
    and "\<not> (\<exists>x k. outcome = Inr x \<and> lo_succeeded x \<and> lo_command_id x = Some k)"
    and "learn_step_learned api (s, w) = (Inr result, s', w')"
  shows "\<exists>detail. result = Abort ''learn_failed'' [(''detail'', detail)] \<and> s' = s \<and>
    w' = snd (on_reconciler (async_release (ls_name s)) w)"
proof -
  obtain rt where rt: "w_runtime w = Some rt" using assms(2) by blast
  show ?thesis
  proof (cases outcome)
    case (Inl err)
    with assms rt show ?thesis
      by (cases "is_ha_error err") (auto simp: learn_step_learned_def learn_failed_run bindA_def)
  next
    case (Inr x)
    with assms rt show ?thesis
      by (cases "lo_command_id x"; cases "lo_succeeded x")
        (auto simp: learn_step_learned_def learn_failed_run bindA_def)
  qed
qed

section \<open>Properties: learning\<close>

text \<open>The command a finished capture has left on the bridge, if it has.\<close>

definition captured_as :: "exn + learn_outcome \<Rightarrow> (int \<times> string) option" where
  "captured_as outcome =
     (case outcome of
        Inl _ \<Rightarrow> None
      | Inr x \<Rightarrow> if lo_succeeded x then map_option (\<lambda>k. (k, lo_name x)) (lo_command_id x) else None)"

text \<open>
  C37: However a learn ends, the flow ends clean: the name it held is free again, and either the
  capture succeeded, the command has the target the user chose (when there still is one) and an
  icon, and no other command's organisation has changed, or the capture did not succeed, the
  user is told so, and the entry is untouched.
\<close>

theorem learn_ends_clean:
  assumes "stores_options api" and "w_runtime w \<noteq> None" and "ls_task s = Some (TaskDone outcome)"
    and "learn_step_learned api (s, w) = (Inr result, s', w')"
  shows "ls_name s \<notin> reserved_names w' \<and>
    (case captured_as outcome of
       Some (k, nm) \<Rightarrow>
         assigned_target (w_entry w') k = learned_target s (w_entry w) \<and>
         cm_icon (meta_for (w_entry w') k) =
           Some (str_or (ls_icon s) (suggest_icon nm (target_type_of (learned_target s (w_entry w))))) \<and>
         (\<forall>k'. k' \<noteq> k \<longrightarrow> meta_for (w_entry w') k' = meta_for (w_entry w) k')
     | None \<Rightarrow> w_entry w' = w_entry w \<and> (\<exists>detail. result = Abort ''learn_failed'' [(''detail'', detail)]))"
proof (cases "\<exists>x k. outcome = Inr x \<and> lo_succeeded x \<and> lo_command_id x = Some k")
  case True
  then obtain x k where x: "outcome = Inr x" "lo_succeeded x" "lo_command_id x = Some k" by blast
  obtain w1 ph where run: "learn_step_learned api (s, w) = (Inr (Abort ''learned'' ph), (s, w1))"
    and placed: "ls_name s \<notin> reserved_names w1"
      "assigned_target (w_entry w1) k = learned_target s (w_entry w)"
      "cm_icon (meta_for (w_entry w1) k) = Some (placed_icon s x (w_entry w))"
      "\<And>k'. k' \<noteq> k \<Longrightarrow> meta_for (w_entry w1) k' = meta_for (w_entry w) k'"
    using learned_placement [OF assms(3) [unfolded x(1)] x(2,3) assms(2,1)] by metis
  from run assms(4) have "w' = w1" by simp
  with placed x show ?thesis by (simp add: placed_icon_def captured_as_def)
next
  case False
  from unlearned_run [OF assms(3,2) this assms(4)]
  have "w' = snd (on_reconciler (async_release (ls_name s)) w)"
    and "\<exists>detail. result = Abort ''learn_failed'' [(''detail'', detail)]" by blast+
  moreover from this(1) have "w_entry w' = w_entry w" by (simp add: on_reconciler_def)
  ultimately show ?thesis
    using False by (auto simp: captured_as_def split: sum.split)
qed

fun is_learning :: "flow_result \<Rightarrow> bool" where
  "is_learning (ShowProgress _ _ _) = True"
| "is_learning (ShowProgressDone _) = True"
| "is_learning _ = False"

lemma learn_form_not_learning [simp]: "\<not> is_learning (learn_form entry errors)"
  by (simp add: learn_form_def)

text \<open>
  A learn is started only when it can end well: the registry of the loaded bridge accepts
  mutations and is not full, the name without the blanks around it is acceptable and not listed,
  and when the bridge is asked to arm, the name is already held, so no poll in between shows the
  command before it has been placed.
\<close>

theorem learn_starts_reserved:
  assumes "learn_step_command api (Some i) (s, w) = (Inr result, s', w')" and "ls_task s = None"
    and "is_learning result"
  shows "\<exists>runtime status w1 task. w_runtime w = Some runtime \<and> rd_status runtime = Some status \<and>
    accepts_mutations status \<and> \<not> is_full status \<and>
    validate_command_name (py_strip (li_name i)) = None \<and>
    (\<forall>c \<in> set (bs_commands status). ci_name c \<noteq> py_strip (li_name i)) \<and>
    py_strip (li_name i) \<in> reserved_names w1 \<and>
    fa_create_learn_task api (rd_transport runtime) (py_strip (li_name i)) w1 = (Inr task, w') \<and>
    ls_name s' = py_strip (li_name i) \<and> ls_task s' = Some task"
proof -
  let ?nm = "py_strip (li_name i)"
  let ?s1 = "s\<lparr>ls_name := ?nm, ls_target_id := chosen_target (li_target_id i), ls_icon := chosen_icon (li_icon i)\<rparr>"
  note run = assms(1) [unfolded learn_step_command_def, simplified bindA_def, simplified]
  obtain status where status: "loaded_status w = Some status"
    using assms(3) run by (cases "loaded_status w") auto
  then obtain runtime where runtime: "w_runtime w = Some runtime" and read: "rd_status runtime = Some status"
    by (auto simp: loaded_status_def split: option.splits)
  have writable: "accepts_mutations status" "\<not> is_full status"
    using assms(3) run status by (auto split: if_splits)
  have valid: "validate_command_name ?nm = None"
    using assms(3) run status writable
    by (cases "validate_command_name ?nm") (auto simp: Let_def)
  have free: "map_of (by_name status) ?nm = None"
    using assms(3) run status writable valid
    by (cases "map_of (by_name status) ?nm") (auto simp: Let_def)
  have step: "learn_step_learn api (?s1, w) = (Inr result, s', w')"
    using run status writable valid free by (simp add: Let_def bindA_def)
  let ?w1 = "snd (on_reconciler (async_reserve (ca_monotonic api w) ?nm) w)"
  obtain x w2 where call: "fa_create_learn_task api (rd_transport runtime) ?nm ?w1 = (x, w2)"
    by (cases "fa_create_learn_task api (rd_transport runtime) ?nm ?w1")
  note call1 = call [unfolded on_reconciler_run, simplified, unfolded runtime, simplified]
  obtain task where x: "x = Inr task"
    using step runtime assms(2) call1
    by (cases x) (simp_all add: learn_step_learn_def bindA_def on_reconciler_run)
  have s': "s' = ?s1\<lparr>ls_task := Some task\<rparr>" and "w2 = w'"
    using step runtime assms(2) call1 x
    by (simp_all add: learn_step_learn_def bindA_def on_reconciler_run)
  with call x have created: "fa_create_learn_task api (rd_transport runtime) ?nm ?w1 = (Inr task, w')" by simp
  have "?nm \<in> reserved_names ?w1"
    by (simp add: reserved_names_def on_reconciler_run runtime async_reserve_def dom_update)
  moreover have "\<forall>c \<in> set (bs_commands status). ci_name c \<noteq> ?nm"
    using free by (metis by_name_None_iff imageI)
  ultimately show ?thesis
    using runtime read writable valid created s' by auto
qed

text \<open>A world with the demo entry loaded, in which every call to a node answers with a status.\<close>

definition demo_status_payload :: pyval where
  "demo_status_payload = PDict
     [(''bridge_id'', PStr ''b1''), (''revision'', PInt 7), (''next_command_id'', PInt 5)]"

definition demo_flow_api :: "((unit, string, unit) world) flow_api" where
  "demo_flow_api = \<lparr>
     h_get_entry = (\<lambda>w i. if i = ''n2'' then Some demo_node_entry else None),
     h_has_service = (\<lambda>w d s. True),
     h_call = (\<lambda>d s data r w. (Inr demo_status_payload, w)),
     ca_monotonic = (\<lambda>w. 0), ca_sleep = (\<lambda>d w. (Inr (), w)), ca_request_refresh = (\<lambda>w. (Inr (), w)),
     dv_get_or_create = (\<lambda>spec w. (Inl (OtherError ''unused''), w)), dv_update = (\<lambda>k u w. (Inr None, w)),
     dv_by_identifier = (\<lambda>w i e. None), dv_by_mac = (\<lambda>w m e. None), dv_format_mac = id,
     fa_entries = (\<lambda>w d. [demo_node_entry]),
     fa_set_unique_id = (\<lambda>u w. (Inr (), w)), fa_abort_if_configured = (\<lambda>u w. (Inr (), w)),
     fa_update_data = (\<lambda>d w. (Inr (), w\<lparr>w_entry := (w_entry w)\<lparr>ce_data := d\<rparr>\<rparr>)),
     fa_update_options = (\<lambda>d w. (Inr (), w\<lparr>w_entry := (w_entry w)\<lparr>ce_options := d\<rparr>\<rparr>)),
     fa_update_subentry = (\<lambda>k t d w. (Inr (), w\<lparr>w_entry := (w_entry w)\<lparr>ce_subentries :=
       map (\<lambda>(i, s). (i, if i = k then s\<lparr>se_title := t, se_data := d\<rparr> else s)) (ce_subentries (w_entry w))\<rparr>\<rparr>)),
     fa_new_target_id = (\<lambda>w. (Inr (CHR ''t'' # concat (dict_keys (targets (w_entry w)))), w)),
     fa_create_learn_task = (\<lambda>t nm w. (Inr TaskRunning, w))\<rparr>"

definition demo_world :: "(unit, string, unit) world" where
  "demo_world = \<lparr>w_entry = demo_entry, w_runtime = Some demo_runtime, w_outside = ()\<rparr>"

lemma demo_flow_stores: "stores_options demo_flow_api" "stores_data demo_flow_api"
  by (simp_all add: stores_options_def stores_data_def demo_flow_api_def)

theorem learn_starts_reserved_witness:
  "\<exists>w'. fst (learn_step_command demo_flow_api (Some \<lparr>li_name = '' gate '', li_target_id = None, li_icon = None\<rparr>)
       (new_learn_steps, demo_world)) = Inr (ShowProgress ''learn'' ''learning'' [(''name'', ''gate'')]) \<and>
     w' = snd (snd (learn_step_command demo_flow_api (Some \<lparr>li_name = '' gate '', li_target_id = None, li_icon = None\<rparr>)
       (new_learn_steps, demo_world))) \<and> bs_read_only demo_status = False"
proof -
  let ?run = "learn_step_command demo_flow_api (Some \<lparr>li_name = '' gate '', li_target_id = None, li_icon = None\<rparr>)
       (new_learn_steps, demo_world)"
  have "fst ?run = Inr (ShowProgress ''learn'' ''learning'' [(''name'', ''gate'')])" by code_simp
  moreover obtain s' w' where "?run = (fst ?run, s', w')" by (metis prod.collapse)
  ultimately have run: "?run = (Inr (ShowProgress ''learn'' ''learning'' [(''name'', ''gate'')]), s', w')" by simp
  have "ls_task new_learn_steps = None" by (simp add: new_learn_steps_def)
  from learn_starts_reserved [OF run this] have "accepts_mutations demo_status"
    by (auto simp: demo_world_def demo_runtime_def)
  with run show ?thesis by (simp add: accepts_mutations_def)
qed

theorem learn_ends_clean_witness:
  "\<exists>s' w' result. learn_step_learned demo_flow_api
       (new_learn_steps\<lparr>ls_name := ''spin'', ls_target_id := Some ''t1'',
          ls_task := Some (TaskDone (Inr \<lparr>lo_succeeded = True, lo_command_id = Some 5, lo_name = ''spin'', lo_detail = ''ok''\<rparr>))\<rparr>,
        demo_world) = (Inr result, s', w') \<and>
     map_option rt_name (assigned_target (w_entry w') 5) = Some ''Fan'' \<and>
     cm_icon (meta_for (w_entry w') 5) = Some ''mdi:fan''"
proof -
  let ?s = "new_learn_steps\<lparr>ls_name := ''spin'', ls_target_id := Some ''t1'',
          ls_task := Some (TaskDone (Inr \<lparr>lo_succeeded = True, lo_command_id = Some 5, lo_name = ''spin'', lo_detail = ''ok''\<rparr>))\<rparr>"
  let ?run = "learn_step_learned demo_flow_api (?s, demo_world)"
  have "isl (fst ?run) = False"
    by (simp add: learn_step_learned_def demo_flow_api_def demo_world_def on_reconciler_def bindA_def Let_def new_learn_steps_def)
  then obtain result s' w' where run: "?run = (Inr result, s', w')" by (metis isl_def sum.exhaust prod.collapse)
  have "w_runtime demo_world \<noteq> None" by (simp add: demo_world_def)
  moreover have "ls_task ?s = Some (TaskDone (Inr \<lparr>lo_succeeded = True, lo_command_id = Some 5, lo_name = ''spin'', lo_detail = ''ok''\<rparr>))"
    by simp
  ultimately have "assigned_target (w_entry w') 5 = learned_target ?s (w_entry demo_world)"
    and "cm_icon (meta_for (w_entry w') 5) =
      Some (str_or (ls_icon ?s) (suggest_icon ''spin'' (target_type_of (learned_target ?s (w_entry demo_world)))))"
    using learn_ends_clean [OF demo_flow_stores(1) _ _ run] by (simp_all add: captured_as_def)
  moreover have "map_option rt_name (learned_target ?s (w_entry demo_world)) = Some ''Fan''" by code_simp
  moreover have "str_or (ls_icon ?s) (suggest_icon ''spin'' (target_type_of (learned_target ?s (w_entry demo_world)))) = ''mdi:fan''"
    by code_simp
  ultimately show ?thesis using run by auto
qed

section \<open>Properties: managing\<close>

lemma with_command_run:
  "with_command (s, w) = (Inr
     (case (loaded_status w, of_command_id s) of
        (Some status, Some k) \<Rightarrow>
          (case map_of (by_id status) k of
             None \<Rightarrow> Inr (Abort ''unknown_command'' []) | Some c \<Rightarrow> Inl (k, status, c))
      | _ \<Rightarrow> Inr (Abort ''not_loaded'' [])), (s, w))"
  by (simp add: with_command_def bindA_def)

definition managed :: "options_flow \<Rightarrow> ('l, 't, 'x) world \<Rightarrow> (int \<times> bridge_status \<times> command_info) option" where
  "managed s w =
     (case (loaded_status w, of_command_id s) of
        (Some status, Some k) \<Rightarrow> map_option (\<lambda>c. (k, status, c)) (map_of (by_id status) k)
      | _ \<Rightarrow> None)"

lemma with_command_managed:
  "managed s w = Some x \<Longrightarrow> with_command (s, w) = (Inr (Inl x), (s, w))"
  "managed s w = None \<Longrightarrow> \<exists>reason. with_command (s, w) = (Inr (Inr (Abort reason [])), (s, w)) \<and>
     reason \<in> {''not_loaded'', ''unknown_command''}"
  by (auto simp: with_command_run managed_def split: option.splits)

lemma managed_listed:
  "managed s w = Some (k, status, c) \<Longrightarrow>
     of_command_id s = Some k \<and> loaded_status w = Some status \<and> c \<in> set (bs_commands status) \<and> ci_command_id c = k"
  by (auto simp: managed_def dest: by_id_SomeD split: option.splits)

lemma save_command_run:
  assumes "stores_options api"
  shows "\<exists>w'. save_command api k i w = (Inr (Abort ''command_saved'' []), w') \<and>
    w_entry w' = (w_entry w)\<lparr>ce_options := options_with (w_entry w)
      [(k, \<lparr>cm_target_id = chosen_target (oi_target_id i), cm_icon = chosen_icon (oi_icon i)\<rparr>)]\<rparr>"
proof -
  obtain w1 where "fa_update_options api (options_with (w_entry w)
      [(k, \<lparr>cm_target_id = chosen_target (oi_target_id i), cm_icon = chosen_icon (oi_icon i)\<rparr>)]) w = (Inr (), w1)"
    and "w_entry w1 = (w_entry w)\<lparr>ce_options := options_with (w_entry w)
      [(k, \<lparr>cm_target_id = chosen_target (oi_target_id i), cm_icon = chosen_icon (oi_icon i)\<rparr>)]\<rparr>"
    using stores_optionsD [OF assms] by blast
  then show ?thesis by (simp add: save_command_def bindA_def)
qed

lemma command_form_not_saved [simp]: "command_form entry picker k c errors \<noteq> Abort reason ph"
  by (simp add: command_form_def Let_def)

text \<open>
  Saving a command asks the bridge for nothing but a rename: the flow says it saved only a listed
  command under an acceptable name no other command has; when the name is the one the command
  has, the organisation is stored and nothing else happens, and when it is not, the bridge has
  accepted the rename before anything is stored. What is stored is the chosen target and icon of
  this command, and no other command's organisation changes.
\<close>

theorem command_saved_spec:
  assumes "stores_options api"
    and "options_step_command api (Some i) (s, w) = (Inr (Abort ''command_saved'' ph), s', w')"
    and "oi_target_id i \<noteq> Some []"
  shows "\<exists>k status c w1. managed s w = Some (k, status, c) \<and>
    validate_command_name (py_strip (oi_name i)) = None \<and>
    (if py_strip (oi_name i) = ci_name c then w1 = w
     else accepts_mutations status \<and>
       coordinator_rename api (loaded_transport w) k (py_strip (oi_name i)) w = (Inr (), w1)) \<and>
    meta_for (w_entry w') k = \<lparr>cm_target_id = chosen_target (oi_target_id i), cm_icon = chosen_icon (oi_icon i)\<rparr> \<and>
    (\<forall>k'. k' \<noteq> k \<longrightarrow> meta_for (w_entry w') k' = meta_for (w_entry w1) k')"
proof -
  let ?nm = "py_strip (oi_name i)"
  let ?m = "\<lparr>cm_target_id = chosen_target (oi_target_id i), cm_icon = chosen_icon (oi_icon i)\<rparr>"
  note run = assms(2) [unfolded options_step_command_def, simplified bindA_def, simplified]
  obtain k status c where found: "managed s w = Some (k, status, c)"
    using run with_command_managed(2) [of s w] by (cases "managed s w") auto
  note at_command = with_command_managed(1) [OF found]
  have kept: "\<not> oi_delete i"
    using run at_command
    by (auto simp: options_step_confirm_delete_def bindA_def split: if_splits)
  have valid: "validate_command_name ?nm = None"
    using run at_command kept by (cases "validate_command_name ?nm") (simp_all add: Let_def)
  have free: "\<not> (case map_of (by_name status) ?nm of None \<Rightarrow> False | Some taken_by \<Rightarrow> ci_command_id taken_by \<noteq> k)"
  proof
    assume "case map_of (by_name status) ?nm of None \<Rightarrow> False | Some taken_by \<Rightarrow> ci_command_id taken_by \<noteq> k"
    with run at_command kept valid show False by (simp add: Let_def)
  qed
  have wf: "wf_meta ?m"
    using assms(3) by (auto simp: wf_meta_def chosen_target_def chosen_icon_def Let_def split: option.splits if_splits)
  have stored: "meta_for (w_entry w') k = ?m \<and> (\<forall>k'. k' \<noteq> k \<longrightarrow> meta_for (w_entry w') k' = meta_for (w_entry w1) k')"
    if "save_command api k i w1 = (Inr r, w')" for w1 r
  proof -
    have "w_entry w' = (w_entry w1)\<lparr>ce_options := options_with (w_entry w1) [(k, ?m)]\<rparr>"
      using save_command_run [OF assms(1), of k i w1] that by auto
    then show ?thesis by (simp add: meta_for_options_with [OF wf])
  qed
  show ?thesis
  proof (cases "?nm = ci_name c")
    case True
    then have "save_command api k i w = (Inr (Abort ''command_saved'' ph), w')"
      using run at_command kept valid free by (auto simp: Let_def prod_eq_iff)
    from stored [OF this] True found valid show ?thesis by auto
  next
    case False
    have writable: "accepts_mutations status"
      using run at_command kept valid free False by (auto simp: Let_def split: if_splits)
    obtain x w1 where rename: "coordinator_rename api (loaded_transport w) k ?nm w = (x, w1)"
      by (cases "coordinator_rename api (loaded_transport w) k ?nm w")
    have "x = Inr ()"
    proof (cases x)
      case (Inl err)
      with run at_command kept valid free False writable rename show ?thesis
        by (cases "is_ha_error err") (simp_all add: Let_def bindA_def catchA_def)
    qed simp
    moreover from this have "save_command api k i w1 = (Inr (Abort ''command_saved'' ph), w')"
      using run at_command kept valid free False writable rename
      by (auto simp: Let_def bindA_def catchA_def prod_eq_iff)
    ultimately show ?thesis
      using stored found valid False writable rename by auto
  qed
qed

theorem command_saved_spec_witness:
  "\<exists>s' w' ph. options_step_command demo_flow_api
       (Some \<lparr>oi_delete = False, oi_name = ''fan_on'', oi_target_id = None, oi_icon = Some ''mdi:gate''\<rparr>)
       (learn_steps.extend new_learn_steps \<lparr>of_command_id = Some 4\<rparr>, demo_world) =
     (Inr (Abort ''command_saved'' ph), s', w') \<and> cm_icon (meta_for (w_entry w') 4) = Some ''mdi:gate''"
proof -
  let ?s = "learn_steps.extend new_learn_steps \<lparr>of_command_id = Some 4\<rparr>"
  let ?i = "\<lparr>oi_delete = False, oi_name = ''fan_on'', oi_target_id = None, oi_icon = Some ''mdi:gate''\<rparr>"
  let ?run = "options_step_command demo_flow_api (Some ?i) (?s, demo_world)"
  have "fst ?run = Inr (Abort ''command_saved'' [])" by code_simp
  then obtain s' w' where run: "?run = (Inr (Abort ''command_saved'' []), s', w')" by (metis prod.collapse)
  have "managed ?s demo_world = Some (4, demo_status, \<lparr>ci_command_id = 4, ci_name = ''fan_on'', ci_pulses = 4\<rparr>)"
    by code_simp
  moreover have "chosen_icon (Some ''mdi:gate'') = Some ''mdi:gate''" by code_simp
  moreover have "oi_target_id ?i \<noteq> Some []" by simp
  ultimately have "cm_icon (meta_for (w_entry w') 4) = Some ''mdi:gate''"
    using command_saved_spec [OF demo_flow_stores(1) run] by auto
  with run show ?thesis by blast
qed

text \<open>
  Deleting is explicit: choosing a command, opening its form, asking for its deletion and opening
  the confirmation change nothing at all, and the confirmed step reports a deletion only when
  the bridge accepts mutations and has carried out the deletion of exactly the chosen command.
\<close>

theorem delete_is_explicit:
  "snd (options_step_confirm_delete api False (s, w)) = (s, w) \<and>
   snd (options_step_command api None (s, w)) = (s, w) \<and>
   (oi_delete i \<longrightarrow> snd (options_step_command api (Some i) (s, w)) = (s, w)) \<and>
   snd (snd (options_step_manage api choice (s, w))) = w \<and>
   (\<forall>ph s' w'. options_step_confirm_delete api True (s, w) = (Inr (Abort ''command_deleted'' ph), s', w') \<longrightarrow>
      (\<exists>k status c. managed s w = Some (k, status, c) \<and> accepts_mutations status \<and>
         coordinator_delete api (loaded_transport w) k (ci_name c) w = (Inr (), w')))"
proof (intro conjI allI impI)
  show first: "snd (options_step_confirm_delete api False (s, w)) = (s, w)" for s
    using with_command_managed [of s w]
    by (cases "managed s w") (auto simp: options_step_confirm_delete_def bindA_def)
  show opened: "snd (options_step_command api None (s, w)) = (s, w)" for s
    using with_command_managed [of s w]
    by (cases "managed s w") (auto simp: options_step_command_def bindA_def)
  show "snd (options_step_command api (Some i) (s, w)) = (s, w)" if "oi_delete i"
    using with_command_managed [of s w] first that
    by (cases "managed s w") (auto simp: options_step_command_def bindA_def)
  show "snd (snd (options_step_manage api choice (s, w))) = w"
  proof (cases "loaded_status w")
    case None
    then show ?thesis by (simp add: options_step_manage_def bindA_def)
  next
    case (Some status)
    show ?thesis
    proof (cases choice)
      case None
      with Some show ?thesis by (simp add: options_step_manage_def bindA_def)
    next
      case chosen: (Some raw)
      show ?thesis
      proof (cases "py_int (PStr raw)")
        case (Inl err)
        with Some chosen show ?thesis by (simp add: options_step_manage_def bindA_def)
      next
        case (Inr k)
        with Some chosen opened [of "s\<lparr>of_command_id := Some k\<rparr>"] show ?thesis
          by (simp add: options_step_manage_def bindA_def)
      qed
    qed
  qed
  fix ph s' w'
  assume run: "options_step_confirm_delete api True (s, w) = (Inr (Abort ''command_deleted'' ph), s', w')"
  obtain k status c where found: "managed s w = Some (k, status, c)"
    using run with_command_managed(2) [of s w]
    by (cases "managed s w") (auto simp: options_step_confirm_delete_def bindA_def)
  note at_command = with_command_managed(1) [OF found]
  have writable: "accepts_mutations status"
    using run at_command by (auto simp: options_step_confirm_delete_def bindA_def split: if_splits)
  obtain x w1 where call: "coordinator_delete api (loaded_transport w) k (ci_name c) w = (x, w1)"
    by (cases "coordinator_delete api (loaded_transport w) k (ci_name c) w")
  have "x = Inr ()"
  proof (cases x)
    case (Inl err)
    with run at_command writable call show ?thesis
      by (cases "is_ha_error err") (simp_all add: options_step_confirm_delete_def bindA_def catchA_def)
  qed simp
  with run at_command writable call found show "\<exists>k status c. managed s w = Some (k, status, c) \<and>
      accepts_mutations status \<and> coordinator_delete api (loaded_transport w) k (ci_name c) w = (Inr (), w')"
    by (auto simp: options_step_confirm_delete_def bindA_def catchA_def)
qed

theorem delete_is_explicit_witness:
  "snd (options_step_command demo_flow_api
      (Some \<lparr>oi_delete = True, oi_name = ''fan_on'', oi_target_id = None, oi_icon = None\<rparr>)
      (learn_steps.extend new_learn_steps \<lparr>of_command_id = Some 4\<rparr>, demo_world)) =
    (learn_steps.extend new_learn_steps \<lparr>of_command_id = Some 4\<rparr>, demo_world)"
proof -
  have "oi_delete \<lparr>oi_delete = True, oi_name = ''fan_on'', oi_target_id = None, oi_icon = None\<rparr>" by simp
  then show ?thesis
    using delete_is_explicit [where api = demo_flow_api and w = demo_world and choice = None
        and i = "\<lparr>oi_delete = True, oi_name = ''fan_on'', oi_target_id = None, oi_icon = None\<rparr>"]
    by blast
qed

end
