(* ===== verification/FlowTargets.thy ===== *)
theory FlowTargets
  imports FlowLearn
begin

text \<open>
  What the flows that define targets and re-point a bridge promise: over every history of an entry
  its targets keep distinct names, and an entry is re-pointed only to a node that has shown it
  carries this bridge, or onto which this bridge has been restored.
\<close>

section \<open>Lemmas: lists of targets\<close>

definition target_list :: "config_entry \<Rightarrow> rf_target list" where
  "target_list entry = List.map_filter (target_from_subentry \<circ> snd) (ce_subentries entry)"

definition targets_ok :: "config_entry \<Rightarrow> bool" where
  "targets_ok entry \<longleftrightarrow>
     distinct (dict_keys (ce_subentries entry)) \<and>
     distinct (map rt_target_id (target_list entry)) \<and>
     distinct (map (\<lambda>t. py_casefold (rt_name t)) (target_list entry)) \<and>
     (\<forall>t \<in> set (target_list entry). rt_name t \<noteq> [])"

lemma map_filter_comp: "List.map_filter f (map g xs) = List.map_filter (f \<circ> g) xs"
  by (induction xs) (simp_all split: option.split)

lemma map_filter_append: "List.map_filter f (xs @ ys) = List.map_filter f xs @ List.map_filter f ys"
  by (induction xs) (simp_all split: option.split)

lemma map_filter_map_option:
  "(\<And>x. x \<in> set xs \<Longrightarrow> f x = map_option g (h x)) \<Longrightarrow> List.map_filter f xs = map g (List.map_filter h xs)"
  by (induction xs) (auto split: option.split)

lemma map_filter_injective:
  "distinct (map g (List.map_filter f xs)) \<Longrightarrow> x \<in> set xs \<Longrightarrow> y \<in> set xs \<Longrightarrow>
     f x = Some t \<Longrightarrow> f y = Some u \<Longrightarrow> g t = g u \<Longrightarrow> x = y"
proof (induction xs)
  case Nil
  then show ?case by simp
next
  case (Cons z xs)
  have "g v \<in> g ` set (List.map_filter f xs)" if "f w = Some v" "w \<in> set xs" for v w
    using that by (metis imageI set_map_filter)
  then have fresh: "g t \<noteq> g u" if "f z = Some t" "f y = Some u" "y \<in> set xs" for t u y
    using Cons.prems(1) that by force
  show ?case
  proof (cases "x = z \<or> y = z")
    case True
    with Cons.prems fresh show ?thesis by (metis set_ConsD)
  next
    case False
    with Cons show ?thesis by (auto split: option.splits)
  qed
qed

lemma target_list_map:
  "target_list (entry\<lparr>ce_subentries := map f xs\<rparr>) = List.map_filter ((target_from_subentry \<circ> snd) \<circ> f) xs"
  by (simp add: target_list_def map_filter_comp)

lemma distinct_map_replaced:
  assumes "distinct (map k xs)" and "distinct (map h xs)" and "\<And>x. x \<in> set xs \<Longrightarrow> k x \<noteq> a \<Longrightarrow> h x \<noteq> c"
  shows "distinct (map (\<lambda>x. if k x = a then c else h x) xs)"
  using assms
proof (induction xs)
  case Nil
  then show ?case by simp
next
  case (Cons x xs)
  have "k y \<noteq> k x \<and> h y \<noteq> h x" if "y \<in> set xs" for y
    using Cons.prems(1,2) that by (metis distinct.simps(2) image_eqI list.simps(9) set_map)
  with Cons show ?case by auto
qed

lemma targets_target_list:
  assumes "distinct (map rt_target_id (target_list entry))"
  shows "targets entry = map (\<lambda>t. (rt_target_id t, t)) (target_list entry)"
proof -
  have "List.map_filter target_from_subentry (map snd (ce_subentries entry)) = target_list entry"
    by (simp add: target_list_def map_filter_comp)
  then show ?thesis
    using assms by (simp add: targets_def dict_of_distinct comp_def)
qed

lemma name_taken_iff:
  assumes "distinct (map rt_target_id (target_list entry))"
  shows "name_taken entry except nm \<longleftrightarrow> (\<exists>t \<in> set (target_list entry).
    py_casefold (rt_name t) = py_casefold nm \<and> Some (rt_target_id t) \<noteq> except)"
  by (simp add: name_taken_def targets_target_list [OF assms] list_ex_iff comp_def)

section \<open>Defining a target\<close>

text \<open>Home Assistant adds the subentry a flow creates, under an id no subentry has.\<close>

definition with_subentry :: "config_entry \<Rightarrow> string \<Rightarrow> string \<Rightarrow> (string, pyval) dict \<Rightarrow> config_entry" where
  "with_subentry entry sid title data = entry\<lparr>ce_subentries := ce_subentries entry @
     [(sid, \<lparr>se_subentry_id = sid, se_subentry_type = SUBENTRY_TYPE_TARGET, se_title = title, se_data = data\<rparr>)]\<rparr>"

text \<open>
  What the flow relies on: a minted target id is not empty and no target has it, minting and
  moving a device leave the entry alone, and updating a subentry changes its title and data.
\<close>

definition entry_laws :: "(('l, 't, 'x) world, 'z) flow_api_scheme \<Rightarrow> bool" where
  "entry_laws api \<longleftrightarrow>
     (\<forall>w tid w'. fa_new_target_id api w = (Inr tid, w') \<longrightarrow>
        tid \<noteq> [] \<and> map_of (targets (w_entry w)) tid = None \<and> w_entry w' = w_entry w) \<and>
     (\<forall>k u w r w'. dv_update api k u w = (r, w') \<longrightarrow> w_entry w' = w_entry w) \<and>
     (\<forall>k title data w r w'. fa_update_subentry api k title data w = (r, w') \<longrightarrow>
        w_runtime w' = w_runtime w \<and>
        w_entry w' = (w_entry w)\<lparr>ce_subentries :=
          map (\<lambda>(i, s). (i, if i = k then s\<lparr>se_title := title, se_data := data\<rparr> else s))
            (ce_subentries (w_entry w))\<rparr>)"

lemma created_target:
  assumes laws: "entry_laws api" and ok: "targets_ok (w_entry w)"
    and run: "target_step_user api (Some i) w = (Inr (CreateEntry title data uid), w')"
    and sid: "sid \<notin> set (dict_keys (ce_subentries (w_entry w)))"
  shows "targets_ok (with_subentry (w_entry w) sid title data)"
proof -
  let ?nm = "py_strip (ti_name i)"
  have ids: "distinct (map rt_target_id (target_list (w_entry w)))" using ok by (simp add: targets_ok_def)
  note run' = run [unfolded target_step_user_def, simplified bindA_def, simplified]
  have named: "?nm \<noteq> []" using run' by (auto simp: Let_def)
  have free: "\<not> name_taken (w_entry w) None ?nm" using run' named by (auto simp: Let_def)
  obtain x w1 where mint: "fa_new_target_id api w = (x, w1)" by (cases "fa_new_target_id api w")
  then obtain tid where x: "x = Inr tid" using run' named free by (cases x) (auto simp: Let_def)
  have out: "title = ?nm" "dict_get data CONF_TARGET_ID = PStr tid"
    using run' named free mint x by (auto simp: Let_def dict_get_def)
  from laws mint x have tid: "tid \<noteq> []" "map_of (targets (w_entry w)) tid = None"
    by (simp_all add: entry_laws_def)
  let ?t = "\<lparr>rt_target_id = tid, rt_subentry_id = sid, rt_name = ?nm,
     rt_target_type = validate_target_type (dict_get data CONF_TARGET_TYPE),
     rt_area_id = nonempty_str (dict_get data CONF_AREA_ID)\<rparr>"
  have list: "target_list (with_subentry (w_entry w) sid title data) = target_list (w_entry w) @ [?t]"
    using tid(1) out
    by (simp add: target_list_def with_subentry_def map_filter_append target_from_subentry_def)
  have "tid \<notin> rt_target_id ` set (target_list (w_entry w))"
    using tid(2) by (simp add: targets_target_list [OF ids] map_of_eq_None_iff image_iff)
  moreover have "py_casefold ?nm \<notin> (\<lambda>t. py_casefold (rt_name t)) ` set (target_list (w_entry w))"
    using free by (auto simp: name_taken_iff [OF ids])
  ultimately show ?thesis
    using ok named sid by (auto simp: targets_ok_def list) (simp_all add: with_subentry_def)
qed

lemma target_from_renamed:
  assumes "target_from_subentry s = Some t"
  shows "target_from_subentry (s\<lparr>se_title := nm, se_data := dict_merge (se_data s)
      [(CONF_TARGET_TYPE, ty), (CONF_AREA_ID, area)]\<rparr>) =
    Some (t\<lparr>rt_name := nm, rt_target_type := validate_target_type ty, rt_area_id := nonempty_str area\<rparr>)"
  using assms
  by (auto simp: target_from_subentry_def dict_get_def update_conv' const_eqs split: if_splits option.splits)

lemma set_area_keeps_entry:
  assumes "entry_laws api" and "async_set_target_area api entry b t area w = (r, w')"
  shows "w_entry w' = w_entry w"
proof (cases "async_target_device_id api entry b t w")
  case None
  with assms(2) show ?thesis by (simp add: async_set_target_area_def)
next
  case (Some d)
  obtain x w1 where upd: "dv_update api d (SetArea area) w = (x, w1)" by (cases "dv_update api d (SetArea area) w")
  with assms(1) have "w_entry w1 = w_entry w" unfolding entry_laws_def by blast
  with assms(2) Some upd show ?thesis
    by (cases x) (auto simp: async_set_target_area_def bindA_def)
qed

text \<open>The only way a reconfigure changes the entry.\<close>

lemma reconfigured_entry:
  assumes laws: "entry_laws api" and run: "target_step_reconfigure api k (Some i) w = (Inr result, w')"
  shows "w_entry w' = w_entry w \<or>
    (\<exists>subentry target. map_of (ce_subentries (w_entry w)) k = Some subentry \<and>
       target_from_subentry subentry = Some target \<and> py_strip (ti_name i) \<noteq> [] \<and>
       \<not> name_taken (w_entry w) (Some (rt_target_id target)) (py_strip (ti_name i)) \<and>
       w_entry w' = (w_entry w)\<lparr>ce_subentries :=
         map (\<lambda>(j, s). (j, if j = k then s\<lparr>se_title := py_strip (ti_name i),
               se_data := dict_merge (se_data subentry)
                 [(CONF_TARGET_TYPE, PStr (validate_target_type (ti_target_type i))),
                  (CONF_AREA_ID, opt_str (ti_area_id i))]\<rparr> else s))
           (ce_subentries (w_entry w))\<rparr>)"
proof -
  let ?nm = "py_strip (ti_name i)"
  note run' = run [unfolded target_step_reconfigure_def, simplified bindA_def, simplified]
  show ?thesis
  proof (cases "map_of (ce_subentries (w_entry w)) k")
    case None
    with run' show ?thesis by simp
  next
    case sub: (Some subentry)
    show ?thesis
    proof (cases "target_from_subentry subentry")
      case None
      with run' sub show ?thesis by simp
    next
      case target: (Some target)
      show ?thesis
      proof (cases "?nm = [] \<or> name_taken (w_entry w) (Some (rt_target_id target)) ?nm")
        case True
        with run' sub target show ?thesis by (auto simp: Let_def split: if_splits)
      next
        case False
        let ?data = "dict_merge (se_data subentry)
          [(CONF_TARGET_TYPE, PStr (validate_target_type (ti_target_type i))), (CONF_AREA_ID, opt_str (ti_area_id i))]"
        obtain x w1 where upd: "fa_update_subentry api k ?nm ?data w = (x, w1)"
          by (cases "fa_update_subentry api k ?nm ?data w")
        with laws have entry1: "w_entry w1 = (w_entry w)\<lparr>ce_subentries :=
            map (\<lambda>(j, s). (j, if j = k then s\<lparr>se_title := ?nm, se_data := ?data\<rparr> else s)) (ce_subentries (w_entry w))\<rparr>"
          unfolding entry_laws_def by blast
        have "w_entry w' = w_entry w1"
        proof (cases "w_runtime w1")
          case None
          with run' sub target False upd show ?thesis by (cases x) (auto simp: Let_def)
        next
          case (Some rt)
          let ?set = "async_set_target_area api (w_entry w1) (rd_bridge_id rt) target (ti_area_id i)"
          obtain y w2 where moved: "?set w1 = (y, w2)" by (cases "?set w1")
          have "w_entry w2 = w_entry w1" using set_area_keeps_entry [OF laws moved] .
          with run' sub target False upd Some moved show ?thesis
            by (cases x; cases y) (auto simp: Let_def bindA_def split: if_splits)
        qed
        with entry1 sub target False show ?thesis by auto
      qed
    qed
  qed
qed

text \<open>The targets of an entry after the title and data of one of its subentries have changed.\<close>

lemma retargeted_list:
  assumes keys: "distinct (dict_keys (ce_subentries entry))" and ids: "distinct (map rt_target_id (target_list entry))"
    and sub: "map_of (ce_subentries entry) k = Some subentry" and target: "target_from_subentry subentry = Some target"
    and changed: "target_from_subentry subentry' = Some target'" "rt_target_id target' = rt_target_id target"
    and entry': "ce_subentries entry' = map (\<lambda>(j, s). (j, if j = k then subentry' else s)) (ce_subentries entry)"
  shows "target_list entry' = map (\<lambda>t. if rt_target_id t = rt_target_id target then target' else t) (target_list entry)"
proof -
  let ?read = "target_from_subentry \<circ> snd" and ?upd = "\<lambda>(j, s). (j, if j = k then subentry' else s)"
  let ?g = "\<lambda>t. if rt_target_id t = rt_target_id target then target' else t"
  have at_k: "(k, subentry) \<in> set (ce_subentries entry)" using sub by (rule map_of_SomeD)
  have one: "(?read \<circ> ?upd) js = map_option ?g (?read js)" if "js \<in> set (ce_subentries entry)" for js
  proof (cases "fst js = k")
    case True
    with that keys sub have "snd js = subentry" by (metis map_of_is_SomeI option.inject prod.collapse)
    with True target changed show ?thesis by (simp add: case_prod_beta)
  next
    case False
    have "rt_target_id t \<noteq> rt_target_id target" if "target_from_subentry (snd js) = Some t" for t
    proof
      assume "rt_target_id t = rt_target_id target"
      with map_filter_injective [of rt_target_id ?read "ce_subentries entry" js "(k, subentry)" t target]
        ids \<open>js \<in> _\<close> at_k that target have "js = (k, subentry)" by (simp add: target_list_def)
      with False show False by simp
    qed
    with False show ?thesis by (cases "target_from_subentry (snd js)") (auto simp: case_prod_beta)
  qed
  have "target_list entry' = List.map_filter (?read \<circ> ?upd) (ce_subentries entry)"
    unfolding target_list_def entry' by (simp add: map_filter_def comp_def filter_map)
  also have "\<dots> = map ?g (target_list entry)"
    unfolding target_list_def by (rule map_filter_map_option [OF one])
  finally show ?thesis .
qed

lemma changed_target:
  assumes laws: "entry_laws api" and ok: "targets_ok (w_entry w)"
    and run: "target_step_reconfigure api k (Some i) w = (Inr result, w')"
  shows "targets_ok (w_entry w')"
  using reconfigured_entry [OF laws run]
proof (elim disjE exE conjE)
  assume "w_entry w' = w_entry w"
  with ok show ?thesis by simp
next
  let ?nm = "py_strip (ti_name i)"
  fix subentry target
  assume sub: "map_of (ce_subentries (w_entry w)) k = Some subentry"
    and target: "target_from_subentry subentry = Some target" and named: "?nm \<noteq> []"
    and free: "\<not> name_taken (w_entry w) (Some (rt_target_id target)) ?nm"
  let ?ty = "PStr (validate_target_type (ti_target_type i))" and ?area = "opt_str (ti_area_id i)"
  let ?s' = "\<lambda>s. s\<lparr>se_title := ?nm, se_data := dict_merge (se_data subentry)
      [(CONF_TARGET_TYPE, ?ty), (CONF_AREA_ID, ?area)]\<rparr>"
  assume entry': "w_entry w' = (w_entry w)\<lparr>ce_subentries := map (\<lambda>(j, s). (j, if j = k then ?s' s else s)) (ce_subentries (w_entry w))\<rparr>"
  let ?t' = "target\<lparr>rt_name := ?nm, rt_target_type := validate_target_type ?ty, rt_area_id := nonempty_str ?area\<rparr>"
  note parts = ok [unfolded targets_ok_def]
  have ids: "distinct (map rt_target_id (target_list (w_entry w)))" using parts by blast
  have keys: "distinct (dict_keys (ce_subentries (w_entry w)))" using parts by blast
  have "map (\<lambda>(j, s). (j, if j = k then ?s' s else s)) (ce_subentries (w_entry w)) =
      map (\<lambda>(j, s). (j, if j = k then ?s' subentry else s)) (ce_subentries (w_entry w))"
    using map_of_is_SomeI [OF keys] sub by fastforce
  then have list: "target_list (w_entry w') = map (\<lambda>t. if rt_target_id t = rt_target_id target then ?t' else t)
      (target_list (w_entry w))"
    by (intro retargeted_list [OF keys ids sub target target_from_renamed [OF target]]) (simp_all add: entry')
  have "distinct (map (\<lambda>t. if rt_target_id t = rt_target_id target then py_casefold ?nm
      else py_casefold (rt_name t)) (target_list (w_entry w)))"
    by (rule distinct_map_replaced [OF ids]) (use parts free in \<open>auto simp: name_taken_iff [OF ids]\<close>)
  moreover have "map (\<lambda>t. py_casefold (rt_name t)) (target_list (w_entry w')) =
      map (\<lambda>t. if rt_target_id t = rt_target_id target then py_casefold ?nm else py_casefold (rt_name t))
        (target_list (w_entry w))"
    "map rt_target_id (target_list (w_entry w')) = map rt_target_id (target_list (w_entry w))"
    "dict_keys (ce_subentries (w_entry w')) = dict_keys (ce_subentries (w_entry w))"
    by (simp_all add: list) (simp add: entry' comp_def case_prod_beta)
  moreover have "\<forall>t \<in> set (target_list (w_entry w')). rt_name t \<noteq> []" using parts named by (auto simp: list)
  ultimately show ?thesis using parts unfolding targets_ok_def by simp
qed

section \<open>Histories of an entry\<close>

text \<open>
  What happens to the subentries of an entry from its creation on: the flow creates a target and
  Home Assistant adds it, the flow changes one, the user removes one, and anything else that
  leaves the subentries alone.
\<close>

inductive target_history ::
  "(('l, 't, 'x) world, 'z) flow_api_scheme \<Rightarrow> config_entry \<Rightarrow> bool" for api where
  new: "ce_subentries entry = [] \<Longrightarrow> target_history api entry"
| created: "target_history api (w_entry w) \<Longrightarrow>
    target_step_user api (Some i) w = (Inr (CreateEntry title data uid), w') \<Longrightarrow>
    sid \<notin> set (dict_keys (ce_subentries (w_entry w))) \<Longrightarrow>
    target_history api (with_subentry (w_entry w) sid title data)"
| changed: "target_history api (w_entry w) \<Longrightarrow>
    target_step_reconfigure api sid (Some i) w = (Inr result, w') \<Longrightarrow>
    target_history api (w_entry w')"
| removed: "target_history api entry \<Longrightarrow>
    target_history api (entry\<lparr>ce_subentries := AList.delete sid (ce_subentries entry)\<rparr>)"
| other: "target_history api entry \<Longrightarrow> ce_subentries entry' = ce_subentries entry \<Longrightarrow>
    target_history api entry'"

lemma map_filter_filter_subset: "set (List.map_filter f (filter Q xs)) \<subseteq> set (List.map_filter f xs)"
  by (auto simp: set_map_filter)

lemma distinct_map_filter_filter:
  "distinct (map k (List.map_filter f xs)) \<Longrightarrow> distinct (map k (List.map_filter f (filter Q xs)))"
proof (induction xs)
  case Nil
  show ?case by simp
next
  case (Cons x xs)
  then show ?case
    using map_filter_filter_subset [of f Q xs] by (cases "f x") auto
qed

lemma removed_target:
  assumes "targets_ok entry"
  shows "targets_ok (entry\<lparr>ce_subentries := AList.delete sid (ce_subentries entry)\<rparr>)"
proof -
  let ?e = "entry\<lparr>ce_subentries := AList.delete sid (ce_subentries entry)\<rparr>"
  have list: "target_list ?e = List.map_filter (target_from_subentry \<circ> snd) (filter (\<lambda>(k, _). sid \<noteq> k) (ce_subentries entry))"
    by (simp add: target_list_def AList.delete_eq)
  have "set (target_list ?e) \<subseteq> set (target_list entry)"
    unfolding list by (simp add: map_filter_filter_subset target_list_def)
  moreover have "distinct (map rt_target_id (target_list ?e))"
      and "distinct (map (\<lambda>t. py_casefold (rt_name t)) (target_list ?e))"
    unfolding list using assms
    by (simp_all add: distinct_map_filter_filter targets_ok_def target_list_def)
  moreover have "distinct (dict_keys (ce_subentries ?e))"
    using assms by (simp add: targets_ok_def distinct_delete)
  ultimately show ?thesis
    using assms unfolding targets_ok_def by blast
qed

lemma targets_ok_subentries: "ce_subentries e' = ce_subentries e \<Longrightarrow> targets_ok e' = targets_ok e"
  by (simp add: targets_ok_def target_list_def)

section \<open>Properties\<close>

text \<open>
  C36: Whatever a user does with the target forms, in whatever order, the targets of a bridge never
  have names that differ only in case: over every history of an entry its targets' folded names
  are pairwise distinct, none is empty, and so are their ids.
\<close>

theorem target_names_stay_distinct:
  assumes "target_history api entry" and "entry_laws api"
  shows "distinct (map (\<lambda>(k, t). py_casefold (rt_name t)) (targets entry)) \<and>
    distinct (dict_keys (targets entry)) \<and> (\<forall>(k, t) \<in> set (targets entry). rt_name t \<noteq> [] \<and> k = rt_target_id t)"
proof -
  have "targets_ok entry"
    using assms(1)
  proof (induction rule: target_history.induct)
    case (new entry)
    then show ?case by (simp add: targets_ok_def target_list_def)
  next
    case (created w i title data uid w' sid)
    show ?case by (rule created_target [OF assms(2) created.IH created.hyps(2,3)])
  next
    case (changed w sid i result w')
    show ?case by (rule changed_target [OF assms(2) changed.IH changed.hyps(2)])
  next
    case (removed entry sid)
    show ?case by (rule removed_target) (rule removed.IH)
  next
    case (other entry entry')
    from targets_ok_subentries [OF other.hyps(2)] other.IH show ?case by (rule iffD2)
  qed
  then have ids: "distinct (map rt_target_id (target_list entry))"
    and names: "distinct (map (\<lambda>t. py_casefold (rt_name t)) (target_list entry))"
    and nonempty: "\<forall>t \<in> set (target_list entry). rt_name t \<noteq> []"
    by (simp_all add: targets_ok_def)
  note list = targets_target_list [OF ids]
  show ?thesis
    unfolding list using ids names nonempty by (simp add: comp_def)
qed

lemma demo_entry_laws: "entry_laws demo_flow_api"
proof -
  have longer: "length k < length (CHR ''t'' # concat ks)" if "k \<in> set ks" for k :: string and ks
    using that by (induction ks) auto
  have "map_of (targets e) (CHR ''t'' # concat (dict_keys (targets e))) = None" for e
    using longer [of "CHR ''t'' # concat (dict_keys (targets e))" "dict_keys (targets e)"]
    by (auto simp: map_of_eq_None_iff)
  then show ?thesis by (simp add: entry_laws_def demo_flow_api_def)
qed

theorem target_names_stay_distinct_witness:
  "\<exists>title data uid w'. target_step_user demo_flow_api (Some \<lparr>ti_name = '' Gate '', ti_target_type = PStr ''gate'', ti_area_id = None\<rparr>)
       (demo_world\<lparr>w_entry := demo_entry\<lparr>ce_subentries := []\<rparr>\<rparr>) = (Inr (CreateEntry title data uid), w') \<and>
     distinct (dict_keys (targets (with_subentry (demo_entry\<lparr>ce_subentries := []\<rparr>) ''s9'' title data)))"
proof -
  let ?w = "demo_world\<lparr>w_entry := demo_entry\<lparr>ce_subentries := []\<rparr>\<rparr>"
  let ?i = "\<lparr>ti_name = '' Gate '', ti_target_type = PStr ''gate'', ti_area_id = None\<rparr>"
  let ?run = "target_step_user demo_flow_api (Some ?i) ?w"
  have "\<exists>title data uid. fst ?run = Inr (CreateEntry title data uid)"
  proof -
    have "case fst ?run of Inr (CreateEntry _ _ _) \<Rightarrow> True | _ \<Rightarrow> False" by code_simp
    then show ?thesis by (simp split: sum.splits flow_result.splits)
  qed
  then obtain title data uid w' where run: "?run = (Inr (CreateEntry title data uid), w')"
    by (metis prod.collapse)
  have "target_history demo_flow_api (w_entry ?w)" by (rule target_history.new) simp
  from target_history.created [OF this run, of "''s9''"]
  have "target_history demo_flow_api (with_subentry (w_entry ?w) ''s9'' title data)" by simp
  from target_names_stay_distinct [OF this demo_entry_laws] run show ?thesis by auto
qed

end
