(* ===== verification/FlowRebind.thy ===== *)
theory FlowRebind
  imports FlowTargets
begin

text \<open>
  What the config flow promises when a bridge is set up or re-pointed: an entry is created under
  the identity a node has just reported, and re-pointed only to a node that reported the entry's
  own identity or onto which the entry's replica has been restored and read back.
\<close>

section \<open>Lemmas: what leaves the entry alone\<close>

text \<open>The one thing asked of a service call: it does not change the entry of the flow.\<close>

definition calls_keep :: "('h \<Rightarrow> 'b) \<Rightarrow> ('h, 'z) hass_api_scheme \<Rightarrow> bool" where
  "calls_keep f api \<longleftrightarrow> (\<forall>domain service data response. keeps f (h_call api domain service data response))"

lemma keeps_transport_call [keeps_intros]:
  "calls_keep f api \<Longrightarrow> keeps f (transport_call api t action data response)"
  unfolding transport_call_def
  by (intro keeps_intros | simp add: calls_keep_def keeps_intros split: option.split exn.split)+

lemma keeps_status [keeps_intros]: "calls_keep f api \<Longrightarrow> keeps f (async_status api t)"
  unfolding async_status_def by (intro keeps_intros)

lemma keeps_command_call [keeps_intros]: "calls_keep f api \<Longrightarrow> keeps f (command_call api t action data)"
  unfolding command_call_def by (intro keeps_intros)

lemma keeps_restore [keeps_intros]: "calls_keep f api \<Longrightarrow> keeps f (async_restore api t snapshot)"
  unfolding async_restore_def async_restore_begin_def async_import_def async_restore_commit_def
  by (intro keeps_intros)

lemma keeps_probe [keeps_intros]: "calls_keep f api \<Longrightarrow> keeps f (async_probe api eid pfx)"
  unfolding async_probe_def Let_def
  by (intro keeps_intros)

section \<open>Lemmas: probing\<close>

lemma probe_status:
  assumes "async_probe api eid pfx w = (Inr (Some s, err), w')"
  shows "async_status api (node_transport eid pfx) w = (Inr s, w')"
proof -
  let ?t = "node_transport eid pfx"
  obtain r w1 where read: "async_status api ?t w = (r, w1)" by (cases "async_status api ?t w")
  have "h_get_entry api w eid \<noteq> None" and "supports api ?t ''status'' w"
    using assms by (auto simp: async_probe_def Let_def split: if_splits)
  with assms read have "(case r of Inl e \<Rightarrow> (if is_ha_error e then retA (None, Some ''cannot_connect'') else raiseA e) w1
      | Inr x \<Rightarrow> (Inr (Some x, None), w1)) = (Inr (Some s, err), w')"
    by (cases r) (auto simp: async_probe_def Let_def bindA_def catchA_def)
  with read show ?thesis by (cases r) (auto split: if_splits)
qed

lemma rebind_run:
  assumes "stores_data api" and "rebind api eid pfx reason w = (r, w')"
  shows "r = Inr (Abort reason []) \<and> w_entry w' = (w_entry w)\<lparr>ce_data := dict_merge (ce_data (w_entry w))
    [(CONF_ESPHOME_ENTRY_ID, PStr eid), (CONF_ACTION_PREFIX, PStr pfx)]\<rparr>"
proof -
  obtain w1 where "fa_update_data api (dict_merge (ce_data (w_entry w))
      [(CONF_ESPHOME_ENTRY_ID, PStr eid), (CONF_ACTION_PREFIX, PStr pfx)]) w = (Inr (), w1)"
    and "w_entry w1 = (w_entry w)\<lparr>ce_data := dict_merge (ce_data (w_entry w))
      [(CONF_ESPHOME_ENTRY_ID, PStr eid), (CONF_ACTION_PREFIX, PStr pfx)]\<rparr>"
    using stores_dataD [OF assms(1)] by blast
  with assms(2) show ?thesis by (simp add: rebind_def bindA_def del: dict_merge_simps)
qed

text \<open>The entry as it is when it has been re-pointed.\<close>

definition pointed_at :: "string \<Rightarrow> string \<Rightarrow> config_entry \<Rightarrow> config_entry" where
  "pointed_at eid pfx entry = entry\<lparr>ce_data := dict_merge (ce_data entry)
     [(CONF_ESPHOME_ENTRY_ID, PStr eid), (CONF_ACTION_PREFIX, PStr pfx)]\<rparr>"

lemma replace_run:
  assumes keep: "calls_keep w_entry api" and data: "stores_data api"
    and run: "config_step_replace api confirmed (f, w) = (r, f', w')"
  shows "w_entry w' = w_entry w \<or>
    (confirmed \<and> (\<exists>eid pfx status snapshot w1. cf_replacement f = Some (eid, pfx, status) \<and>
       loaded_snapshot w = Some snapshot \<and>
       async_restore api (node_transport eid pfx) snapshot w = (Inr (), w1) \<and>
       r = Inr (Abort ''restore_successful'' []) \<and> w_entry w' = pointed_at eid pfx (w_entry w)))"
proof (cases "cf_replacement f")
  case None
  with run show ?thesis by (simp add: config_step_replace_def bindA_def)
next
  case repl: (Some x)
  obtain eid pfx status where x: "x = (eid, pfx, status)" by (cases x)
  show ?thesis
  proof (cases "loaded_snapshot w")
    case None
    with run repl x show ?thesis by (simp add: config_step_replace_def bindA_def)
  next
    case held: (Some snapshot)
    show ?thesis
    proof (cases "check_restore_target status snapshot = Inr () \<and> confirmed")
      case False
      with run repl x held check_restore_target_cases [of status snapshot] show ?thesis
        by (auto simp: config_step_replace_def bindA_def split: if_splits)
    next
      case True
      obtain y w1 where restore: "async_restore api (node_transport eid pfx) snapshot w = (y, w1)"
        by (cases "async_restore api (node_transport eid pfx) snapshot w")
      have same: "w_entry w1 = w_entry w"
        by (rule keepsD [OF keeps_restore [OF keep] restore])
      show ?thesis
      proof (cases y)
        case (Inl err)
        with run repl x held True restore same show ?thesis
          by (auto simp: config_step_replace_def bindA_def catchA_def split: if_splits)
      next
        case (Inr u)
        obtain z w2 where bound: "rebind api eid pfx ''restore_successful'' w1 = (z, w2)"
          by (cases "rebind api eid pfx ''restore_successful'' w1")
        have "r = z" and "w' = w2"
          using run repl x held True restore Inr bound
          by (auto simp: config_step_replace_def bindA_def catchA_def)
        with rebind_run [OF data bound] same repl x held True restore Inr show ?thesis
          by (auto simp: pointed_at_def)
      qed
    qed
  qed
qed

lemma replace_unconfirmed:
  assumes "calls_keep w_entry api" and "stores_data api" and "config_step_replace api False (f, w) = (r, f', w')"
  shows "w_entry w' = w_entry w"
  using replace_run [OF assms] by simp

lemma reconfigure_run:
  assumes keep: "calls_keep w_entry api" and data: "stores_data api"
    and run: "config_step_reconfigure api user_input (f, w) = (r, f', w')"
  shows "w_entry w' = w_entry w \<or>
    (\<exists>i status w1. user_input = Some i \<and>
       async_status api (node_transport (ni_esphome_entry_id i) (input_prefix i)) w = (Inr status, w1) \<and>
       ce_unique_id (w_entry w) = Some (bs_bridge_id status) \<and>
       r = Inr (Abort ''reconfigure_successful'' []) \<and>
       w_entry w' = pointed_at (ni_esphome_entry_id i) (input_prefix i) (w_entry w))"
proof (cases "esphome_entries api w = []")
  case True
  with run show ?thesis by (simp add: config_step_reconfigure_def bindA_def)
next
  case choices: False
  show ?thesis
  proof (cases user_input)
    case None
    with run choices show ?thesis by (simp add: config_step_reconfigure_def bindA_def reconfigure_form_def)
  next
    case input: (Some i)
    let ?eid = "ni_esphome_entry_id i" and ?pfx = "input_prefix i"
    obtain y w1 where probe: "async_probe api ?eid ?pfx w = (y, w1)" by (cases "async_probe api ?eid ?pfx w")
    have same: "w_entry w1 = w_entry w"
      by (rule keepsD [OF keeps_probe [OF keep] probe])
    show ?thesis
    proof (cases y)
      case (Inl err)
      with run choices input probe same show ?thesis
        by (simp add: config_step_reconfigure_def bindA_def Let_def)
    next
      case (Inr res)
      show ?thesis
      proof (cases "fst res")
        case None
        with run choices input probe same Inr show ?thesis
          by (auto simp: config_step_reconfigure_def bindA_def Let_def reconfigure_form_def case_prod_beta)
      next
        case (Some status)
        then have res: "res = (Some status, snd res)" by (metis prod.collapse)
        have read: "async_status api (node_transport ?eid ?pfx) w = (Inr status, w1)"
          using probe_status probe Inr res by metis
        show ?thesis
        proof (cases "Some (bs_bridge_id status) = ce_unique_id (w_entry w)")
          case True
          obtain z w2 where bound: "rebind api ?eid ?pfx ''reconfigure_successful'' w1 = (z, w2)"
            by (cases "rebind api ?eid ?pfx ''reconfigure_successful'' w1")
          have "r = z" and "w' = w2"
            using run choices input probe same Inr Some True bound
            by (auto simp: config_step_reconfigure_def bindA_def Let_def case_prod_beta)
          with rebind_run [OF data bound] same input read True show ?thesis
            by (auto simp: pointed_at_def)
        next
          case False
          have "config_step_replace api False (f\<lparr>cf_replacement := Some (?eid, ?pfx, status)\<rparr>, w1) = (r, f', w')"
            using run choices input probe same Inr Some False
            by (auto simp: config_step_reconfigure_def bindA_def Let_def case_prod_beta)
          from replace_unconfirmed [OF keep data this] same show ?thesis by simp
        qed
      qed
    qed
  qed
qed

section \<open>Properties\<close>

text \<open>
  C35: An entry is never re-pointed at a bridge that is not its own: when a step of the reconfigure
  dialogue changes the entry, then either the chosen node has just answered with the identity of
  the entry, or the user has confirmed and the replica was restored onto the node, which then
  reported the replica's identity, all its commands and a newer revision. In both cases what
  changes is where the entry points, and nothing else.
\<close>

theorem rebind_is_vouched:
  assumes "calls_keep w_entry api" and "stores_data api"
    and "config_step_reconfigure api user_input (f, w) = (r, f', w') \<or>
      config_step_replace api confirmed (f, w) = (r, f', w')"
    and "w_entry w' \<noteq> w_entry w"
  shows "\<exists>eid pfx status w1 w2. w_entry w' = pointed_at eid pfx (w_entry w) \<and>
    async_status api (node_transport eid pfx) w1 = (Inr status, w2) \<and>
    (ce_unique_id (w_entry w) = Some (bs_bridge_id status) \<or>
     confirmed \<and> (\<exists>snapshot. loaded_snapshot w = Some snapshot \<and> restored status snapshot))"
  using assms(3)
proof
  assume "config_step_reconfigure api user_input (f, w) = (r, f', w')"
  from reconfigure_run [OF assms(1,2) this] assms(4) obtain i status w1 where
    "async_status api (node_transport (ni_esphome_entry_id i) (input_prefix i)) w = (Inr status, w1)"
    "ce_unique_id (w_entry w) = Some (bs_bridge_id status)"
    "w_entry w' = pointed_at (ni_esphome_entry_id i) (input_prefix i) (w_entry w)" by blast
  then show ?thesis by blast
next
  assume "config_step_replace api confirmed (f, w) = (r, f', w')"
  from replace_run [OF assms(1,2) this] assms(4) obtain eid pfx snapshot w1 where
    conf: confirmed and held: "loaded_snapshot w = Some snapshot" and
    restore: "async_restore api (node_transport eid pfx) snapshot w = (Inr (), w1)" and
    entry: "w_entry w' = pointed_at eid pfx (w_entry w)" by blast
  from restore obtain result h2 where
    "async_status api (node_transport eid pfx) h2 = (Inr result, w1)" and "restored result snapshot"
    unfolding async_restore_Inr_iff by blast
  with conf held entry show ?thesis by blast
qed

lemma demo_calls_keep: "calls_keep w_entry demo_flow_api"
  by (simp add: calls_keep_def keeps_def demo_flow_api_def)

theorem rebind_is_vouched_witness:
  "\<exists>f' w'. config_step_reconfigure demo_flow_api (Some \<lparr>ni_esphome_entry_id = ''n2'', ni_action_prefix = None\<rparr>)
       (new_config_flow, demo_world) = (Inr (Abort ''reconfigure_successful'' []), f', w') \<and>
     (\<exists>eid pfx. w_entry w' = pointed_at eid pfx demo_entry)"
proof -
  let ?i = "\<lparr>ni_esphome_entry_id = ''n2'', ni_action_prefix = None\<rparr>"
  let ?run = "config_step_reconfigure demo_flow_api (Some ?i) (new_config_flow, demo_world)"
  have "fst ?run = Inr (Abort ''reconfigure_successful'' [])" by code_simp
  then obtain f' w' where run: "?run = (Inr (Abort ''reconfigure_successful'' []), f', w')" by (metis prod.collapse)
  have "dict_get (ce_data (w_entry (snd (snd ?run)))) CONF_ESPHOME_ENTRY_ID \<noteq>
      dict_get (ce_data demo_entry) CONF_ESPHOME_ENTRY_ID" by code_simp
  with run have changed: "w_entry w' \<noteq> w_entry demo_world" by (auto simp: demo_world_def)
  have "w_entry demo_world = demo_entry" by (simp add: demo_world_def)
  with rebind_is_vouched [where confirmed = False, OF demo_calls_keep demo_flow_stores(2) _ changed] run show ?thesis
    by metis
qed

text \<open>
  Setting a bridge up creates an entry only for a node that exists, offers the bridge's actions
  and has just answered, under the identity in that answer and after Home Assistant has
  accepted it as one no other entry has; the entry points at exactly the node the user chose.
\<close>

theorem setup_creates_answering_bridge:
  assumes "config_step_user api user_input w = (Inr (CreateEntry title data uid), w')"
  shows "\<exists>i status w1 w2. user_input = Some i \<and>
    async_status api (node_transport (ni_esphome_entry_id i) (input_prefix i)) w = (Inr status, w1) \<and>
    fa_set_unique_id api (bs_bridge_id status) w1 = (Inr (), w2) \<and>
    fa_abort_if_configured api (bs_bridge_id status) w2 = (Inr (), w') \<and>
    data = [(CONF_ESPHOME_ENTRY_ID, PStr (ni_esphome_entry_id i)), (CONF_ACTION_PREFIX, PStr (input_prefix i))] \<and>
    title = suggested_title api (ni_esphome_entry_id i) w'"
proof -
  have choices: "esphome_entries api w \<noteq> []" using assms by (auto simp: config_step_user_def bindA_def)
  obtain i where input: "user_input = Some i"
    using assms choices by (cases user_input) (auto simp: config_step_user_def user_form_def)
  let ?eid = "ni_esphome_entry_id i" and ?pfx = "input_prefix i"
  obtain y w1 where probe: "async_probe api ?eid ?pfx w = (y, w1)" by (cases "async_probe api ?eid ?pfx w")
  obtain status err where y: "y = Inr (Some status, err)"
    using assms choices input probe
    by (cases y) (auto simp: config_step_user_def user_form_def bindA_def Let_def split: option.splits)
  obtain z w2 where claim: "fa_set_unique_id api (bs_bridge_id status) w1 = (z, w2)"
    by (cases "fa_set_unique_id api (bs_bridge_id status) w1")
  have z: "z = Inr ()"
    using assms choices input probe y claim
    by (cases z) (auto simp: config_step_user_def bindA_def Let_def)
  obtain v w3 where free: "fa_abort_if_configured api (bs_bridge_id status) w2 = (v, w3)"
    by (cases "fa_abort_if_configured api (bs_bridge_id status) w2")
  have v: "v = Inr ()"
    using assms choices input probe y claim z free
    by (cases v) (auto simp: config_step_user_def bindA_def Let_def)
  with assms choices input probe y claim z free probe_status [OF probe [unfolded y]] show ?thesis
    by (auto simp: config_step_user_def bindA_def Let_def)
qed

theorem setup_creates_answering_bridge_witness:
  "\<exists>title data w'. config_step_user demo_flow_api (Some \<lparr>ni_esphome_entry_id = ''n2'', ni_action_prefix = None\<rparr>)
      demo_world = (Inr (CreateEntry title data None), w') \<and> dict_get data CONF_ACTION_PREFIX = PStr ''rf_''"
proof -
  let ?i = "\<lparr>ni_esphome_entry_id = ''n2'', ni_action_prefix = None\<rparr>"
  let ?run = "config_step_user demo_flow_api (Some ?i) demo_world"
  have "case fst ?run of Inr (CreateEntry _ _ None) \<Rightarrow> True | _ \<Rightarrow> False" by code_simp
  then have "\<exists>title data. fst ?run = Inr (CreateEntry title data None)"
    by (simp split: sum.splits flow_result.splits option.splits)
  then obtain title data w' where run: "?run = (Inr (CreateEntry title data None), w')" by (metis prod.collapse)
  from setup_creates_answering_bridge [OF run] run show ?thesis
    by (auto simp: dict_get_def input_prefix_def const_eqs)
qed

end
