(* ===== verification/Setup.thy ===== *)
theory Setup
  imports FlowRebind
begin

text \<open>
  \<open>custom_components/rf_cloner/__init__.py\<close>: setting an entry up, mirroring every poll, reacting to
  a change of the entry, unloading and removing it. The world is the flows' (\<open>Flows\<close>); what the
  code asks of Home Assistant beyond that - the first refresh of the base class, the entity
  registry, listeners and unload hooks, the platforms, the background task of a snapshot -
  extends the interface. The reconciler's effects (\<open>Reconcile\<close>) are performed in their order.
\<close>

section \<open>What is asked of Home Assistant\<close>

datatype unload_hook = StatusListener | UpdateListener | DeactivateReconciler

record ('w, 'l, 't) setup_api = "'w flow_api" +
  su_storage :: "('w, 't) snapshot_api"
  su_first_refresh :: "('w, exn, bridge_status) act \<Rightarrow> ('w, exn, bridge_status) act"
  su_update_unique_id :: "string \<Rightarrow> ('w, exn, unit) act"
  su_records :: "'w \<Rightarrow> entity_record list"
  su_remove_entity :: "string \<Rightarrow> ('w, exn, unit) act"
  su_call_listener :: "'l \<Rightarrow> ('w, exn, unit) act"
  su_on_unload :: "unload_hook \<Rightarrow> ('w, exn, unit) act"
  su_forward_platforms :: "('w, exn, unit) act"
  su_unload_platforms :: "('w, exn, bool) act"
  su_create_refresh_task :: "bridge_status \<Rightarrow> ('w, exn, unit) act"
  su_schedule_reload :: "string \<Rightarrow> ('w, exn, unit) act"
  su_remove_store :: "string \<Rightarrow> ('w, exn, unit) act"

datatype platform = BINARY_SENSOR | BUTTON | SENSOR

definition PLATFORMS :: "platform list" where
  "PLATFORMS = [BINARY_SENSOR, BUTTON, SENSOR]"

fun perform :: "('w, 'l, 't, 'z) setup_api_scheme \<Rightarrow> 'l effect \<Rightarrow> ('w, exn, unit) act" where
  "perform api (RemoveEntity e) = su_remove_entity api e"
| "perform api (UpdateOptions opts) = fa_update_options api opts"
| "perform api (CallListener l) = su_call_listener api l"

text \<open>Runs the method of an object that is not part of the world yet, and returns the object.\<close>

definition with_object :: "'s \<Rightarrow> ('s \<times> 'h, exn, unit) act \<Rightarrow> ('h, exn, 's) act" where
  "with_object s m = (\<lambda>h. case m (s, h) of (Inl err, (_, h')) \<Rightarrow> (Inl err, h') | (Inr _, (s', h')) \<Rightarrow> (Inr s', h'))"

definition set_runtime :: "('l, 't) runtime_data option \<Rightarrow> (('l, 't, 'x) world, exn, unit) act" where
  "set_runtime r = (\<lambda>w. (Inr (), w\<lparr>w_runtime := r\<rparr>))"

section \<open>Where an entry is bound\<close>

definition entry_node :: "config_entry \<Rightarrow> exn + string" where
  "entry_node entry =
     (case map_of (ce_data entry) CONF_ESPHOME_ENTRY_ID of None \<Rightarrow> Inl KeyError | Some v \<Rightarrow> Inr (py_str v))"

definition entry_prefix :: "config_entry \<Rightarrow> string" where
  "entry_prefix entry =
     (case map_of (ce_data entry) CONF_ACTION_PREFIX of None \<Rightarrow> DEFAULT_ACTION_PREFIX | Some v \<Rightarrow> py_str v)"

section \<open>Mirroring a poll\<close>

text \<open>One method of the loaded reconciler: its new state is stored, then its effects are performed.\<close>

definition run_reconciler ::
  "(('l, 't, 'x) world, 'l, 't, 'z) setup_api_scheme
     \<Rightarrow> (('l, 't, 'x) world \<Rightarrow> 'l reconciler \<Rightarrow> 'l reconciler \<times> 'l effect list)
     \<Rightarrow> (('l, 't, 'x) world, exn, unit) act" where
  "run_reconciler api m =
     bindA (readA id) (\<lambda>w.
       case w_runtime w of
         None \<Rightarrow> retA ()
       | Some r \<Rightarrow>
           let (rc, effs) = m w (rd_reconciler r) in
           bindA (set_runtime (Some (r\<lparr>rd_reconciler := rc\<rparr>))) (\<lambda>_. forA (perform api) effs))"

definition handle_status ::
  "(('l, 't, 'x) world, 'l, 't, 'z) setup_api_scheme \<Rightarrow> (('l, 't, 'x) world, exn, unit) act" where
  "handle_status api =
     bindA (readA loaded_status) (\<lambda>current.
       case current of
         None \<Rightarrow> retA ()
       | Some status \<Rightarrow>
           bindA (run_reconciler api (\<lambda>w. async_reconcile (w_entry w) (su_records api w) status)) (\<lambda>_.
           su_create_refresh_task api status))"

section \<open>Setting up\<close>

text \<open>The identity: the entry's, or for an entry without one the first the hardware reports.\<close>

definition adopt_identity ::
  "(('l, 't, 'x) world, 'l, 't, 'z) setup_api_scheme \<Rightarrow> bridge_status \<Rightarrow> (('l, 't, 'x) world, exn, string) act" where
  "adopt_identity api status =
     bindA (readA w_entry) (\<lambda>entry.
     bindA (if ce_unique_id entry = None then su_update_unique_id api (bs_bridge_id status) else retA ()) (\<lambda>_.
     readA (\<lambda>w. str_or (ce_unique_id (w_entry w)) (bs_bridge_id status))))"

text \<open>The devices, the replica and a first reconcile, which nobody listens to yet.\<close>

definition load_bridge ::
  "(('l, 't, 'x) world, 'l, 't, 'z) setup_api_scheme \<Rightarrow> string \<Rightarrow> string \<Rightarrow> string \<Rightarrow> bridge_status
     \<Rightarrow> (('l, 't, 'x) world, exn, ('l, 't) runtime_data) act" where
  "load_bridge api esphome_entry_id action_prefix bridge_id status =
     bindA (readA w_entry) (\<lambda>entry.
     bindA (async_register_bridge_device api entry esphome_entry_id bridge_id) (\<lambda>bridge_device.
     bindA (async_sync_target_devices api entry bridge_id (de_id bridge_device)) (\<lambda>_.
     bindA (with_object \<lparr>sm_bridge_id = bridge_id, sm_snapshot = None\<rparr> (async_load (su_storage api))) (\<lambda>snapshots.
     bindA (readA (\<lambda>w. async_reconcile (w_entry w) (su_records api w) status
       (async_snapshot_targets (w_entry w) new_reconciler))) (\<lambda>(rc, effs).
     bindA (forA (perform api) effs) (\<lambda>_.
     retA \<lparr>rd_bridge_id = bridge_id, rd_bridge_device_id = de_id bridge_device,
       rd_transport = node_transport esphome_entry_id action_prefix, rd_status = Some status,
       rd_reconciler = rc, rd_snapshots = snapshots,
       rd_bound_to = (esphome_entry_id, action_prefix)\<rparr>))))))"

text \<open>Listeners and hooks, the platforms, and only then removals count as the user's.\<close>

definition start_mirroring ::
  "(('l, 't, 'x) world, 'l, 't, 'z) setup_api_scheme \<Rightarrow> (('l, 't, 'x) world, exn, bool) act" where
  "start_mirroring api =
     bindA (su_on_unload api StatusListener) (\<lambda>_.
     bindA (su_on_unload api UpdateListener) (\<lambda>_.
     bindA (su_on_unload api DeactivateReconciler) (\<lambda>_.
     bindA (su_forward_platforms api) (\<lambda>_.
     bindA (readA w_entry) (\<lambda>entry.
     bindA (on_reconciler (async_activate entry)) (\<lambda>_.
     bindA (handle_status api) (\<lambda>_.
     retA True)))))))"

definition async_setup_entry ::
  "(('l, 't, 'x) world, 'l, 't, 'z) setup_api_scheme \<Rightarrow> (('l, 't, 'x) world, exn, bool) act" where
  "async_setup_entry api =
     bindA (readA w_entry) (\<lambda>entry.
     bindA (liftE (entry_node entry)) (\<lambda>esphome_entry_id.
     bindA (readA (\<lambda>w. h_get_entry api w esphome_entry_id)) (\<lambda>node.
     if node = None then raiseA (ConfigEntryError ''esphome_entry_missing'')
     else
       bindA (su_first_refresh api (async_update_data api
         (node_transport esphome_entry_id (entry_prefix entry)))) (\<lambda>status.
       bindA (adopt_identity api status) (\<lambda>bridge_id.
       bindA (load_bridge api esphome_entry_id (entry_prefix entry) bridge_id status) (\<lambda>runtime.
       bindA (set_runtime (Some runtime)) (\<lambda>_.
       start_mirroring api)))))))"

section \<open>After that\<close>

definition entry_updated ::
  "(('l, 't, 'x) world, 'l, 't, 'z) setup_api_scheme \<Rightarrow> (('l, 't, 'x) world, exn, unit) act" where
  "entry_updated api =
     bindA (readA id) (\<lambda>w.
       case w_runtime w of
         None \<Rightarrow> retA ()
       | Some runtime \<Rightarrow>
           bindA (liftE (entry_node (w_entry w))) (\<lambda>node.
           if (node, entry_prefix (w_entry w)) \<noteq> rd_bound_to runtime
           then su_schedule_reload api (ce_entry_id (w_entry w))
           else
             bindA (async_sync_target_devices api (w_entry w) (rd_bridge_id runtime) (rd_bridge_device_id runtime)) (\<lambda>_.
             run_reconciler api (\<lambda>w. async_handle_entry_update (w_entry w) (loaded_status w)))))"

definition async_unload_entry ::
  "('w, 'l, 't, 'z) setup_api_scheme \<Rightarrow> ('w, exn, bool) act" where
  "async_unload_entry api = su_unload_platforms api"

definition async_remove_entry ::
  "(('l, 't, 'x) world, 'l, 't, 'z) setup_api_scheme \<Rightarrow> (('l, 't, 'x) world, exn, unit) act" where
  "async_remove_entry api =
     bindA (readA (ce_unique_id \<circ> w_entry)) (\<lambda>unique_id.
       case unique_id of
         None \<Rightarrow> retA ()
       | Some bridge_id \<Rightarrow> async_remove_snapshot (su_remove_store api) bridge_id)"

section \<open>Lemmas: what setting up leaves alone\<close>

text \<open>
  What the operations of Home Assistant do to the identity of the entry and to the identity of
  the runtime: nothing, but for the one update that stores the entry's unique id; and the first
  refresh holds the status an update of this bridge returned.
\<close>

definition identities :: "('l, 't, 'x) world \<Rightarrow> string option \<times> string option" where
  "identities w = (ce_unique_id (w_entry w), map_option rd_bridge_id (w_runtime w))"

definition setup_laws :: "(('l, 't, 'x) world, 'l, 't, 'z) setup_api_scheme \<Rightarrow> bool" where
  "setup_laws api \<longleftrightarrow>
     calls_keep identities api \<and>
     (\<forall>spec. keeps identities (dv_get_or_create api spec)) \<and>
     (\<forall>k u. keeps identities (dv_update api k u)) \<and>
     (\<forall>k. keeps identities (sa_load (su_storage api) k)) \<and>
     (\<forall>opts. keeps identities (fa_update_options api opts)) \<and>
     (\<forall>e. keeps identities (su_remove_entity api e)) \<and>
     (\<forall>l. keeps identities (su_call_listener api l)) \<and>
     (\<forall>k. keeps identities (su_on_unload api k)) \<and>
     keeps identities (su_forward_platforms api) \<and>
     (\<forall>s. keeps identities (su_create_refresh_task api s)) \<and>
     (\<forall>m. keeps identities m \<longrightarrow> keeps identities (su_first_refresh api m)) \<and>
     (\<forall>m w s w'. su_first_refresh api m w = (Inr s, w') \<longrightarrow> (\<exists>w1 w2. m w1 = (Inr s, w2))) \<and>
     (\<forall>b w r w'. su_update_unique_id api b w = (r, w') \<longrightarrow>
        r = Inr () \<and> identities w' = (Some b, snd (identities w)))"

lemma setup_lawsD:
  assumes "setup_laws api"
  shows "calls_keep identities api"
    and "keeps identities (dv_get_or_create api spec)" and "keeps identities (dv_update api k u)"
    and "keeps identities (sa_load (su_storage api) k)" and "keeps identities (fa_update_options api opts)"
    and "keeps identities (su_remove_entity api e)" and "keeps identities (su_call_listener api l)"
    and "keeps identities (su_on_unload api hook)" and "keeps identities (su_forward_platforms api)"
    and "keeps identities (su_create_refresh_task api s)"
    and "keeps identities m \<Longrightarrow> keeps identities (su_first_refresh api m)"
  using assms unfolding setup_laws_def by blast+

lemma bindA_InrE:
  assumes "bindA m f h = (Inr b, h'')"
  obtains a h' where "m h = (Inr a, h')" and "f a h' = (Inr b, h'')"
  using assms unfolding bindA_eq_Inr by blast

lemma keeps_on_world [keeps_intros]:
  "keeps f m \<Longrightarrow> keeps (f \<circ> snd) (on_world m)" "keeps (f \<circ> snd) (own g)" "keeps (f \<circ> snd) (set_own s)"
  by (auto simp: keeps_def on_world_def own_def set_own_def split: prod.splits)

lemma keeps_with_object:
  assumes "keeps (f \<circ> snd) m"
  shows "keeps f (with_object s m)"
  unfolding keeps_def
proof (intro allI impI)
  fix h r h'
  assume run: "with_object s m h = (r, h')"
  obtain x s1 h1 where m: "m (s, h) = (x, (s1, h1))" by (cases "m (s, h)") auto
  with run have "h' = h1" by (cases x) (simp_all add: with_object_def)
  with keepsD [OF assms m] show "f h' = f h" by simp
qed

lemma keeps_update_data [keeps_intros]: "calls_keep f api \<Longrightarrow> keeps f (async_update_data api t)"
  unfolding async_update_data_def by (intro keeps_intros)

lemma keeps_register [keeps_intros]:
  assumes "\<And>spec. keeps f (dv_get_or_create api spec)" and "\<And>k u. keeps f (dv_update api k u)"
  shows "keeps f (async_register_bridge_device api entry eid b)"
    and "keeps f (async_register_target_device api entry b d target)"
    and "keeps f (async_sync_target_devices api entry b d)"
  unfolding async_sync_target_devices_def async_register_bridge_device_def async_register_target_device_def
  by (intro keeps_intros assms)+

lemma keeps_load: "(\<And>k. keeps f (sa_load api k)) \<Longrightarrow> keeps (f \<circ> snd) (async_load api)"
  unfolding async_load_def by (intro keeps_intros)


lemma keeps_perform [keeps_intros]: "setup_laws api \<Longrightarrow> keeps identities (perform api eff)"
  by (cases eff) (simp_all add: setup_lawsD)

lemma keeps_reconciler [keeps_intros]: "keeps identities (on_reconciler g)"
  by (auto simp: keeps_def on_reconciler_def identities_def option.map_comp comp_def)

lemma keeps_run_reconciler [keeps_intros]:
  assumes "setup_laws api"
  shows "keeps identities (run_reconciler api m)"
  unfolding keeps_def
proof (intro allI impI)
  fix w r w'
  assume run: "run_reconciler api m w = (r, w')"
  show "identities w' = identities w"
  proof (cases "w_runtime w")
    case None
    with run show ?thesis by (simp add: run_reconciler_def)
  next
    case (Some rt)
    obtain rc effs where m: "m w (rd_reconciler rt) = (rc, effs)" by (cases "m w (rd_reconciler rt)")
    let ?w1 = "w\<lparr>w_runtime := Some (rt\<lparr>rd_reconciler := rc\<rparr>)\<rparr>"
    have "forA (perform api) effs ?w1 = (r, w')"
      using run Some m by (simp add: run_reconciler_def set_runtime_def bindA_def)
    from keepsD [OF keeps_for [OF keeps_perform [OF assms]] this] Some show ?thesis
      by (simp add: identities_def)
  qed
qed

lemma keeps_handle_status [keeps_intros]:
  assumes "setup_laws api"
  shows "keeps identities (handle_status api)"
  unfolding handle_status_def by (intro keeps_intros setup_lawsD(10) assms)

lemma keeps_start_mirroring:
  assumes "setup_laws api"
  shows "keeps identities (start_mirroring api)"
  unfolding start_mirroring_def by (intro keeps_intros setup_lawsD [OF assms] assms)

lemma adopt_identity_run:
  assumes laws: "setup_laws api" and run: "adopt_identity api status w = (Inr bridge_id, w')"
  shows "ce_unique_id (w_entry w') =
      (case ce_unique_id (w_entry w) of None \<Rightarrow> Some (bs_bridge_id status) | Some b \<Rightarrow> Some b) \<and>
    bridge_id = str_or (ce_unique_id (w_entry w')) (bs_bridge_id status)"
proof (cases "ce_unique_id (w_entry w)")
  case (Some b)
  with run show ?thesis by (auto simp: adopt_identity_def)
next
  case None
  obtain r w1 where upd: "su_update_unique_id api (bs_bridge_id status) w = (r, w1)"
    by (cases "su_update_unique_id api (bs_bridge_id status) w")
  with laws have "r = Inr ()" and "identities w1 = (Some (bs_bridge_id status), snd (identities w))"
    unfolding setup_laws_def by blast+
  with run None upd show ?thesis by (auto simp: adopt_identity_def bindA_def identities_def)
qed

lemma load_bridge_run:
  assumes laws: "setup_laws api" and run: "load_bridge api eid pfx bridge_id status w = (Inr runtime, w')"
  shows "identities w' = identities w \<and> rd_bridge_id runtime = bridge_id"
proof
  have "keeps identities (load_bridge api eid pfx bridge_id status)"
    unfolding load_bridge_def case_prod_beta
    by (intro keeps_intros keeps_with_object keeps_load setup_lawsD [OF laws] laws)
  from keepsD [OF this run] show "identities w' = identities w" .
  show "rd_bridge_id runtime = bridge_id"
    using run by (auto simp: load_bridge_def bindA_eq_Inr case_prod_beta)
qed

section \<open>Properties\<close>

text \<open>
  C39: An entry that has been set up has one identity, and it is the entry's: the unique id it had
  when it had one, whatever the hardware reports, and the identity in the first status, which a
  poll of its node returned, when it had none. The runtime data carry that identity, so devices
  and entities are made under it.
\<close>

theorem setup_adopts_identity:
  assumes laws: "setup_laws api" and named: "ce_unique_id (w_entry w) \<noteq> Some []"
    and run: "async_setup_entry api w = (Inr ok, w')"
  shows "ok \<and> (\<exists>eid status w1 w2. entry_node (w_entry w) = Inr eid \<and> h_get_entry api w eid \<noteq> None \<and>
    async_update_data api (node_transport eid (entry_prefix (w_entry w))) w1 = (Inr status, w2) \<and>
    (let b = (case ce_unique_id (w_entry w) of None \<Rightarrow> bs_bridge_id status | Some b \<Rightarrow> b) in
       identities w' = (Some b, Some b)))"
proof -
  obtain eid where eid: "entry_node (w_entry w) = Inr eid"
    using run by (cases "entry_node (w_entry w)") (simp_all add: async_setup_entry_def)
  have known: "h_get_entry api w eid \<noteq> None"
  proof
    assume "h_get_entry api w eid = None"
    with run eid show False by (simp add: async_setup_entry_def)
  qed
  let ?t = "node_transport eid (entry_prefix (w_entry w))"
  from run eid known obtain status wa bridge_id wb runtime wc where
    refresh: "su_first_refresh api (async_update_data api ?t) w = (Inr status, wa)" and
    adopt: "adopt_identity api status wa = (Inr bridge_id, wb)" and
    load: "load_bridge api eid (entry_prefix (w_entry w)) bridge_id status wb = (Inr runtime, wc)" and
    mirror: "start_mirroring api (wc\<lparr>w_runtime := Some runtime\<rparr>) = (Inr ok, w')"
    by (auto simp: async_setup_entry_def bindA_eq_Inr set_runtime_def)
  from laws refresh obtain w1 w2 where read: "async_update_data api ?t w1 = (Inr status, w2)"
    unfolding setup_laws_def by blast
  let ?b = "case ce_unique_id (w_entry w) of None \<Rightarrow> bs_bridge_id status | Some b \<Rightarrow> b"
  have "identities wa = identities w"
    by (rule keepsD [OF setup_lawsD(11) [OF laws keeps_update_data] refresh]) (rule setup_lawsD(1) [OF laws])
  then have wa: "ce_unique_id (w_entry wa) = ce_unique_id (w_entry w)" by (simp add: identities_def)
  have wb: "ce_unique_id (w_entry wb) = Some ?b \<and> bridge_id = ?b"
    using adopt_identity_run [OF laws adopt] wa named by (auto simp: str_or_def split: option.splits)
  have "identities wc = identities wb" and "rd_bridge_id runtime = bridge_id"
    using load_bridge_run [OF laws load] by simp_all
  with wb have "identities (wc\<lparr>w_runtime := Some runtime\<rparr>) = (Some ?b, Some ?b)"
    by (simp add: identities_def)
  moreover have "identities w' = identities (wc\<lparr>w_runtime := Some runtime\<rparr>)"
    by (rule keepsD [OF keeps_start_mirroring [OF laws] mirror])
  moreover have ok using mirror by (auto simp: start_mirroring_def bindA_eq_Inr)
  ultimately show ?thesis using eid known read by (auto simp: Let_def)
qed

definition demo_setup_api :: "((unit, string, unit) world, unit, string) setup_api" where
  "demo_setup_api = flow_api.extend
     (demo_flow_api\<lparr>h_get_entry := (\<lambda>w i. Some demo_node_entry),
        dv_get_or_create := (\<lambda>spec w. (Inr \<lparr>de_id = ''d'', de_name = ds_name spec,
          de_model = ds_model spec, de_area_id = None, de_via_device_id = ds_via_device_id spec\<rparr>, w))\<rparr>)
     \<lparr>su_storage = \<lparr>h_get_entry = (\<lambda>w i. None), h_has_service = (\<lambda>w d s. False),
         h_call = (\<lambda>d s data r w. (Inr PNone, w)),
         sa_load = (\<lambda>k w. (Inr None, w)), sa_save = (\<lambda>k v w. (Inr (), w)), sa_utcnow = (\<lambda>w. ''now''),
         sa_parse_datetime = (\<lambda>v. Inr None), sa_isoformat = id\<rparr>,
      su_first_refresh = (\<lambda>m. m),
      su_update_unique_id = (\<lambda>b w. (Inr (), w\<lparr>w_entry := (w_entry w)\<lparr>ce_unique_id := Some b\<rparr>\<rparr>)),
      su_records = (\<lambda>w. []), su_remove_entity = (\<lambda>e w. (Inr (), w)), su_call_listener = (\<lambda>l w. (Inr (), w)),
      su_on_unload = (\<lambda>k w. (Inr (), w)), su_forward_platforms = (\<lambda>w. (Inr (), w)),
      su_unload_platforms = (\<lambda>w. (Inr True, w)), su_create_refresh_task = (\<lambda>s w. (Inr (), w)),
      su_schedule_reload = (\<lambda>i w. (Inr (), w)), su_remove_store = (\<lambda>k w. (Inr (), w))\<rparr>"

lemma demo_setup_laws: "setup_laws demo_setup_api"
  by (auto simp: setup_laws_def calls_keep_def keeps_def demo_setup_api_def demo_flow_api_def
      flow_api.defs identities_def)

theorem setup_adopts_identity_witness:
  "\<exists>w'. async_setup_entry demo_setup_api (demo_world\<lparr>w_entry := demo_entry\<lparr>ce_unique_id := None\<rparr>\<rparr>) = (Inr True, w') \<and>
     ce_unique_id (w_entry w') = Some ''b1''"
proof -
  let ?w = "demo_world\<lparr>w_entry := demo_entry\<lparr>ce_unique_id := None\<rparr>\<rparr>"
  let ?run = "async_setup_entry demo_setup_api ?w"
  have "fst ?run = Inr True" by code_simp
  then obtain w' where run: "?run = (Inr True, w')" by (metis prod.collapse)
  have "ce_unique_id (w_entry w') = Some ''b1''"
  proof -
    have "ce_unique_id (w_entry ?w) \<noteq> Some []" by simp
    from setup_adopts_identity [OF demo_setup_laws this run] obtain eid status w1 w2 where
      read: "async_update_data demo_setup_api (node_transport eid (entry_prefix (w_entry ?w))) w1 = (Inr status, w2)"
      and ids: "identities w' = (Some (bs_bridge_id status), Some (bs_bridge_id status))"
      by (auto simp: Let_def)
    have "bs_bridge_id status = ''b1''"
      using read
      by (auto simp: async_update_data_def async_status_def transport_call_def bindA_def catchA_def
          demo_setup_api_def demo_flow_api_def flow_api.defs demo_status_payload_def assert_payload_def
          bridge_status_from_payload_def get_int_def service_name_def node_name_def demo_node_entry_def
          dict_get_def node_transport_def const_eqs split: if_splits)
    with ids show ?thesis by (simp add: identities_def)
  qed
  with run show ?thesis by blast
qed

text \<open>
  A poll that brings another bridge's identity touches nothing but the alarm: no registry record
  is removed, no option is stored, no listener is called; and the background task it starts
  leaves the replica alone, as the replica is the entry's own bridge's.
\<close>

theorem foreign_poll_touches_nothing:
  assumes "w_runtime w = Some runtime" and "rd_status runtime = Some status"
    and "foreign_status (w_entry w) status" and "ce_unique_id (w_entry w) = Some (sm_bridge_id (rd_snapshots runtime))"
  shows "handle_status api w = su_create_refresh_task api status
      (w\<lparr>w_runtime := Some (runtime\<lparr>rd_reconciler := (rd_reconciler runtime)\<lparr>rc_identity_mismatch := True\<rparr>\<rparr>)\<rparr>) \<and>
    async_refresh storage t status (rd_snapshots runtime, h) = (Inr (), (rd_snapshots runtime, h))"
proof
  have "async_reconcile (w_entry w) (su_records api w) status (rd_reconciler runtime) =
      ((rd_reconciler runtime)\<lparr>rc_identity_mismatch := True\<rparr>, [])"
    using assms(3) by (simp add: async_reconcile_def)
  then show "handle_status api w = su_create_refresh_task api status
      (w\<lparr>w_runtime := Some (runtime\<lparr>rd_reconciler := (rd_reconciler runtime)\<lparr>rc_identity_mismatch := True\<rparr>\<rparr>)\<rparr>)"
    using assms(1,2) by (simp add: handle_status_def run_reconciler_def loaded_status_def set_runtime_def bindA_def)
  show "async_refresh storage t status (rd_snapshots runtime, h) = (Inr (), (rd_snapshots runtime, h))"
    using assms(3,4) by (intro async_refresh_not_due) (simp add: refresh_due_def foreign_status_def)
qed

theorem foreign_poll_touches_nothing_witness:
  "async_refresh demo_api demo_transport (demo_status\<lparr>bs_bridge_id := ''other''\<rparr>) (rd_snapshots demo_runtime, []) =
     (Inr (), (rd_snapshots demo_runtime, []))"
proof -
  let ?rt = "demo_runtime\<lparr>rd_status := Some (demo_status\<lparr>bs_bridge_id := ''other''\<rparr>)\<rparr>"
  show ?thesis
    using foreign_poll_touches_nothing [where w = "demo_world\<lparr>w_runtime := Some ?rt\<rparr>" and runtime = ?rt
        and status = "demo_status\<lparr>bs_bridge_id := ''other''\<rparr>" and api = demo_setup_api
        and storage = demo_api and t = demo_transport and h = "[]"]
    by (simp add: foreign_status_def demo_world_def demo_entry_def demo_runtime_def demo_manager_def)
qed

end
