(* ===== verification/Entities.thy ===== *)
theory Entities
  imports Reconcile
begin

text \<open>
  \<open>custom_components/rf_cloner/entity.py\<close>, \<open>sensor.py\<close> and \<open>binary_sensor.py\<close>: what the
  integration's entities are and how they read the coordinator's data. Home Assistant's entity
  base classes are outside; whether the coordinator's last poll succeeded (\<open>super().available\<close>)
  and whether the transport is available are arguments.
\<close>

section \<open>Entities of the bridge\<close>

record bridge_entity =
  be_unique_id :: string
  be_translation_key :: string
  be_device :: "string \<times> string"

definition bridge_entity_init :: "string \<Rightarrow> string \<Rightarrow> bridge_entity" where
  "bridge_entity_init bridge_id key =
     \<lparr>be_unique_id = bridge_id @ ''_'' @ key, be_translation_key = key, be_device = (DOMAIN, bridge_id)\<rparr>"

definition bridge_entity_available :: "bool \<Rightarrow> bool \<Rightarrow> bool" where
  "bridge_entity_available super_available transport_available \<longleftrightarrow> super_available \<and> transport_available"

section \<open>Entities of commands\<close>

record command_entity =
  ent_bridge_id :: string
  ent_command_id :: int
  ent_name :: string
  ent_target :: "rf_target option"
  ent_unique_id :: string
  ent_icon :: string
  ent_has_entity_name :: bool
  ent_device :: "(string \<times> string) option"

definition command_entity_init ::
  "string \<Rightarrow> int \<Rightarrow> string \<Rightarrow> rf_target option \<Rightarrow> string \<Rightarrow> command_entity" where
  "command_entity_init bridge_id command_id nm target icon =
     \<lparr>ent_bridge_id = bridge_id, ent_command_id = command_id, ent_name = nm, ent_target = target,
      ent_unique_id = command_unique_id bridge_id command_id, ent_icon = icon,
      ent_has_entity_name = (target \<noteq> None),
      ent_device = (case target of None \<Rightarrow> None
        | Some t \<Rightarrow> Some (DOMAIN, device_identifier t bridge_id))\<rparr>"

definition entity_command :: "command_entity \<Rightarrow> bridge_status option \<Rightarrow> command_info option" where
  "entity_command e data =
     (case data of None \<Rightarrow> None | Some status \<Rightarrow> map_of (by_id status) (ent_command_id e))"

text \<open>Reading the name remembers the last one the device reported.\<close>

definition entity_name :: "bridge_status option \<Rightarrow> command_entity \<Rightarrow> string \<times> command_entity" where
  "entity_name data e =
     (case entity_command e data of
        None \<Rightarrow> (ent_name e, e)
      | Some command \<Rightarrow> (ci_name command, e\<lparr>ent_name := ci_name command\<rparr>))"

definition entity_available :: "bool \<Rightarrow> bool \<Rightarrow> bridge_status option \<Rightarrow> command_entity \<Rightarrow> bool" where
  "entity_available super_available transport_available data e \<longleftrightarrow>
     super_available \<and> transport_available \<and> entity_command e data \<noteq> None"

section \<open>Sensors\<close>

record sensor_description =
  sd_key :: string
  sd_translation_key :: string
  sd_state_class :: "string option"
  sd_unit :: "string option"
  sd_options :: "string list option"
  sd_diagnostic :: bool
  sd_enabled_default :: bool
  sd_value :: "bridge_status \<Rightarrow> pyval"

definition SENSORS :: "sensor_description list" where
  "SENSORS =
    [\<lparr>sd_key = ''command_count'', sd_translation_key = ''command_count'',
      sd_state_class = Some ''measurement'', sd_unit = None, sd_options = None,
      sd_diagnostic = False, sd_enabled_default = True,
      sd_value = (\<lambda>status. PInt (bs_count status))\<rparr>,
     \<lparr>sd_key = ''storage_used'', sd_translation_key = ''storage_used'',
      sd_state_class = Some ''measurement'', sd_unit = Some ''B'', sd_options = None,
      sd_diagnostic = True, sd_enabled_default = False,
      sd_value = (\<lambda>status. PInt (bs_used_bytes status))\<rparr>,
     \<lparr>sd_key = ''learn_state'', sd_translation_key = ''learn_state'',
      sd_state_class = None, sd_unit = None,
      sd_options = Some [''idle'', ''armed'', ''captured'', ''failed'', ''unknown''],
      sd_diagnostic = True, sd_enabled_default = True,
      sd_value = (\<lambda>status. PStr (bs_state status))\<rparr>,
     \<lparr>sd_key = ''last_result'', sd_translation_key = ''last_result'',
      sd_state_class = None, sd_unit = None, sd_options = None,
      sd_diagnostic = True, sd_enabled_default = True,
      sd_value = (\<lambda>status. PStr (if bs_last_result status = [] then ''none'' else bs_last_result status))\<rparr>,
     \<lparr>sd_key = ''revision'', sd_translation_key = ''revision'',
      sd_state_class = None, sd_unit = None, sd_options = None,
      sd_diagnostic = True, sd_enabled_default = False,
      sd_value = (\<lambda>status. PInt (bs_revision status))\<rparr>]"

definition bridge_sensors :: "string \<Rightarrow> (bridge_entity \<times> sensor_description) list" where
  "bridge_sensors bridge_id = map (\<lambda>d. (bridge_entity_init bridge_id (sd_key d), d)) SENSORS"

definition native_value :: "sensor_description \<Rightarrow> bridge_status option \<Rightarrow> pyval option" where
  "native_value d data = map_option (sd_value d) data"

section \<open>Problem indicators\<close>

record binary_description =
  bd_key :: string
  bd_translation_key :: string
  bd_value :: "bridge_status \<Rightarrow> bool"

definition BINARY_SENSORS :: "binary_description list" where
  "BINARY_SENSORS =
    [\<lparr>bd_key = ''read_only'', bd_translation_key = ''read_only'', bd_value = bs_read_only\<rparr>,
     \<lparr>bd_key = ''restore_incomplete'', bd_translation_key = ''restore_incomplete'',
      bd_value = bs_restore_incomplete\<rparr>]"

definition bridge_binary_sensors :: "string \<Rightarrow> (bridge_entity \<times> binary_description) list" where
  "bridge_binary_sensors bridge_id = map (\<lambda>d. (bridge_entity_init bridge_id (bd_key d), d)) BINARY_SENSORS"

definition is_on :: "binary_description \<Rightarrow> bridge_status option \<Rightarrow> bool option" where
  "is_on d data = map_option (bd_value d) data"

definition extra_state_attributes ::
  "binary_description \<Rightarrow> bridge_status option \<Rightarrow> (string, string) dict option" where
  "extra_state_attributes d data =
     (if bd_key d \<noteq> ''read_only'' then None
      else case data of None \<Rightarrow> None | Some status \<Rightarrow> Some [(''fault'', bs_fault status)])"

section \<open>The control the button platform adds beside the commands\<close>

definition cancel_learn_button :: "string \<Rightarrow> bridge_entity" where
  "cancel_learn_button bridge_id = bridge_entity_init bridge_id ''cancel_learn''"

section \<open>Lemmas: identities\<close>

text \<open>Every entity of the bridge itself, whatever its platform.\<close>

definition own_entities :: "string \<Rightarrow> bridge_entity list" where
  "own_entities bridge_id =
     cancel_learn_button bridge_id # map fst (bridge_sensors bridge_id) @ map fst (bridge_binary_sensors bridge_id)"

definition own_keys :: "string list" where
  "own_keys = ''cancel_learn'' # map sd_key SENSORS @ map bd_key BINARY_SENSORS"

lemma own_entities_keys: "own_entities bridge_id = map (bridge_entity_init bridge_id) own_keys"
  by (simp add: own_entities_def own_keys_def cancel_learn_button_def bridge_sensors_def
      bridge_binary_sensors_def comp_def)

lemma own_keys_words: "list_all (\<lambda>key. int_of_str key = None) own_keys"
  by code_simp

lemma distinct_own_keys: "distinct own_keys"
  by code_simp

lemma own_entity_no_command:
  "e \<in> set (own_entities bridge_id) \<Longrightarrow> command_id_from_unique_id bridge_id (be_unique_id e) = None"
proof -
  assume "e \<in> set (own_entities bridge_id)"
  then obtain key where "key \<in> set own_keys" and e: "e = bridge_entity_init bridge_id key"
    by (auto simp: own_entities_keys)
  then have "int_of_str key = None" using own_keys_words by (simp add: list_all_iff)
  then show ?thesis using command_id_from_word by (simp add: e bridge_entity_init_def)
qed

lemma command_entity_unique_id [simp]:
  "ent_unique_id (command_entity_init bridge_id command_id nm target icon) = command_unique_id bridge_id command_id"
  by (simp add: command_entity_init_def)

lemma distinct_own_unique_ids: "distinct (map be_unique_id (own_entities bridge_id))"
  using distinct_own_keys
  by (simp add: own_entities_keys comp_def bridge_entity_init_def distinct_map inj_on_def)

section \<open>Properties\<close>

text \<open>
  No two entities of a bridge share a unique id: neither two commands, nor a command and one of
  the bridge's own sensors and controls. So the purge, which reads a command id back from a
  unique id, sees every command under its own id and none of the bridge's own entities.
\<close>

theorem entity_identities_distinct:
  "(distinct (map be_unique_id (own_entities b) @ map (\<lambda>k. ent_unique_id (command_entity_init b k (nm k) (tgt k) (icon k))) ks)
      \<longleftrightarrow> distinct ks) \<and>
   command_id_from_unique_id b (ent_unique_id (command_entity_init b k (nm k) (tgt k) (icon k))) = Some k \<and>
   list_all (\<lambda>e. command_id_from_unique_id b (be_unique_id e) = None) (own_entities b)"
proof -
  have "distinct (map (command_unique_id b) ks) \<longleftrightarrow> distinct ks"
    by (rule unique_ids.distinct_enc) simp
  moreover have "be_unique_id ` set (own_entities b) \<inter> command_unique_id b ` set ks = {}"
  proof -
    have "be_unique_id e \<noteq> command_unique_id b j" if "e \<in> set (own_entities b)" for e j
      using own_entity_no_command [OF that] by (auto dest: arg_cong [of _ _ "command_id_from_unique_id b"])
    then show ?thesis by blast
  qed
  ultimately show ?thesis
    using distinct_own_unique_ids [of b] own_entity_no_command [of _ b]
    by (auto simp: list_all_iff)
qed

text \<open>
  A command's entity follows the device: while the last read lists the command it shows the
  name of the row with its id and is available whenever the bridge is; once the command is
  gone it keeps the last name it showed and is unavailable, whatever else holds.
\<close>

theorem entity_follows_device:
  "case entity_name data e of (shown, e') \<Rightarrow>
     ent_unique_id e' = ent_unique_id e \<and> ent_target e' = ent_target e \<and>
     (case entity_command e data of
        None \<Rightarrow> shown = ent_name e \<and> \<not> entity_available up reachable data e'
      | Some c \<Rightarrow> ci_command_id c = ent_command_id e \<and> shown = ci_name c \<and>
          (entity_available up reachable data e' \<longleftrightarrow> up \<and> reachable) \<and>
          fst (entity_name None e') = ci_name c)"
proof (cases "entity_command e data")
  case None
  then show ?thesis by (simp add: entity_name_def entity_available_def)
next
  case (Some c)
  then obtain status where "data = Some status" and "map_of (by_id status) (ent_command_id e) = Some c"
    by (auto simp: entity_command_def split: option.splits)
  then show ?thesis
    using by_id_SomeD by (auto simp: entity_name_def entity_available_def entity_command_def)
qed

end
