(* ===== verification/Button.thy ===== *)
theory Button
  imports Entities Coordinator
begin

text \<open>
  \<open>custom_components/rf_cloner/button.py\<close>: the platform that keeps one button per visible command
  where the organisation puts it. The two dicts of \<open>async_setup_entry\<close>'s closure are a record;
  what a pass asks of Home Assistant - adding an entity, removing one, writing an icon - is an
  effect it emits, in order. Home Assistant runs other code while a removal is awaited, so the
  entry read when a button is added (\<open>entry_add\<close>) need not be the one scanned (\<open>entry\<close>).
\<close>

section \<open>The platform's state and effects\<close>

record button_platform =
  bp_placed :: "(int, string option) dict"
  bp_entities :: "(int, command_entity) dict"

datatype button_effect =
    AddEntity command_entity "string option"
  | RemoveEntityObject command_entity
  | WriteOriginalIcon string string
  | WriteState command_entity

definition empty_platform :: button_platform where
  "empty_platform = \<lparr>bp_placed = [], bp_entities = []\<rparr>"

section \<open>One button\<close>

text \<open>
  \<open>attached\<close> is what the entity knows of Home Assistant: \<open>None\<close> before it is added, otherwise its
  entity id and whether it has a registry record.
\<close>

definition async_set_icon ::
  "(string \<times> bool) option \<Rightarrow> string \<Rightarrow> command_entity \<Rightarrow> command_entity \<times> button_effect list" where
  "async_set_icon attached icon e =
     (if icon = ent_icon e then (e, [])
      else
        let e' = e\<lparr>ent_icon := icon\<rparr> in
        case attached of
          None \<Rightarrow> (e', [])
        | Some (entity_id, registered) \<Rightarrow>
            (e', (if registered then [WriteOriginalIcon entity_id icon] else []) @ [WriteState e']))"

definition async_press ::
  "('h, 'z) coordinator_api_scheme \<Rightarrow> transport \<Rightarrow> command_entity \<Rightarrow> ('h, exn, unit) act" where
  "async_press api t e = coordinator_send api t (ent_command_id e)"

section \<open>A pass\<close>

type_synonym placement = "int \<times> rf_target option \<times> string option"

definition placement_of :: "config_entry \<Rightarrow> int \<Rightarrow> placement" where
  "placement_of entry command_id =
     (let target = assigned_target entry command_id
      in (command_id, target, map_option rt_subentry_id target))"

text \<open>The scan of the wanted commands, in ascending order: moved, fresh, icons of the rest.\<close>

fun scan ::
  "config_entry \<Rightarrow> (int \<Rightarrow> (string \<times> bool) option) \<Rightarrow> int list \<Rightarrow> button_platform
     \<Rightarrow> placement list \<times> placement list \<times> button_platform \<times> button_effect list" where
  "scan entry attached [] p = ([], [], p, [])"
| "scan entry attached (k # ks) p =
     (let place = placement_of entry k in
      case map_of (bp_placed p) k of
        None \<Rightarrow>
          (let (moved, fresh, p', effs) = scan entry attached ks p in (moved, place # fresh, p', effs))
      | Some subentry_id \<Rightarrow>
          if subentry_id \<noteq> snd (snd place)
          then (let (moved, fresh, p', effs) = scan entry attached ks p in (place # moved, fresh, p', effs))
          else (case map_of (bp_entities p) k of
              None \<Rightarrow> scan entry attached ks p
            | Some button \<Rightarrow>
                (let (button', out) = async_set_icon (attached k) (command_icon entry k) button;
                     (moved, fresh, p', effs) =
                       scan entry attached ks (p\<lparr>bp_entities := AList.update k button' (bp_entities p)\<rparr>)
                 in (moved, fresh, p', out @ effs))))"

definition remove_button :: "int \<Rightarrow> button_platform \<times> button_effect list \<Rightarrow> button_platform \<times> button_effect list" where
  "remove_button k s =
     (let (p, effs) = s
      in (\<lparr>bp_placed = AList.delete k (bp_placed p), bp_entities = AList.delete k (bp_entities p)\<rparr>,
          effs @ (case map_of (bp_entities p) k of None \<Rightarrow> [] | Some button \<Rightarrow> [RemoveEntityObject button])))"

definition add_button ::
  "string \<Rightarrow> config_entry \<Rightarrow> bridge_status option \<Rightarrow> placement
     \<Rightarrow> button_platform \<times> button_effect list \<Rightarrow> button_platform \<times> button_effect list" where
  "add_button bridge_id entry_add status place s =
     (let (p, effs) = s; (k, target, subentry_id) = place
      in case (case status of None \<Rightarrow> None | Some st \<Rightarrow> map_of (by_id st) k) of
           None \<Rightarrow> (p, effs)
         | Some command \<Rightarrow>
             let button = command_entity_init bridge_id k (ci_name command) target (command_icon entry_add k)
             in (\<lparr>bp_placed = AList.update k subentry_id (bp_placed p),
                  bp_entities = AList.update k button (bp_entities p)\<rparr>,
                 effs @ [AddEntity button subentry_id]))"

definition async_apply ::
  "string \<Rightarrow> config_entry \<Rightarrow> config_entry \<Rightarrow> bridge_status option \<Rightarrow> int set
     \<Rightarrow> (int \<Rightarrow> (string \<times> bool) option) \<Rightarrow> button_platform
     \<Rightarrow> button_platform \<times> button_effect list" where
  "async_apply bridge_id entry entry_add status wanted attached p =
     (let gone = filter (\<lambda>k. k \<notin> wanted) (dict_keys (bp_placed p));
          (moved, fresh, p1, icons) = scan entry attached (sorted_list_of_set wanted) p
      in fold (add_button bridge_id entry_add status) (moved @ fresh)
           (fold remove_button (gone @ map fst moved) (p1, icons)))"

section \<open>Lemmas: the scan\<close>

definition placed_at :: "config_entry \<Rightarrow> int \<Rightarrow> string option" where
  "placed_at entry k = map_option rt_subentry_id (assigned_target entry k)"

lemma placement_of_simps [simp]:
  "fst (placement_of entry k) = k"
  "snd (snd (placement_of entry k)) = placed_at entry k"
  by (simp_all add: placement_of_def placed_at_def Let_def)

definition is_moved :: "config_entry \<Rightarrow> button_platform \<Rightarrow> int \<Rightarrow> bool" where
  "is_moved entry p k \<longleftrightarrow> (case map_of (bp_placed p) k of None \<Rightarrow> False | Some s \<Rightarrow> s \<noteq> placed_at entry k)"

definition is_fresh :: "button_platform \<Rightarrow> int \<Rightarrow> bool" where
  "is_fresh p k \<longleftrightarrow> map_of (bp_placed p) k = None"

text \<open>Effects that neither add nor remove an entity.\<close>

fun cosmetic :: "button_effect \<Rightarrow> bool" where
  "cosmetic (AddEntity _ _) = False"
| "cosmetic (RemoveEntityObject _) = False"
| "cosmetic _ = True"

lemma set_icon_cosmetic: "list_all cosmetic (snd (async_set_icon attached icon e))"
  by (simp add: async_set_icon_def Let_def split: option.split prod.split)

lemma set_icon_keeps:
  "ent_unique_id (fst (async_set_icon attached icon e)) = ent_unique_id e"
  "ent_command_id (fst (async_set_icon attached icon e)) = ent_command_id e"
  "ent_target (fst (async_set_icon attached icon e)) = ent_target e"
  by (simp_all add: async_set_icon_def Let_def split: option.split prod.split)

text \<open>
  What the scan returns, and what it leaves: the same keys, and every button the same up to its
  icon.
\<close>

definition same_buttons :: "button_platform \<Rightarrow> button_platform \<Rightarrow> bool" where
  "same_buttons p p' \<longleftrightarrow> bp_placed p' = bp_placed p \<and> dict_keys (bp_entities p') = dict_keys (bp_entities p) \<and>
     (\<forall>k. map_option ent_unique_id (map_of (bp_entities p') k) = map_option ent_unique_id (map_of (bp_entities p) k) \<and>
          map_option ent_command_id (map_of (bp_entities p') k) = map_option ent_command_id (map_of (bp_entities p) k) \<and>
          map_option ent_target (map_of (bp_entities p') k) = map_option ent_target (map_of (bp_entities p) k))"

lemma same_buttons_refl [simp]: "same_buttons p p"
  by (simp add: same_buttons_def)

lemma same_buttons_trans: "same_buttons p q \<Longrightarrow> same_buttons q r \<Longrightarrow> same_buttons p r"
  by (simp add: same_buttons_def)

lemma update_present_keys: "map_of d k \<noteq> None \<Longrightarrow> dict_keys (AList.update k v d) = dict_keys d"
  by (induction d) auto

lemma same_buttons_icon:
  assumes "map_of (bp_entities p) k = Some e"
  shows "same_buttons p (p\<lparr>bp_entities := AList.update k (fst (async_set_icon attached icon e)) (bp_entities p)\<rparr>)"
  using assms by (simp add: same_buttons_def update_present_keys update_conv' set_icon_keeps)

lemma scan_spec:
  assumes "scan entry attached ks p = (moved, fresh, p', effs)"
  shows "moved = map (placement_of entry) (filter (is_moved entry p) ks) \<and>
    fresh = map (placement_of entry) (filter (is_fresh p) ks) \<and>
    same_buttons p p' \<and> list_all cosmetic effs"
  using assms
proof (induction ks arbitrary: p moved fresh p' effs)
  case Nil
  then show ?case by simp
next
  case (Cons k ks)
  consider (fresh) "map_of (bp_placed p) k = None"
    | (moved) s where "map_of (bp_placed p) k = Some s" and "s \<noteq> placed_at entry k"
    | (bare) "map_of (bp_placed p) k = Some (placed_at entry k)" and "map_of (bp_entities p) k = None"
    | (kept) e where "map_of (bp_placed p) k = Some (placed_at entry k)" and "map_of (bp_entities p) k = Some e"
    by fastforce
  then show ?case
  proof cases
    case fresh
    obtain m f q es where rest: "scan entry attached ks p = (m, f, q, es)" by (rule prod_cases4)
    have "moved = m" "fresh = placement_of entry k # f" "p' = q" "effs = es"
      using Cons.prems fresh rest by simp_all
    moreover have "is_fresh p k" "\<not> is_moved entry p k" using fresh by (simp_all add: is_fresh_def is_moved_def)
    ultimately show ?thesis using Cons.IH [OF rest] by simp
  next
    case moved
    obtain m f q es where rest: "scan entry attached ks p = (m, f, q, es)" by (rule prod_cases4)
    have "moved = placement_of entry k # m" "fresh = f" "p' = q" "effs = es"
      using Cons.prems moved rest by simp_all
    moreover have "\<not> is_fresh p k" "is_moved entry p k" using moved by (simp_all add: is_fresh_def is_moved_def)
    ultimately show ?thesis using Cons.IH [OF rest] by simp
  next
    case bare
    obtain m f q es where rest: "scan entry attached ks p = (m, f, q, es)" by (rule prod_cases4)
    have "moved = m" "fresh = f" "p' = q" "effs = es"
      using Cons.prems bare rest by simp_all
    moreover have "\<not> is_fresh p k" "\<not> is_moved entry p k" using bare by (simp_all add: is_fresh_def is_moved_def)
    ultimately show ?thesis using Cons.IH [OF rest] by simp
  next
    case kept
    obtain e' out where icon: "async_set_icon (attached k) (command_icon entry k) e = (e', out)"
      by (cases "async_set_icon (attached k) (command_icon entry k) e")
    let ?p = "p\<lparr>bp_entities := AList.update k e' (bp_entities p)\<rparr>"
    obtain m f q es where rest: "scan entry attached ks ?p = (m, f, q, es)" by (rule prod_cases4)
    have scanned: "moved = m" "fresh = f" "p' = q" "effs = out @ es"
      using Cons.prems kept rest icon by simp_all
    have "same_buttons p ?p"
      using same_buttons_icon [OF kept(2), of "attached k" "command_icon entry k"] icon by simp
    moreover have "list_all cosmetic out"
      using set_icon_cosmetic [of "attached k" "command_icon entry k" e] icon by simp
    moreover have "is_moved entry ?p = is_moved entry p" "is_fresh ?p = is_fresh p"
      by (simp_all add: is_moved_def is_fresh_def fun_eq_iff)
    moreover have "\<not> is_fresh p k" "\<not> is_moved entry p k" using kept by (simp_all add: is_fresh_def is_moved_def)
    ultimately show ?thesis
      using Cons.IH [OF rest] same_buttons_trans [of p ?p q] by (simp add: scanned)
  qed
qed

section \<open>Lemmas: removals and additions\<close>

definition removal_of :: "button_platform \<Rightarrow> int \<Rightarrow> button_effect option" where
  "removal_of p k = map_option RemoveEntityObject (map_of (bp_entities p) k)"

lemma fold_remove:
  assumes "distinct ks"
  shows "fold remove_button ks (p, effs) =
    (\<lparr>bp_placed = fold AList.delete ks (bp_placed p), bp_entities = fold AList.delete ks (bp_entities p)\<rparr>,
     effs @ List.map_filter (removal_of p) ks)"
  using assms
proof (induction ks arbitrary: p effs)
  case Nil
  then show ?case by simp
next
  case (Cons k ks)
  let ?p = "\<lparr>bp_placed = AList.delete k (bp_placed p), bp_entities = AList.delete k (bp_entities p)\<rparr>"
  have "List.map_filter (removal_of ?p) ks = List.map_filter (removal_of p) ks"
    using Cons.prems
    by (intro map_filter_cong) (auto simp: removal_of_def map_of_delete)
  moreover have "remove_button k (p, effs) =
      (?p, effs @ (case removal_of p k of None \<Rightarrow> [] | Some eff \<Rightarrow> [eff]))"
    by (simp add: remove_button_def removal_of_def split: option.split)
  ultimately show ?case
    using Cons.IH [of ?p] Cons.prems by (simp split: option.split)
qed

definition addition_of ::
  "string \<Rightarrow> config_entry \<Rightarrow> bridge_status option \<Rightarrow> placement \<Rightarrow> (command_entity \<times> string option) option" where
  "addition_of bridge_id entry_add status place =
     (case status of
        None \<Rightarrow> None
      | Some st \<Rightarrow> map_option (\<lambda>command.
          (command_entity_init bridge_id (fst place) (ci_name command) (fst (snd place)) (command_icon entry_add (fst place)),
           snd (snd place))) (map_of (by_id st) (fst place)))"

lemma add_button_eq:
  "add_button bridge_id entry_add status place (p, effs) =
     (case addition_of bridge_id entry_add status place of
        None \<Rightarrow> (p, effs)
      | Some (button, subentry_id) \<Rightarrow>
          (\<lparr>bp_placed = AList.update (fst place) subentry_id (bp_placed p),
            bp_entities = AList.update (fst place) button (bp_entities p)\<rparr>,
           effs @ [AddEntity button subentry_id]))"
  by (cases place) (auto simp: add_button_def addition_of_def Let_def split: option.split)

lemma fold_add_effects:
  "snd (fold (add_button b entry_add status) places (p, effs)) =
     effs @ map (\<lambda>(button, s). AddEntity button s) (List.map_filter (addition_of b entry_add status) places)"
  by (induction places arbitrary: p effs) (auto simp: add_button_eq split: option.split)

lemma fold_add_lookup:
  assumes "distinct (map fst places)"
  shows "map_of (bp_placed (fst (fold (add_button b entry_add status) places (p, effs)))) k =
      (case map_of (map (\<lambda>place. (fst place, place)) places) k of
         None \<Rightarrow> map_of (bp_placed p) k
       | Some place \<Rightarrow> (case addition_of b entry_add status place of
            None \<Rightarrow> map_of (bp_placed p) k | Some (_, s) \<Rightarrow> Some s))"
    and "map_of (bp_entities (fst (fold (add_button b entry_add status) places (p, effs)))) k =
      (case map_of (map (\<lambda>place. (fst place, place)) places) k of
         None \<Rightarrow> map_of (bp_entities p) k
       | Some place \<Rightarrow> (case addition_of b entry_add status place of
            None \<Rightarrow> map_of (bp_entities p) k | Some (button, _) \<Rightarrow> Some button))"
proof -
  have absent: "map_of (map (\<lambda>place. (fst place, place)) ps) j = None"
    if "j \<notin> fst ` set ps" for ps :: "placement list" and j
    using that by (induction ps) auto
  show "map_of (bp_placed (fst (fold (add_button b entry_add status) places (p, effs)))) k =
      (case map_of (map (\<lambda>place. (fst place, place)) places) k of
         None \<Rightarrow> map_of (bp_placed p) k
       | Some place \<Rightarrow> (case addition_of b entry_add status place of
            None \<Rightarrow> map_of (bp_placed p) k | Some (_, s) \<Rightarrow> Some s))"
    using assms
    by (induction places arbitrary: p effs)
      (auto simp: add_button_eq update_conv' absent split: option.splits)
  show "map_of (bp_entities (fst (fold (add_button b entry_add status) places (p, effs)))) k =
      (case map_of (map (\<lambda>place. (fst place, place)) places) k of
         None \<Rightarrow> map_of (bp_entities p) k
       | Some place \<Rightarrow> (case addition_of b entry_add status place of
            None \<Rightarrow> map_of (bp_entities p) k | Some (button, _) \<Rightarrow> Some button))"
    using assms
    by (induction places arbitrary: p effs)
      (auto simp: add_button_eq update_conv' absent split: option.splits)
qed

lemma fold_add_keys:
  "dict_keys (bp_placed p) = dict_keys (bp_entities p) \<Longrightarrow>
   distinct (dict_keys (bp_entities p)) \<Longrightarrow>
   (let q = fst (fold (add_button b entry_add status) places (p, effs)) in
    dict_keys (bp_placed q) = dict_keys (bp_entities q) \<and> distinct (dict_keys (bp_entities q)))"
proof (induction places arbitrary: p effs)
  case Nil
  then show ?case by simp
next
  case (Cons place places)
  have keys: "dict_keys (AList.update k x d) = dict_keys (AList.update k y d')"
    if "dict_keys d = dict_keys d'" for k and x y and d :: "(int, string option) dict" and d' :: "(int, command_entity) dict"
    using that by (simp add: update_keys)
  show ?case
  proof (cases "addition_of b entry_add status place")
    case None
    with Cons show ?thesis by (simp add: add_button_eq)
  next
    case (Some a)
    then obtain button s where a: "addition_of b entry_add status place = Some (button, s)" by (cases a) simp
    let ?p = "\<lparr>bp_placed = AList.update (fst place) s (bp_placed p), bp_entities = AList.update (fst place) button (bp_entities p)\<rparr>"
    have "dict_keys (bp_placed ?p) = dict_keys (bp_entities ?p)"
      using keys [OF Cons.prems(1), of "fst place" s button] by simp
    moreover have "distinct (dict_keys (bp_entities ?p))"
      using Cons.prems(2) by (simp add: distinct_update)
    ultimately show ?thesis
      using Cons.IH [of ?p "effs @ [AddEntity button s]"] by (simp add: add_button_eq a)
  qed
qed

lemma map_of_fold_AList_delete: "map_of (fold AList.delete ks d) k = (if k \<in> set ks then None else map_of d k)"
  by (induction ks arbitrary: d) (auto simp: map_of_delete)

lemma keys_fold_AList_delete: "dict_keys (fold AList.delete ks d) = filter (\<lambda>k. k \<notin> set ks) (dict_keys d)"
  by (induction ks arbitrary: d) (auto simp: delete_keys removeAll_filter_not_eq intro!: filter_cong)

section \<open>Lemmas: a pass\<close>

definition platform_ok :: "string \<Rightarrow> button_platform \<Rightarrow> bool" where
  "platform_ok b p \<longleftrightarrow>
     dict_keys (bp_placed p) = dict_keys (bp_entities p) \<and> distinct (dict_keys (bp_entities p)) \<and>
     (\<forall>k e. map_of (bp_entities p) k = Some e \<longrightarrow>
        ent_command_id e = k \<and> ent_unique_id e = command_unique_id b k \<and>
        map_of (bp_placed p) k = Some (map_option rt_subentry_id (ent_target e)))"

lemma platform_ok_same_buttons:
  assumes ok: "platform_ok b p" and same: "same_buttons p p'"
  shows "platform_ok b p'"
proof -
  have "ent_command_id e' = k \<and> ent_unique_id e' = command_unique_id b k \<and>
      map_of (bp_placed p') k = Some (map_option rt_subentry_id (ent_target e'))"
    if "map_of (bp_entities p') k = Some e'" for k e'
  proof -
    note e' = that
    obtain e where e: "map_of (bp_entities p) k = Some e" and "ent_unique_id e = ent_unique_id e'"
        and "ent_command_id e = ent_command_id e'" and "ent_target e = ent_target e'"
      using same e' unfolding same_buttons_def
      by (cases "map_of (bp_entities p) k") (auto dest!: spec [of _ k])
    then show ?thesis
      using ok same e by (auto simp: platform_ok_def same_buttons_def)
  qed
  then show ?thesis
    using ok same by (auto simp: platform_ok_def same_buttons_def)
qed

definition listed_in :: "bridge_status option \<Rightarrow> int \<Rightarrow> bool" where
  "listed_in status k \<longleftrightarrow> (case status of None \<Rightarrow> False | Some st \<Rightarrow> map_of (by_id st) k \<noteq> None)"

lemma visible_listed:
  "k \<in> fst (async_visible_commands now status r) \<Longrightarrow> listed_in status k"
  by (auto simp: async_visible_commands_def visible_from_spec listed_in_def by_id_None_iff
      split: option.splits if_splits)

lemma finite_visible: "finite (fst (async_visible_commands now status r))"
  by (auto simp: async_visible_commands_def visible_from_spec split: option.split)

definition apply_moved :: "config_entry \<Rightarrow> int set \<Rightarrow> button_platform \<Rightarrow> int list" where
  "apply_moved entry wanted p = filter (is_moved entry p) (sorted_list_of_set wanted)"

definition apply_fresh :: "int set \<Rightarrow> button_platform \<Rightarrow> int list" where
  "apply_fresh wanted p = filter (is_fresh p) (sorted_list_of_set wanted)"

definition apply_gone :: "int set \<Rightarrow> button_platform \<Rightarrow> int list" where
  "apply_gone wanted p = filter (\<lambda>k. k \<notin> wanted) (dict_keys (bp_placed p))"

lemma apply_sets:
  assumes "finite wanted"
  shows "set (apply_moved entry wanted p) = {k \<in> wanted. is_moved entry p k}"
    and "set (apply_fresh wanted p) = {k \<in> wanted. is_fresh p k}"
    and "set (apply_gone wanted p) = {k. k \<notin> wanted \<and> \<not> is_fresh p k}"
proof -
  show "set (apply_gone wanted p) = {k. k \<notin> wanted \<and> \<not> is_fresh p k}"
    by (auto simp: apply_gone_def is_fresh_def map_of_eq_None_iff)
qed (use assms in \<open>auto simp: apply_moved_def apply_fresh_def\<close>)

lemma apply_distinct:
  assumes "finite wanted" and "distinct (dict_keys (bp_placed p))"
  shows "distinct (apply_gone wanted p @ apply_moved entry wanted p)"
    and "distinct (apply_moved entry wanted p @ apply_fresh wanted p)"
  using assms
  by (auto simp: apply_gone_def apply_moved_def apply_fresh_def is_moved_def is_fresh_def split: option.splits)

text \<open>A pass as one expression over what it removes and what it adds.\<close>

lemma apply_shape:
  assumes "finite wanted" and "distinct (dict_keys (bp_placed p))"
  shows "\<exists>p1 icons. same_buttons p p1 \<and> list_all cosmetic icons \<and>
    async_apply b entry entry_add status wanted attached p =
      fold (add_button b entry_add status)
        (map (placement_of entry) (apply_moved entry wanted p @ apply_fresh wanted p))
        (\<lparr>bp_placed = fold AList.delete (apply_gone wanted p @ apply_moved entry wanted p) (bp_placed p),
          bp_entities = fold AList.delete (apply_gone wanted p @ apply_moved entry wanted p) (bp_entities p1)\<rparr>,
         icons @ List.map_filter (removal_of p1) (apply_gone wanted p @ apply_moved entry wanted p))"
proof -
  obtain moved fresh p1 icons where scanned: "scan entry attached (sorted_list_of_set wanted) p = (moved, fresh, p1, icons)"
    by (rule prod_cases4)
  have spec: "moved = map (placement_of entry) (apply_moved entry wanted p)"
      "fresh = map (placement_of entry) (apply_fresh wanted p)" "same_buttons p p1" "list_all cosmetic icons"
    using scan_spec [OF scanned] by (simp_all add: apply_moved_def apply_fresh_def)
  have "map fst moved = apply_moved entry wanted p"
    by (simp add: spec(1) comp_def)
  moreover have "bp_placed p1 = bp_placed p" using spec(3) by (simp add: same_buttons_def)
  ultimately show ?thesis
    using fold_remove [OF apply_distinct(1) [OF assms, of entry], of p1 icons] scanned spec
    by (intro exI [of _ p1] exI [of _ icons])
      (simp add: async_apply_def apply_gone_def del: fold_append)
qed

lemma map_of_placements:
  "map_of (map (\<lambda>place. (fst place, place)) (map (placement_of entry) ks)) k =
     (if k \<in> set ks then Some (placement_of entry k) else None)"
  using map_of_map_restrict [of "placement_of entry" ks]
  by (auto simp: comp_def restrict_map_def)

definition added_button :: "string \<Rightarrow> config_entry \<Rightarrow> config_entry \<Rightarrow> bridge_status option \<Rightarrow> int \<Rightarrow> command_entity" where
  "added_button b entry entry_add status k =
     command_entity_init b k
       (case status of None \<Rightarrow> [] | Some st \<Rightarrow> (case map_of (by_id st) k of None \<Rightarrow> [] | Some c \<Rightarrow> ci_name c))
       (assigned_target entry k) (command_icon entry_add k)"

lemma addition_of_listed:
  "listed_in status k \<Longrightarrow> addition_of b entry_add status (placement_of entry k) =
    Some (added_button b entry entry_add status k, placed_at entry k)"
  by (auto simp: listed_in_def addition_of_def placement_of_def placed_at_def added_button_def Let_def
      split: option.splits)

lemma map_fst_placements: "map fst (map (placement_of entry) ks) = ks"
  by (simp add: comp_def)

lemma fold_add_placements:
  assumes "distinct ks" and "\<And>k. k \<in> set ks \<Longrightarrow> listed_in status k"
  shows "map_of (bp_placed (fst (fold (add_button b entry_add status) (map (placement_of entry) ks) (p, effs)))) k =
      (if k \<in> set ks then Some (placed_at entry k) else map_of (bp_placed p) k)"
    and "map_of (bp_entities (fst (fold (add_button b entry_add status) (map (placement_of entry) ks) (p, effs)))) k =
      (if k \<in> set ks then Some (added_button b entry entry_add status k) else map_of (bp_entities p) k)"
    and "snd (fold (add_button b entry_add status) (map (placement_of entry) ks) (p, effs)) =
      effs @ map (\<lambda>k. AddEntity (added_button b entry entry_add status k) (placed_at entry k)) ks"
proof -
  have distinct: "distinct (map fst (map (placement_of entry) ks))"
    unfolding map_fst_placements by (rule assms(1))
  show "map_of (bp_placed (fst (fold (add_button b entry_add status) (map (placement_of entry) ks) (p, effs)))) k =
      (if k \<in> set ks then Some (placed_at entry k) else map_of (bp_placed p) k)"
    unfolding fold_add_lookup(1) [OF distinct] map_of_placements
    using assms(2) by (auto simp: addition_of_listed)
  show "map_of (bp_entities (fst (fold (add_button b entry_add status) (map (placement_of entry) ks) (p, effs)))) k =
      (if k \<in> set ks then Some (added_button b entry entry_add status k) else map_of (bp_entities p) k)"
    unfolding fold_add_lookup(2) [OF distinct] map_of_placements
    using assms(2) by (auto simp: addition_of_listed)
  have "List.map_filter (addition_of b entry_add status) (map (placement_of entry) ks) =
      map (\<lambda>k. (added_button b entry entry_add status k, placed_at entry k)) ks"
    using assms(2) by (induction ks) (simp_all add: addition_of_listed)
  then show "snd (fold (add_button b entry_add status) (map (placement_of entry) ks) (p, effs)) =
      effs @ map (\<lambda>k. AddEntity (added_button b entry entry_add status k) (placed_at entry k)) ks"
    by (simp add: fold_add_effects)
qed

text \<open>What a pass leaves and what it emits, for a platform in order and commands that are listed.\<close>

lemma apply_result:
  assumes "finite wanted" and "distinct (dict_keys (bp_placed p))" and "\<And>k. k \<in> wanted \<Longrightarrow> listed_in status k"
  shows "\<exists>p1 icons. same_buttons p p1 \<and> list_all cosmetic icons \<and>
    (\<forall>k. map_of (bp_placed (fst (async_apply b entry entry_add status wanted attached p))) k =
        (if k \<in> wanted then Some (placed_at entry k) else None)) \<and>
    (\<forall>k. map_of (bp_entities (fst (async_apply b entry entry_add status wanted attached p))) k =
        (if k \<in> wanted \<and> (is_moved entry p k \<or> is_fresh p k) then Some (added_button b entry entry_add status k)
         else if k \<in> wanted \<or> is_fresh p k then map_of (bp_entities p1) k else None)) \<and>
    snd (async_apply b entry entry_add status wanted attached p) =
      icons @ List.map_filter (removal_of p1) (apply_gone wanted p @ apply_moved entry wanted p) @
      map (\<lambda>k. AddEntity (added_button b entry entry_add status k) (placed_at entry k))
        (apply_moved entry wanted p @ apply_fresh wanted p)"
proof -
  let ?ks = "apply_moved entry wanted p @ apply_fresh wanted p"
  let ?rs = "apply_gone wanted p @ apply_moved entry wanted p"
  obtain p1 icons where same: "same_buttons p p1" "list_all cosmetic icons"
    and run: "async_apply b entry entry_add status wanted attached p =
      fold (add_button b entry_add status) (map (placement_of entry) ?ks)
        (\<lparr>bp_placed = fold AList.delete ?rs (bp_placed p), bp_entities = fold AList.delete ?rs (bp_entities p1)\<rparr>,
         icons @ List.map_filter (removal_of p1) ?rs)"
    using apply_shape [OF assms(1,2)] by blast
  have ks: "distinct ?ks" "\<And>k. k \<in> set ?ks \<Longrightarrow> listed_in status k"
    using apply_distinct(2) [OF assms(1,2)] assms(3) by (auto simp: apply_sets [OF assms(1)])
  have in_ks: "k \<in> set ?ks \<longleftrightarrow> k \<in> wanted \<and> (is_moved entry p k \<or> is_fresh p k)" for k
    by (auto simp: apply_sets [OF assms(1)])
  have in_rs: "k \<in> set ?rs \<longleftrightarrow> (k \<notin> wanted \<and> \<not> is_fresh p k) \<or> (k \<in> wanted \<and> is_moved entry p k)" for k
    by (auto simp: apply_sets [OF assms(1)])
  have "map_of (bp_placed (fst (async_apply b entry entry_add status wanted attached p))) k =
      (if k \<in> wanted then Some (placed_at entry k) else None)" for k
  proof -
    have "map_of (bp_placed (fst (async_apply b entry entry_add status wanted attached p))) k =
        (if k \<in> set ?ks then Some (placed_at entry k) else map_of (fold AList.delete ?rs (bp_placed p)) k)"
      unfolding run by (subst fold_add_placements(1) [OF ks]) (simp_all only: button_platform.simps)
    then show ?thesis
      unfolding in_ks map_of_fold_AList_delete in_rs
      by (auto simp: is_moved_def is_fresh_def split: option.splits)
  qed
  moreover have "map_of (bp_entities (fst (async_apply b entry entry_add status wanted attached p))) k =
      (if k \<in> wanted \<and> (is_moved entry p k \<or> is_fresh p k) then Some (added_button b entry entry_add status k)
       else if k \<in> wanted \<or> is_fresh p k then map_of (bp_entities p1) k else None)" for k
  proof -
    have "map_of (bp_entities (fst (async_apply b entry entry_add status wanted attached p))) k =
        (if k \<in> set ?ks then Some (added_button b entry entry_add status k)
         else map_of (fold AList.delete ?rs (bp_entities p1)) k)"
      unfolding run by (subst fold_add_placements(2) [OF ks]) (simp_all only: button_platform.simps)
    then show ?thesis
      unfolding in_ks map_of_fold_AList_delete in_rs by auto
  qed
  moreover have "snd (async_apply b entry entry_add status wanted attached p) =
      icons @ List.map_filter (removal_of p1) ?rs @
      map (\<lambda>k. AddEntity (added_button b entry entry_add status k) (placed_at entry k)) ?ks"
    unfolding run by (subst fold_add_placements(3) [OF ks]) (simp_all only: append_assoc)
  ultimately show ?thesis using same by blast
qed

lemma apply_placed:
  assumes "finite wanted" and "distinct (dict_keys (bp_placed p))" and "\<And>k. k \<in> wanted \<Longrightarrow> listed_in status k"
  shows "map_of (bp_placed (fst (async_apply b entry entry_add status wanted attached p))) k =
    (if k \<in> wanted then Some (placed_at entry k) else None)"
  using apply_result [OF assms, where b = b and entry = entry and entry_add = entry_add and attached = attached]
  by blast

lemma apply_keys:
  assumes "platform_ok b p" and "finite wanted"
  shows "dict_keys (bp_placed (fst (async_apply b entry entry_add status wanted attached p))) =
      dict_keys (bp_entities (fst (async_apply b entry entry_add status wanted attached p))) \<and>
    distinct (dict_keys (bp_entities (fst (async_apply b entry entry_add status wanted attached p))))"
proof -
  let ?ks = "apply_moved entry wanted p @ apply_fresh wanted p"
  let ?rs = "apply_gone wanted p @ apply_moved entry wanted p"
  have ok: "dict_keys (bp_placed p) = dict_keys (bp_entities p)" "distinct (dict_keys (bp_placed p))"
    using assms(1) by (auto simp: platform_ok_def)
  obtain p1 icons where same: "same_buttons p p1"
    and run: "async_apply b entry entry_add status wanted attached p =
      fold (add_button b entry_add status) (map (placement_of entry) ?ks)
        (\<lparr>bp_placed = fold AList.delete ?rs (bp_placed p), bp_entities = fold AList.delete ?rs (bp_entities p1)\<rparr>,
         icons @ List.map_filter (removal_of p1) ?rs)"
    using apply_shape [OF assms(2) ok(2)] by blast
  have "dict_keys (fold AList.delete ?rs (bp_placed p)) = dict_keys (fold AList.delete ?rs (bp_entities p1))"
    using same ok by (simp only: keys_fold_AList_delete same_buttons_def)
  moreover have "distinct (dict_keys (fold AList.delete ?rs (bp_entities p1)))"
    using same ok by (simp only: keys_fold_AList_delete same_buttons_def) (simp add: distinct_filter)
  ultimately show ?thesis
    using fold_add_keys [of "\<lparr>bp_placed = fold AList.delete ?rs (bp_placed p), bp_entities = fold AList.delete ?rs (bp_entities p1)\<rparr>"]
    unfolding run Let_def by (simp only: button_platform.simps)
qed

lemma added_button_simps [simp]:
  "ent_command_id (added_button b entry entry_add status k) = k"
  "ent_unique_id (added_button b entry entry_add status k) = command_unique_id b k"
  "ent_target (added_button b entry entry_add status k) = assigned_target entry k"
  by (simp_all add: added_button_def command_entity_init_def)

lemma apply_ok:
  assumes ok: "platform_ok b p" and wanted: "finite wanted" "\<And>k. k \<in> wanted \<Longrightarrow> listed_in status k"
  shows "platform_ok b (fst (async_apply b entry entry_add status wanted attached p))"
proof -
  let ?q = "fst (async_apply b entry entry_add status wanted attached p)"
  have dist: "distinct (dict_keys (bp_placed p))" using ok by (simp add: platform_ok_def)
  obtain p1 where same: "same_buttons p p1"
    and placed: "\<And>k. map_of (bp_placed ?q) k = (if k \<in> wanted then Some (placed_at entry k) else None)"
    and entities: "\<And>k. map_of (bp_entities ?q) k =
        (if k \<in> wanted \<and> (is_moved entry p k \<or> is_fresh p k) then Some (added_button b entry entry_add status k)
         else if k \<in> wanted \<or> is_fresh p k then map_of (bp_entities p1) k else None)"
    using apply_result [OF wanted(1) dist wanted(2), where b = b and entry = entry and entry_add = entry_add
        and attached = attached] by blast
  have ok1: "platform_ok b p1" by (rule platform_ok_same_buttons [OF ok same])
  have "ent_command_id e = k \<and> ent_unique_id e = command_unique_id b k \<and>
      map_of (bp_placed ?q) k = Some (map_option rt_subentry_id (ent_target e))"
    if e: "map_of (bp_entities ?q) k = Some e" for k e
  proof (cases "k \<in> wanted \<and> (is_moved entry p k \<or> is_fresh p k)")
    case True
    with e entities show ?thesis by (auto simp: placed placed_at_def)
  next
    case False
    with e entities have e1: "map_of (bp_entities p1) k = Some e" by (auto split: if_splits)
    then have "map_of (bp_placed p1) k = Some (map_option rt_subentry_id (ent_target e))"
        and "ent_command_id e = k" and "ent_unique_id e = command_unique_id b k"
      using ok1 by (auto simp: platform_ok_def)
    moreover have "bp_placed p1 = bp_placed p" using same by (simp add: same_buttons_def)
    ultimately show ?thesis
      using False e entities [of k] by (auto simp: placed is_moved_def is_fresh_def split: if_splits)
  qed
  then show ?thesis using apply_keys [OF ok wanted(1)] by (simp add: platform_ok_def)
qed

section \<open>Lemmas: which unique ids are claimed while a pass runs\<close>

fun claims_after :: "button_effect \<Rightarrow> string list \<Rightarrow> string list" where
  "claims_after (AddEntity e _) ids = ent_unique_id e # ids"
| "claims_after (RemoveEntityObject e) ids = remove1 (ent_unique_id e) ids"
| "claims_after _ ids = ids"

text \<open>No unique id is claimed twice, now or after any of the effects.\<close>

fun never_twice :: "string list \<Rightarrow> button_effect list \<Rightarrow> bool" where
  "never_twice ids [] = distinct ids"
| "never_twice ids (eff # effs) = (distinct ids \<and> never_twice (claims_after eff ids) effs)"

lemma never_twice_prefix: "never_twice ids (xs @ ys) \<Longrightarrow> distinct (fold claims_after xs ids)"
proof (induction xs arbitrary: ids)
  case Nil
  then show ?case by (cases ys) simp_all
qed simp

lemma never_twice_cosmetic: "list_all cosmetic xs \<Longrightarrow> distinct ids \<Longrightarrow> never_twice ids (xs @ ys) = never_twice ids ys"
proof (induction xs)
  case (Cons x xs)
  then show ?case by (cases x) simp_all
qed simp

lemma never_twice_removals:
  "distinct ids \<Longrightarrow> never_twice ids (map RemoveEntityObject es @ ys) =
     never_twice (filter (\<lambda>i. i \<notin> ent_unique_id ` set es) ids) ys"
proof (induction es arbitrary: ids)
  case Nil
  then show ?case by simp
next
  case (Cons e es)
  have "filter (\<lambda>i. i \<notin> ent_unique_id ` set es) (remove1 (ent_unique_id e) ids) =
      filter (\<lambda>i. i \<notin> ent_unique_id ` set (e # es)) ids"
    using Cons.prems by (simp add: distinct_remove1_removeAll removeAll_filter_not_eq) (rule filter_cong, auto)
  with Cons show ?case by (simp add: distinct_remove1)
qed

lemma never_twice_additions:
  "distinct (map (ent_unique_id \<circ> f) ks @ ids) \<Longrightarrow> never_twice ids (map (\<lambda>k. AddEntity (f k) (s k)) ks)"
  by (induction ks arbitrary: ids) auto

definition claimed :: "button_platform \<Rightarrow> string list" where
  "claimed p = map (ent_unique_id \<circ> snd) (bp_entities p)"

lemma claimed_ok:
  assumes "platform_ok b p"
  shows "claimed p = map (command_unique_id b) (dict_keys (bp_placed p))"
proof -
  have "ent_unique_id (snd ke) = command_unique_id b (fst ke)" if "ke \<in> set (bp_entities p)" for ke
    using that assms map_of_eq_Some_iff [of "bp_entities p" "fst ke" "snd ke"]
    by (auto simp: platform_ok_def)
  then have "claimed p = map (command_unique_id b \<circ> fst) (bp_entities p)"
    by (simp add: claimed_def)
  then show ?thesis using assms by (simp add: platform_ok_def)
qed

lemma distinct_command_unique_ids: "distinct (map (command_unique_id b) ks) \<longleftrightarrow> distinct ks"
  by (rule unique_ids.distinct_enc) simp

lemma command_unique_id_inject [simp]: "command_unique_id b j = command_unique_id b k \<longleftrightarrow> j = k"
  by (rule unique_ids.enc_inject) simp_all

lemma filter_command_unique_ids:
  "filter (\<lambda>i. i \<notin> command_unique_id b ` (R \<inter> set ks)) (map (command_unique_id b) ks) =
     map (command_unique_id b) (filter (\<lambda>k. k \<notin> R) ks)"
proof -
  have "filter ((\<lambda>i. i \<notin> command_unique_id b ` (R \<inter> set ks)) \<circ> command_unique_id b) ks = filter (\<lambda>k. k \<notin> R) ks"
    by (rule filter_cong) auto
  then show ?thesis by (simp add: filter_map)
qed

lemma removal_effects: "List.map_filter (removal_of p) ks =
    map RemoveEntityObject (List.map_filter (\<lambda>k. map_of (bp_entities p) k) ks)"
  by (induction ks) (simp_all add: removal_of_def split: option.split)

lemma apply_never_twice:
  assumes ok: "platform_ok b p" and wanted: "finite wanted" "\<And>k. k \<in> wanted \<Longrightarrow> listed_in status k"
  shows "never_twice (claimed p) (snd (async_apply b entry entry_add status wanted attached p))"
proof -
  let ?ks = "apply_moved entry wanted p @ apply_fresh wanted p"
  let ?rs = "apply_gone wanted p @ apply_moved entry wanted p"
  have dist: "distinct (dict_keys (bp_placed p))" using ok by (simp add: platform_ok_def)
  obtain p1 icons where same: "same_buttons p p1" and cosmetic: "list_all cosmetic icons"
    and effs: "snd (async_apply b entry entry_add status wanted attached p) =
      icons @ List.map_filter (removal_of p1) ?rs @
      map (\<lambda>k. AddEntity (added_button b entry entry_add status k) (placed_at entry k)) ?ks"
    using apply_result [OF wanted(1) dist wanted(2), where b = b and entry = entry and entry_add = entry_add
        and attached = attached] by blast
  let ?es = "List.map_filter (\<lambda>k. map_of (bp_entities p1) k) ?rs"
  have ok1: "platform_ok b p1" by (rule platform_ok_same_buttons [OF ok same])
  have claimed: "claimed p = map (command_unique_id b) (dict_keys (bp_placed p))" by (rule claimed_ok [OF ok])
  have keys1: "set (dict_keys (bp_entities p1)) = set (dict_keys (bp_placed p))"
    using same ok by (simp add: same_buttons_def platform_ok_def)
  have removed: "ent_unique_id ` set ?es = command_unique_id b ` (set ?rs \<inter> set (dict_keys (bp_placed p)))"
  proof -
    have uid: "ent_unique_id e = command_unique_id b k" if "map_of (bp_entities p1) k = Some e" for k e
      using ok1 that by (simp add: platform_ok_def)
    have present: "(\<exists>e. map_of (bp_entities p1) k = Some e) \<longleftrightarrow> k \<in> set (dict_keys (bp_placed p))" for k
      unfolding keys1 [symmetric] using map_of_eq_None_iff [of "bp_entities p1" k] by auto
    show ?thesis
    proof (intro equalityI subsetI)
      fix i
      assume "i \<in> ent_unique_id ` set ?es"
      then obtain e k where "k \<in> set ?rs" and "map_of (bp_entities p1) k = Some e" and "i = ent_unique_id e"
        unfolding image_iff Bex_def set_map_filter by blast
      then show "i \<in> command_unique_id b ` (set ?rs \<inter> set (dict_keys (bp_placed p)))"
        using uid present by blast
    next
      fix i
      assume "i \<in> command_unique_id b ` (set ?rs \<inter> set (dict_keys (bp_placed p)))"
      then obtain k e where "k \<in> set ?rs" and "i = command_unique_id b k" and "map_of (bp_entities p1) k = Some e"
        using present by blast
      then show "i \<in> ent_unique_id ` set ?es"
        unfolding image_iff Bex_def set_map_filter using uid by metis
    qed
  qed
  have left: "filter (\<lambda>i. i \<notin> ent_unique_id ` set ?es) (claimed p) =
      map (command_unique_id b) (filter (\<lambda>k. k \<notin> set ?rs) (dict_keys (bp_placed p)))"
    unfolding claimed removed by (rule filter_command_unique_ids)
  have "distinct (map (command_unique_id b) (?ks @ filter (\<lambda>k. k \<notin> set ?rs) (dict_keys (bp_placed p))))"
    unfolding distinct_command_unique_ids using apply_distinct [OF wanted(1) dist, of entry] dist
    by (auto simp: apply_sets [OF wanted(1)] is_fresh_def map_of_eq_None_iff)
  then have adds: "never_twice (map (command_unique_id b) (filter (\<lambda>k. k \<notin> set ?rs) (dict_keys (bp_placed p))))
      (map (\<lambda>k. AddEntity (added_button b entry entry_add status k) (placed_at entry k)) ?ks)"
    by (intro never_twice_additions) (simp add: comp_def)
  have "distinct (claimed p)"
    unfolding claimed distinct_command_unique_ids by (rule dist)
  then show ?thesis
    unfolding effs removal_effects
    by (simp only: never_twice_cosmetic [OF cosmetic] never_twice_removals left adds)
qed

fun touches :: "string \<Rightarrow> button_effect \<Rightarrow> bool" where
  "touches i (AddEntity e _) = (ent_unique_id e = i)"
| "touches i (RemoveEntityObject e) = (ent_unique_id e = i)"
| "touches i _ = False"

lemma cosmetic_iff: "cosmetic eff \<longleftrightarrow> (\<forall>i. \<not> touches i eff)"
  by (cases eff) auto

lemma apply_touches:
  assumes ok: "platform_ok b p" and wanted: "finite wanted" "\<And>k. k \<in> wanted \<Longrightarrow> listed_in status k"
    and eff: "eff \<in> set (snd (async_apply b entry entry_add status wanted attached p))" "touches i eff"
  shows "\<exists>k. i = command_unique_id b k \<and>
    (k \<notin> wanted \<and> \<not> is_fresh p k \<or> k \<in> wanted \<and> (is_moved entry p k \<or> is_fresh p k))"
proof -
  let ?ks = "apply_moved entry wanted p @ apply_fresh wanted p"
  let ?rs = "apply_gone wanted p @ apply_moved entry wanted p"
  have dist: "distinct (dict_keys (bp_placed p))" using ok by (simp add: platform_ok_def)
  obtain p1 icons where same: "same_buttons p p1" and cosmetic: "list_all cosmetic icons"
    and effs: "snd (async_apply b entry entry_add status wanted attached p) =
      icons @ List.map_filter (removal_of p1) ?rs @
      map (\<lambda>k. AddEntity (added_button b entry entry_add status k) (placed_at entry k)) ?ks"
    using apply_result [OF wanted(1) dist wanted(2), where b = b and entry = entry and entry_add = entry_add
        and attached = attached] by blast
  have ok1: "platform_ok b p1" by (rule platform_ok_same_buttons [OF ok same])
  consider (icon) "eff \<in> set icons" | (removal) "eff \<in> set (List.map_filter (removal_of p1) ?rs)"
    | (addition) "eff \<in> set (map (\<lambda>k. AddEntity (added_button b entry entry_add status k) (placed_at entry k)) ?ks)"
    using eff(1) unfolding effs set_append by blast
  then show ?thesis
  proof cases
    case icon
    with cosmetic eff(2) show ?thesis by (auto simp: list_all_iff cosmetic_iff)
  next
    case removal
    then obtain k where k: "k \<in> set ?rs" and "removal_of p1 k = Some eff"
      unfolding set_map_filter by blast
    then obtain e where "map_of (bp_entities p1) k = Some e" and "eff = RemoveEntityObject e"
      by (auto simp: removal_of_def)
    with ok1 eff(2) have "i = command_unique_id b k" by (auto simp: platform_ok_def)
    then show ?thesis using k by (auto simp: apply_sets [OF wanted(1)])
  next
    case addition
    then obtain k where k: "k \<in> set ?ks" and "eff = AddEntity (added_button b entry entry_add status k) (placed_at entry k)"
      unfolding set_map image_iff by blast
    with eff(2) have "i = command_unique_id b k" by auto
    then show ?thesis using k by (auto simp: apply_sets [OF wanted(1)])
  qed
qed

lemma demo_visible:
  "4 \<in> fst (async_visible_commands 0 (Some demo_listing) (new_reconciler :: unit reconciler))"
  by code_simp

lemma platform_ok_empty [simp]: "platform_ok b empty_platform"
  by (simp add: platform_ok_def empty_platform_def)

section \<open>Properties\<close>

text \<open>
  C22: After a pass the platform holds exactly the visible commands, each recorded under the subentry
  the organisation puts it in and with a button of its own unique id on that very target,
  whatever the platform held before and whatever happened to the entry while the pass awaited
  its removals.
\<close>

theorem pass_matches_organisation:
  assumes "platform_ok b p" and "wanted = fst (async_visible_commands now status r)"
  shows "platform_ok b (fst (async_apply b entry entry_add status wanted attached p)) \<and>
    map_of (bp_placed (fst (async_apply b entry entry_add status wanted attached p))) k =
      (if k \<in> wanted then Some (map_option rt_subentry_id (assigned_target entry k)) else None)"
proof -
  have wanted: "finite wanted" "j \<in> wanted \<Longrightarrow> listed_in status j" for j
    unfolding assms(2) by (rule finite_visible) (rule visible_listed)
  have "distinct (dict_keys (bp_placed p))" using assms(1) by (simp add: platform_ok_def)
  then show ?thesis
    using apply_ok [OF assms(1) wanted] by (simp add: apply_placed [OF wanted(1) _ wanted(2)] placed_at_def)
qed

theorem pass_matches_organisation_witness:
  "map_of (bp_placed (fst (async_apply ''b1'' demo_entry demo_entry (Some demo_listing)
     (fst (async_visible_commands 0 (Some demo_listing) (new_reconciler :: unit reconciler)))
     (\<lambda>_. None) empty_platform))) 4 = Some (Some ''s1'')"
proof -
  have "4 \<in> fst (async_visible_commands 0 (Some demo_listing) (new_reconciler :: unit reconciler))"
    by (rule demo_visible)
  moreover have "map_option rt_subentry_id (assigned_target demo_entry 4) = Some ''s1''" by code_simp
  ultimately show ?thesis
    using pass_matches_organisation [OF platform_ok_empty refl, where b = "''b1''" and now = 0
        and status = "Some demo_listing" and r = "new_reconciler :: unit reconciler" and entry = demo_entry
        and entry_add = demo_entry and attached = "\<lambda>_. None" and k = 4]
    by simp
qed

text \<open>
  C23: At no point of a pass are there two buttons with one unique id: the buttons the platform holds
  before the pass and after any of its effects have distinct unique ids, since every removal
  comes before the first addition.
\<close>

theorem no_unique_id_claimed_twice:
  assumes "platform_ok b p" and "wanted = fst (async_visible_commands now status r)"
    and "snd (async_apply b entry entry_add status wanted attached p) = done_effs @ rest"
  shows "distinct (fold claims_after done_effs (claimed p))"
proof -
  have wanted: "finite wanted" "j \<in> wanted \<Longrightarrow> listed_in status j" for j
    unfolding assms(2) by (rule finite_visible) (rule visible_listed)
  have "never_twice (claimed p) (done_effs @ rest)"
    using apply_never_twice [OF assms(1) wanted, of entry entry_add attached] by (simp only: assms(3))
  then show ?thesis by (rule never_twice_prefix)
qed

theorem no_unique_id_claimed_twice_witness:
  "\<exists>effs. effs \<noteq> [] \<and> distinct (fold claims_after effs (claimed empty_platform))"
proof -
  let ?wanted = "fst (async_visible_commands 0 (Some demo_listing) (new_reconciler :: unit reconciler))"
  let ?effs = "snd (async_apply ''b1'' demo_entry demo_entry (Some demo_listing) ?wanted (\<lambda>_. None) empty_platform)"
  have "?effs = ?effs @ []" by simp
  then have "distinct (fold claims_after ?effs (claimed empty_platform))"
    by (rule no_unique_id_claimed_twice [OF platform_ok_empty refl])
  moreover have "0 < length ?effs" by code_simp
  then have "?effs \<noteq> []" by auto
  ultimately show ?thesis by blast
qed

text \<open>
  A button that is already where it belongs is left alone: no effect of a pass removes it or adds
  another under its unique id, so its state and history are not disturbed by what happens to
  the others. In particular a second pass over the same organisation adds and removes nothing.
\<close>

theorem settled_buttons_untouched:
  assumes "platform_ok b p" and "wanted = fst (async_visible_commands now status r)"
    and "k \<in> wanted" and "map_of (bp_placed p) k = Some (map_option rt_subentry_id (assigned_target entry k))"
    and "eff \<in> set (snd (async_apply b entry entry_add status wanted attached p))"
  shows "\<not> touches (command_unique_id b k) eff"
proof
  assume touched: "touches (command_unique_id b k) eff"
  have wanted: "finite wanted" "j \<in> wanted \<Longrightarrow> listed_in status j" for j
    unfolding assms(2) by (rule finite_visible) (rule visible_listed)
  show False
    using apply_touches [OF assms(1) wanted assms(5) touched] assms(3,4)
    by (auto simp: is_moved_def is_fresh_def placed_at_def)
qed

theorem settled_buttons_untouched_witness:
  "\<exists>eff p. eff \<in> set (snd (async_apply ''b1'' demo_entry (demo_entry\<lparr>ce_options := []\<rparr>) (Some demo_listing)
       (fst (async_visible_commands 0 (Some demo_listing) (new_reconciler :: unit reconciler)))
       (\<lambda>_. Some (''button.a'', True)) p)) \<and>
     map_of (bp_placed p) 4 = Some (Some ''s1'') \<and> \<not> touches (command_unique_id ''b1'' 4) eff"
proof -
  let ?wanted = "fst (async_visible_commands 0 (Some demo_listing) (new_reconciler :: unit reconciler))"
  let ?e = "command_entity_init ''b1'' 4 ''fan_on'' (assigned_target demo_entry 4) ''mdi:old''"
  let ?p = "\<lparr>bp_placed = [(4, Some ''s1'')], bp_entities = [(4, ?e)]\<rparr>"
  let ?effs = "snd (async_apply ''b1'' demo_entry (demo_entry\<lparr>ce_options := []\<rparr>) (Some demo_listing) ?wanted
     (\<lambda>_. Some (''button.a'', True)) ?p)"
  have target: "map_option rt_subentry_id (assigned_target demo_entry 4) = Some ''s1''" by code_simp
  then have ok: "platform_ok ''b1'' ?p"
    by (auto simp: platform_ok_def command_entity_init_def)
  have in_wanted: "4 \<in> ?wanted"
    by (rule demo_visible)
  have "0 < length ?effs" by code_simp
  then have "hd ?effs \<in> set ?effs" by (intro hd_in_set) auto
  then obtain eff where eff: "eff \<in> set ?effs" by blast
  have "\<not> touches (command_unique_id ''b1'' 4) eff"
    by (rule settled_buttons_untouched [OF ok refl in_wanted _ eff]) (simp add: target)
  then show ?thesis using eff by (intro exI [of _ eff] exI [of _ ?p]) simp
qed

end
