(* ===== verification/Migration.thy ===== *)
theory Migration
  imports Reconcile
begin

text \<open>
  \<open>custom_components/rf_cloner/migration.py\<close>: from 0.1's command subentries to 0.2's targets. The
  calls the migration makes to Home Assistant are a list, in order. What Home Assistant does on
  such a call is not part of the repository: the properties that need it name the documented
  behaviour as a hypothesis (\<open>registry_behaves\<close>).
\<close>

section \<open>The migration\<close>

datatype migration_call =
    DetachEntity string
  | RemoveSubentry string
  | SetVersion int int

definition command_subentry_ids :: "config_entry \<Rightarrow> string list" where
  "command_subentry_ids entry =
     map se_subentry_id
       (filter (\<lambda>s. se_subentry_type s = SUBENTRY_TYPE_COMMAND) (map snd (ce_subentries entry)))"

definition migrate_to_targets :: "config_entry \<Rightarrow> entity_record list \<Rightarrow> migration_call list" where
  "migrate_to_targets entry records =
     (let ids = command_subentry_ids entry in
      if ids = [] then []
      else
        let retiring = set ids in
        map (\<lambda>r. DetachEntity (er_entity_id r))
          (filter (\<lambda>r. case er_config_subentry_id r of None \<Rightarrow> False | Some s \<Rightarrow> s \<in> retiring) records) @
        map RemoveSubentry ids)"

definition async_migrate_entry :: "config_entry \<Rightarrow> entity_record list \<Rightarrow> bool \<times> migration_call list" where
  "async_migrate_entry entry records =
     (if ce_version entry > ENTRY_VERSION then (False, [])
      else
        (True,
         (if ce_version entry < 2 then migrate_to_targets entry records else []) @
         [SetVersion ENTRY_VERSION ENTRY_MINOR_VERSION]))"

section \<open>What Home Assistant does on a call\<close>

definition detach :: "entity_record \<Rightarrow> entity_record" where
  "detach r = r\<lparr>er_config_subentry_id := None, er_device_id := None\<rparr>"

text \<open>Whether a record belongs to a subentry, directly or through a device of it.\<close>

definition attached_to :: "(string \<Rightarrow> string set) \<Rightarrow> string \<Rightarrow> entity_record \<Rightarrow> bool" where
  "attached_to devices s r \<longleftrightarrow> er_config_subentry_id r = Some s \<or>
     (case er_device_id r of None \<Rightarrow> False | Some d \<Rightarrow> d \<in> devices s)"

text \<open>
  \<open>recs\<close> reads the registry records of the entry, \<open>devices\<close> the devices a subentry owns, \<open>run\<close>
  performs a call: updating an entity changes that record alone, removing a subentry removes
  the records attached to it, and setting the version changes no record.
\<close>

definition registry_behaves ::
  "('w \<Rightarrow> entity_record list) \<Rightarrow> (string \<Rightarrow> string set) \<Rightarrow> (migration_call \<Rightarrow> 'w \<Rightarrow> 'w) \<Rightarrow> bool" where
  "registry_behaves recs devices run \<longleftrightarrow>
     (\<forall>w e. recs (run (DetachEntity e) w) = map (\<lambda>r. if er_entity_id r = e then detach r else r) (recs w)) \<and>
     (\<forall>w s. recs (run (RemoveSubentry s) w) = filter (\<lambda>r. \<not> attached_to devices s r) (recs w)) \<and>
     (\<forall>w v m. recs (run (SetVersion v m) w) = recs w)"

section \<open>Lemmas\<close>

definition retired :: "config_entry \<Rightarrow> entity_record \<Rightarrow> bool" where
  "retired entry r \<longleftrightarrow>
     (case er_config_subentry_id r of None \<Rightarrow> False | Some s \<Rightarrow> s \<in> set (command_subentry_ids entry))"

lemma migrate_calls:
  "migrate_to_targets entry records =
     map (\<lambda>r. DetachEntity (er_entity_id r)) (filter (retired entry) records) @
     map RemoveSubentry (command_subentry_ids entry)"
proof (cases "command_subentry_ids entry = []")
  case True
  then have "filter (retired entry) records = []"
    by (auto simp: filter_empty_conv retired_def split: option.splits)
  with True show ?thesis by (simp add: migrate_to_targets_def)
next
  case False
  have "retired entry =
      (\<lambda>r. case er_config_subentry_id r of None \<Rightarrow> False | Some s \<Rightarrow> s \<in> set (command_subentry_ids entry))"
    by (simp add: retired_def fun_eq_iff)
  with False show ?thesis by (simp add: migrate_to_targets_def Let_def)
qed

lemma detach_simps [simp]:
  "er_entity_id (detach r) = er_entity_id r"
  "er_unique_id (detach r) = er_unique_id r"
  "\<not> attached_to devices s (detach r)"
  by (simp_all add: detach_def attached_to_def)

lemma detach_detach [simp]: "detach (detach r) = detach r"
  by (simp add: detach_def)

lemma run_detaches:
  assumes "registry_behaves recs devices run"
  shows "recs (fold run (map (\<lambda>r. DetachEntity (er_entity_id r)) rs) w) =
    map (\<lambda>r. if er_entity_id r \<in> er_entity_id ` set rs then detach r else r) (recs w)"
proof (induction rs arbitrary: w)
  case Nil
  then show ?case by simp
next
  case (Cons r rs)
  have "recs (run (DetachEntity (er_entity_id r)) w) =
      map (\<lambda>x. if er_entity_id x = er_entity_id r then detach x else x) (recs w)"
    using assms by (simp add: registry_behaves_def)
  then show ?case by (auto simp: Cons.IH)
qed

lemma run_removals:
  assumes "registry_behaves recs devices run"
  shows "recs (fold run (map RemoveSubentry ids) w) = filter (\<lambda>r. \<forall>s \<in> set ids. \<not> attached_to devices s r) (recs w)"
proof (induction ids arbitrary: w)
  case Nil
  then show ?case by simp
next
  case (Cons s ids)
  have "recs (run (RemoveSubentry s) w) = filter (\<lambda>r. \<not> attached_to devices s r) (recs w)"
    using assms by (simp add: registry_behaves_def)
  then show ?case by (simp add: Cons.IH conj_commute)
qed

text \<open>
  The records a migration starts from: distinct entity ids, and a record on a device of a
  retiring subentry is in that subentry.
\<close>

definition records_consistent :: "(string \<Rightarrow> string set) \<Rightarrow> config_entry \<Rightarrow> entity_record list \<Rightarrow> bool" where
  "records_consistent devices entry records \<longleftrightarrow>
     distinct (map er_entity_id records) \<and>
     list_all (\<lambda>r. list_all (\<lambda>s. attached_to devices s r \<longrightarrow> retired entry r) (command_subentry_ids entry)) records"

lemma run_migration:
  assumes behaves: "registry_behaves recs devices run" and consistent: "records_consistent devices entry (recs w)"
  shows "recs (fold run (migrate_to_targets entry (recs w)) w) =
    map (\<lambda>r. if retired entry r then detach r else r) (recs w)"
proof -
  let ?rs = "filter (retired entry) (recs w)"
  have same: "er_entity_id r \<in> er_entity_id ` set ?rs \<longleftrightarrow> retired entry r" if r: "r \<in> set (recs w)" for r
  proof
    assume "er_entity_id r \<in> er_entity_id ` set ?rs"
    then obtain q where "q \<in> set (recs w)" and q: "retired entry q" "er_entity_id r = er_entity_id q" by auto
    then have "q = r"
      using r consistent by (auto simp: records_consistent_def distinct_map dest: inj_onD)
    with q show "retired entry r" by simp
  qed (use r in auto)
  have detached: "recs (fold run (map (\<lambda>r. DetachEntity (er_entity_id r)) ?rs) w) =
      map (\<lambda>r. if retired entry r then detach r else r) (recs w)"
    unfolding run_detaches [OF behaves] by (rule map_cong) (simp_all only: same)
  have "filter (\<lambda>r. \<forall>s \<in> set (command_subentry_ids entry). \<not> attached_to devices s r)
      (map (\<lambda>r. if retired entry r then detach r else r) (recs w)) =
    map (\<lambda>r. if retired entry r then detach r else r) (recs w)"
    using consistent by (intro filter_True) (auto simp: records_consistent_def list_all_iff)
  then show ?thesis
    unfolding migrate_calls fold_append comp_apply run_removals [OF behaves] detached .
qed

text \<open>Taking the migration up again where some of the retired records are detached already.\<close>

lemma run_migration_partial:
  assumes behaves: "registry_behaves recs devices run" and consistent: "records_consistent devices entry (recs w)"
    and partial: "recs w' = map (\<lambda>r. if P r then detach r else r) (recs w)"
    and P: "\<And>r. r \<in> set (recs w) \<Longrightarrow> P r \<Longrightarrow> retired entry r"
    and ids: "set (command_subentry_ids entry') \<subseteq> set (command_subentry_ids entry)"
    and state: "(\<forall>r \<in> set (recs w). retired entry r \<longrightarrow> P r) \<or> command_subentry_ids entry' = command_subentry_ids entry"
  shows "recs (fold run (migrate_to_targets entry' (recs w')) w') =
    map (\<lambda>r. if retired entry r then detach r else r) (recs w)"
proof -
  have mono: "retired entry' r \<Longrightarrow> retired entry r" for r
    using ids by (auto simp: retired_def split: option.splits)
  have not_detached: "\<not> retired entry' (detach r)" for r
    by (simp add: retired_def detach_def)
  have same: "command_subentry_ids entry' = command_subentry_ids entry \<Longrightarrow> retired entry' = retired entry"
    by (simp add: retired_def fun_eq_iff split: option.split)
  have attached: "retired entry' q"
    if "q \<in> set (recs w')" "s \<in> set (command_subentry_ids entry')" "attached_to devices s q" for q s
  proof -
    note q_in = that(1)
    obtain r where r: "r \<in> set (recs w)" and q: "q = (if P r then detach r else r)"
      using q_in unfolding partial by auto
    have "\<not> P r" using that(3) q by auto
    then show ?thesis
      using that r q consistent state same ids by (auto simp: records_consistent_def list_all_iff)
  qed
  have "map er_entity_id (recs w') = map er_entity_id (recs w)" by (simp add: partial)
  then have "distinct (map er_entity_id (recs w'))"
    using consistent by (simp only: records_consistent_def)
  then have "records_consistent devices entry' (recs w')"
    unfolding records_consistent_def list_all_iff using attached by blast
  from run_migration [OF behaves this]
  have "recs (fold run (migrate_to_targets entry' (recs w')) w') =
      map (\<lambda>r. if retired entry' r then detach r else r) (recs w')" .
  also have "\<dots> = map (\<lambda>r. if retired entry r then detach r else r) (recs w)"
  proof -
    have "(if retired entry' (if P r then detach r else r) then detach (if P r then detach r else r)
        else if P r then detach r else r) = (if retired entry r then detach r else r)"
      if "r \<in> set (recs w)" for r
      using P [OF that] state that same mono [of r] not_detached by (cases "P r") auto
    then show ?thesis unfolding partial by simp
  qed
  finally show ?thesis .
qed

text \<open>Where a call of the migration stands: among the detaches, among the removals, or last.\<close>

lemma split_three:
  assumes "us @ x # vs = xs @ ys @ [z]"
  shows "(x \<in> set xs \<and> set us \<subseteq> set xs \<and> vs \<noteq> []) \<or>
    (x \<in> set ys \<and> set xs \<subseteq> set us \<and> set us \<subseteq> set xs \<union> set ys \<and> vs \<noteq> []) \<or> (x = z \<and> vs = [] \<and> us = xs @ ys)"
proof -
  from assms consider ws where "xs = us @ ws" "ws @ ys @ [z] = x # vs" | ws where "us = xs @ ws" "ws @ x # vs = ys @ [z]"
    by (auto simp: append_eq_append_conv2)
  then show ?thesis
  proof cases
    case 1
    show ?thesis
    proof (cases ws)
      case Nil
      with 1 show ?thesis by (cases ys) auto
    next
      case (Cons w ws')
      with 1 show ?thesis by auto
    qed
  next
    case 2
    show ?thesis
    proof (cases vs rule: rev_cases)
      case Nil
      with 2 show ?thesis by simp
    next
      case (snoc vs' v)
      with 2 have "ys = ws @ x # vs'" by (metis append_butlast_last_id append_Cons append_assoc butlast_snoc)
      with 2 snoc show ?thesis by auto
    qed
  qed
qed

section \<open>A small world to evaluate in\<close>

definition demo_old_entry :: config_entry where
  "demo_old_entry = demo_entry\<lparr>ce_version := 1, ce_options := [],
     ce_subentries := [(''c1'', \<lparr>se_subentry_id = ''c1'', se_subentry_type = ''command'',
       se_title = ''fan_on'', se_data = [(''command_id'', PInt 4)]\<rparr>)]\<rparr>"

definition demo_old_records :: "entity_record list" where
  "demo_old_records =
     [\<lparr>er_entity_id = ''button.a'', er_unique_id = ''b1_4'', er_config_subentry_id = Some ''c1'', er_device_id = Some ''d1''\<rparr>,
      \<lparr>er_entity_id = ''button.c'', er_unique_id = ''b1_cancel_learn'', er_config_subentry_id = None, er_device_id = Some ''d0''\<rparr>]"

definition demo_devices :: "string \<Rightarrow> string set" where
  "demo_devices s = (if s = ''c1'' then {''d1''} else {})"

fun demo_run :: "migration_call \<Rightarrow> entity_record list \<Rightarrow> entity_record list" where
  "demo_run (DetachEntity e) rs = map (\<lambda>r. if er_entity_id r = e then detach r else r) rs"
| "demo_run (RemoveSubentry s) rs = filter (\<lambda>r. \<not> attached_to demo_devices s r) rs"
| "demo_run (SetVersion v m) rs = rs"

lemma demo_registry_behaves: "registry_behaves (\<lambda>rs. rs) demo_devices demo_run"
  by (simp add: registry_behaves_def)

section \<open>Properties\<close>

text \<open>
  C24: The migration loses nothing: although removing a subentry removes the registry records
  attached to it and to its devices, after all of the migration's calls every record is still
  there, in its place, with its entity id and unique id; those of the retired command
  subentries belong to no subentry and no device any more, the others are as they were.
\<close>

theorem migration_keeps_every_record:
  assumes "registry_behaves recs devices run" and "records_consistent devices entry (recs w)"
  shows "recs (fold run (snd (async_migrate_entry entry (recs w))) w) =
    (if ce_version entry < 2 then map (\<lambda>r. if retired entry r then detach r else r) (recs w) else recs w)"
  using run_migration [OF assms] assms(1)
  by (simp add: async_migrate_entry_def const_eqs registry_behaves_def)

theorem migration_keeps_every_record_witness:
  "fold demo_run (snd (async_migrate_entry demo_old_entry demo_old_records)) demo_old_records =
     [\<lparr>er_entity_id = ''button.a'', er_unique_id = ''b1_4'', er_config_subentry_id = None, er_device_id = None\<rparr>,
      \<lparr>er_entity_id = ''button.c'', er_unique_id = ''b1_cancel_learn'', er_config_subentry_id = None, er_device_id = Some ''d0''\<rparr>]"
proof -
  have "records_consistent demo_devices demo_old_entry demo_old_records" by code_simp
  then show ?thesis
    using migration_keeps_every_record [OF demo_registry_behaves, of demo_old_entry demo_old_records]
    by (simp add: demo_old_entry_def demo_old_records_def retired_def command_subentry_ids_def detach_def
        const_eqs)
qed

text \<open>
  C25: Whatever call of a migration is looked at, what must have happened before it has: a subentry is
  removed only when it is a retired command subentry and every record in it has been detached, so
  no removal takes a record with it; a record is detached only while its subentry is still there;
  and the version is written by the last call only, after every retired subentry has been removed,
  so an interrupted migration is started again. An entry of a newer version causes no call.
\<close>

theorem migration_order:
  assumes "async_migrate_entry entry records = (migrated, before @ c # after)"
  shows "migrated \<and> ce_version entry \<le> ENTRY_VERSION \<and>
    (\<forall>s. c = RemoveSubentry s \<longrightarrow> s \<in> set (command_subentry_ids entry) \<and>
      (\<forall>r \<in> set records. er_config_subentry_id r = Some s \<longrightarrow> DetachEntity (er_entity_id r) \<in> set before)) \<and>
    (\<forall>e. c = DetachEntity e \<longrightarrow> (\<exists>r \<in> set records. er_entity_id r = e \<and> retired entry r) \<and>
      (\<forall>s. RemoveSubentry s \<notin> set before)) \<and>
    (after = [] \<longleftrightarrow> c = SetVersion ENTRY_VERSION ENTRY_MINOR_VERSION) \<and>
    (\<forall>v m. c = SetVersion v m \<longrightarrow> after = [] \<and>
      (ce_version entry < 2 \<longrightarrow> (\<forall>s \<in> set (command_subentry_ids entry). RemoveSubentry s \<in> set before)))"
proof -
  let ?ds = "if ce_version entry < 2 then map (\<lambda>r. DetachEntity (er_entity_id r)) (filter (retired entry) records) else []"
  let ?rs = "if ce_version entry < 2 then map RemoveSubentry (command_subentry_ids entry) else []"
  have calls: "before @ c # after = ?ds @ ?rs @ [SetVersion ENTRY_VERSION ENTRY_MINOR_VERSION]"
    and made: "migrated \<and> ce_version entry \<le> ENTRY_VERSION"
    using assms by (auto simp: async_migrate_entry_def migrate_calls split: if_splits)
  from split_three [OF calls] show ?thesis
  proof (elim disjE conjE)
    assume "c \<in> set ?ds" and "set before \<subseteq> set ?ds" and "after \<noteq> []"
    with made show ?thesis by (auto split: if_splits)
  next
    assume "c \<in> set ?rs" and "set ?ds \<subseteq> set before" and "set before \<subseteq> set ?ds \<union> set ?rs" and "after \<noteq> []"
    with made show ?thesis by (auto simp: retired_def split: if_splits)
  next
    assume "c = SetVersion ENTRY_VERSION ENTRY_MINOR_VERSION" and "after = []" and "before = ?ds @ ?rs"
    with made show ?thesis by auto
  qed
qed

lemma migration_order_witness:
  "\<exists>before after. snd (async_migrate_entry demo_old_entry demo_old_records) = before @ RemoveSubentry ''c1'' # after \<and>
     DetachEntity ''button.a'' \<in> set before \<and> after \<noteq> []"
proof -
  have calls: "async_migrate_entry demo_old_entry demo_old_records =
      (True, [DetachEntity ''button.a''] @ RemoveSubentry ''c1'' # [SetVersion 2 1])" by code_simp
  from migration_order [OF calls] have "DetachEntity ''button.a'' \<in> set [DetachEntity ''button.a'']"
    by (simp add: demo_old_records_def)
  with calls show ?thesis by (intro exI [of _ "[DetachEntity ''button.a'']"] exI [of _ "[SetVersion 2 1]"]) simp
qed

text \<open>
  The migration can be taken up again after an interruption: if only some first part of its
  calls was made, and the entry lacks just the subentries whose removal was among them, running
  it again on what is there ends with exactly the records an uninterrupted run gives.
\<close>

theorem migration_resumable:
  assumes "registry_behaves recs devices run" and "records_consistent devices entry (recs w)"
    and "migrate_to_targets entry (recs w) = made @ rest"
    and "command_subentry_ids entry' = filter (\<lambda>s. RemoveSubentry s \<notin> set made) (command_subentry_ids entry)"
  shows "recs (fold run (migrate_to_targets entry' (recs (fold run made w))) (fold run made w)) =
    recs (fold run (migrate_to_targets entry (recs w)) w)"
proof -
  let ?rs = "filter (retired entry) (recs w)"
  have full: "recs (fold run (migrate_to_targets entry (recs w)) w) =
      map (\<lambda>r. if retired entry r then detach r else r) (recs w)"
    by (rule run_migration [OF assms(1,2)])
  have key: "r = q" if "r \<in> set (recs w)" "q \<in> set (recs w)" "er_entity_id r = er_entity_id q" for r q
    using that assms(2) by (auto simp: records_consistent_def distinct_map dest: inj_onD)
  have ids: "set (command_subentry_ids entry') \<subseteq> set (command_subentry_ids entry)"
    using assms(4) by simp
  have "made @ rest = map (\<lambda>r. DetachEntity (er_entity_id r)) ?rs @ map RemoveSubentry (command_subentry_ids entry)"
    using assms(3) by (simp add: migrate_calls)
  then consider us where "made @ us = map (\<lambda>r. DetachEntity (er_entity_id r)) ?rs"
    | us where "made = map (\<lambda>r. DetachEntity (er_entity_id r)) ?rs @ us"
        and "us @ rest = map RemoveSubentry (command_subentry_ids entry)"
    by (auto simp: append_eq_append_conv2)
  then show ?thesis
  proof cases
    case 1
    from 1 [symmetric] obtain rs1 rs2 where rs: "?rs = rs1 @ rs2" and made: "made = map (\<lambda>r. DetachEntity (er_entity_id r)) rs1"
      by (auto simp: map_eq_append_conv)
    have "set rs1 \<subseteq> set (recs w) \<inter> Collect (retired entry)"
      using arg_cong [OF rs, of set] by auto
    then have "retired entry r" if "r \<in> set (recs w)" "er_entity_id r \<in> er_entity_id ` set rs1" for r
      using that key by blast
    moreover have "command_subentry_ids entry' = command_subentry_ids entry"
      unfolding assms(4) made by (intro filter_True) auto
    ultimately show ?thesis
      unfolding full
      by (intro run_migration_partial [OF assms(1,2) _ _ ids, where P = "\<lambda>r. er_entity_id r \<in> er_entity_id ` set rs1"])
        (simp_all only: made run_detaches [OF assms(1)], blast+)
  next
    case 2
    obtain ids1 where us: "us = map RemoveSubentry ids1" and ids1: "set ids1 \<subseteq> set (command_subentry_ids entry)"
      using 2(2) by (auto simp: map_eq_append_conv append_eq_map_conv)
    have same: "er_entity_id r \<in> er_entity_id ` set ?rs \<longleftrightarrow> retired entry r" if "r \<in> set (recs w)" for r
      using that key by auto
    have "recs (fold run (map (\<lambda>r. DetachEntity (er_entity_id r)) ?rs) w) =
        map (\<lambda>r. if retired entry r then detach r else r) (recs w)"
      unfolding run_detaches [OF assms(1)] by (rule map_cong) (simp_all only: same)
    moreover have "filter (\<lambda>r. \<forall>s \<in> set ids1. \<not> attached_to devices s r)
        (map (\<lambda>r. if retired entry r then detach r else r) (recs w)) =
      map (\<lambda>r. if retired entry r then detach r else r) (recs w)"
      using assms(2) ids1 by (intro filter_True) (auto simp: records_consistent_def list_all_iff)
    ultimately have "recs (fold run made w) = map (\<lambda>r. if retired entry r then detach r else r) (recs w)"
      unfolding 2(1) us fold_append comp_apply run_removals [OF assms(1)] by simp
    then show ?thesis
      unfolding full
      by (intro run_migration_partial [OF assms(1,2) _ _ ids, where P = "retired entry"]) auto
  qed
qed

theorem migration_resumable_witness:
  "fold demo_run (migrate_to_targets demo_old_entry (fold demo_run [DetachEntity ''button.a''] demo_old_records))
     (fold demo_run [DetachEntity ''button.a''] demo_old_records) =
   fold demo_run (migrate_to_targets demo_old_entry demo_old_records) demo_old_records"
proof -
  have "records_consistent demo_devices demo_old_entry demo_old_records" by code_simp
  moreover have "migrate_to_targets demo_old_entry demo_old_records =
      [DetachEntity ''button.a''] @ [RemoveSubentry ''c1'']" by code_simp
  moreover have "command_subentry_ids demo_old_entry =
      filter (\<lambda>s. RemoveSubentry s \<notin> set [DetachEntity ''button.a'']) (command_subentry_ids demo_old_entry)"
    by simp
  ultimately show ?thesis by (rule migration_resumable [OF demo_registry_behaves])
qed

end
