(* ===== verification/EsphomeConfig.thy ===== *)
theory EsphomeConfig
  imports PyRuntime Complex_Main "HOL-Library.Word"
begin

text \<open>
  \<open>components/rf_cloner/__init__.py\<close>, \<open>sensor.py\<close> and \<open>text_sensor.py\<close>: the ESPHome side's
  configuration schema, its validation and the code it generates. ESPHome's validators and code
  generator are outside: a validator is a constructor of \<open>validator\<close>, a configuration is the
  record of the values they return (periods as integers in the unit named), and generating code
  is the list of statements added, in order.
\<close>

unbundle bit_operations_syntax

section \<open>Names of the options\<close>

named_theorems option_eqs

definition CONF_RF_CLONER_ID :: string where [option_eqs]: "CONF_RF_CLONER_ID = ''rf_cloner_id''"
definition CONF_MAX_COMMANDS :: string where [option_eqs]: "CONF_MAX_COMMANDS = ''max_commands''"
definition CONF_MAX_PULSES :: string where [option_eqs]: "CONF_MAX_PULSES = ''max_pulses''"
definition CONF_MIN_PULSES :: string where [option_eqs]: "CONF_MIN_PULSES = ''min_pulses''"
definition CONF_MIN_PULSE_LENGTH :: string where [option_eqs]: "CONF_MIN_PULSE_LENGTH = ''min_pulse_length''"
definition CONF_MAX_PULSE_LENGTH :: string where [option_eqs]: "CONF_MAX_PULSE_LENGTH = ''max_pulse_length''"
definition CONF_MAX_STORAGE_BYTES :: string where [option_eqs]: "CONF_MAX_STORAGE_BYTES = ''max_storage_bytes''"
definition CONF_MIN_REPEATS :: string where [option_eqs]: "CONF_MIN_REPEATS = ''min_repeats''"
definition CONF_FRAME_GAP_MIN :: string where [option_eqs]: "CONF_FRAME_GAP_MIN = ''frame_gap_min''"
definition CONF_SETTLE_TIME :: string where [option_eqs]: "CONF_SETTLE_TIME = ''settle_time''"
definition CONF_LEARN_TIMEOUT :: string where [option_eqs]: "CONF_LEARN_TIMEOUT = ''learn_timeout''"
definition CONF_DEFAULT_REPEAT_TIMES :: string where [option_eqs]: "CONF_DEFAULT_REPEAT_TIMES = ''default_repeat_times''"
definition CONF_DEFAULT_GAP :: string where [option_eqs]: "CONF_DEFAULT_GAP = ''default_gap''"
definition CONF_MIN_GAP :: string where [option_eqs]: "CONF_MIN_GAP = ''min_gap''"
definition CONF_MAX_GAP :: string where [option_eqs]: "CONF_MAX_GAP = ''max_gap''"
definition CONF_ACTION_COMMAND_ID :: string where [option_eqs]: "CONF_ACTION_COMMAND_ID = ''command_id''"
definition CONF_REPEAT_TIMES :: string where [option_eqs]: "CONF_REPEAT_TIMES = ''repeat_times''"
definition CONF_GAP :: string where [option_eqs]: "CONF_GAP = ''gap''"
definition CONF_ON_LEARN_STARTED :: string where [option_eqs]: "CONF_ON_LEARN_STARTED = ''on_learn_started''"
definition CONF_ON_LEARN_SUCCESS :: string where [option_eqs]: "CONF_ON_LEARN_SUCCESS = ''on_learn_success''"
definition CONF_ON_LEARN_FAILED :: string where [option_eqs]: "CONF_ON_LEARN_FAILED = ''on_learn_failed''"
definition CONF_ON_SEND :: string where [option_eqs]: "CONF_ON_SEND = ''on_send''"

section \<open>The key hash\<close>

text \<open>\<open>text.encode()\<close>: UTF-8, of a string of code points below 256.\<close>

definition utf8_char :: "char \<Rightarrow> nat list" where
  "utf8_char c = (if code c < 128 then [code c] else [192 + code c div 64, 128 + code c mod 64])"

definition py_encode :: "string \<Rightarrow> nat list" where
  "py_encode s = concat (map utf8_char s)"

definition fnv1a_step :: "nat \<Rightarrow> int \<Rightarrow> int" where
  "fnv1a_step byte hash = ((hash XOR int byte) * 0x01000193) AND 0xFFFFFFFF"

definition fnv1a_32 :: "string \<Rightarrow> int" where
  "fnv1a_32 s = fold fnv1a_step (py_encode s) 0x811C9DC5"

section \<open>Validators and the schema\<close>

datatype validator =
    IntRange int int
  | PeriodMicroseconds
  | PeriodMilliseconds
  | PercentageInt
  | FrequencyHz
  | StringStrict
  | DeclareId string
  | UseId string
  | Automation string
  | Templatable validator

text \<open>An option: its key, its default when it has one, whether it is required, its validator.\<close>

record schema_option =
  so_key :: string
  so_default :: "pyval option"
  so_required :: bool
  so_validator :: validator

definition optional :: "string \<Rightarrow> pyval \<Rightarrow> validator \<Rightarrow> schema_option" where
  "optional key dflt v = \<lparr>so_key = key, so_default = Some dflt, so_required = False, so_validator = v\<rparr>"

definition optional_absent :: "string \<Rightarrow> validator \<Rightarrow> schema_option" where
  "optional_absent key v = \<lparr>so_key = key, so_default = None, so_required = False, so_validator = v\<rparr>"

definition required :: "string \<Rightarrow> validator \<Rightarrow> schema_option" where
  "required key v = \<lparr>so_key = key, so_default = None, so_required = True, so_validator = v\<rparr>"

definition CONFIG_SCHEMA :: "schema_option list" where
  "CONFIG_SCHEMA =
    [optional_absent ''id'' (DeclareId ''RfCloner''),
     optional CONF_MAX_COMMANDS (PInt 16) (IntRange 1 255),
     optional CONF_MAX_PULSES (PInt 128) (IntRange 4 2048),
     optional CONF_MAX_STORAGE_BYTES (PInt 12288) (IntRange 64 65535),
     optional CONF_MIN_PULSES (PInt 8) (IntRange 2 2048),
     optional CONF_MIN_PULSE_LENGTH (PStr ''100us'') PeriodMicroseconds,
     optional CONF_MAX_PULSE_LENGTH (PStr ''100ms'') PeriodMicroseconds,
     optional ''tolerance'' (PStr ''25%'') PercentageInt,
     optional CONF_MIN_REPEATS (PInt 3) (IntRange 2 32),
     optional CONF_FRAME_GAP_MIN (PStr ''3ms'') PeriodMicroseconds,
     optional CONF_SETTLE_TIME (PStr ''800ms'') PeriodMilliseconds,
     optional CONF_LEARN_TIMEOUT (PStr ''15s'') PeriodMilliseconds,
     optional CONF_DEFAULT_REPEAT_TIMES (PInt 20) (IntRange 1 1000),
     optional CONF_DEFAULT_GAP (PStr ''10ms'') PeriodMicroseconds,
     optional CONF_MIN_GAP (PStr ''1ms'') PeriodMicroseconds,
     optional CONF_MAX_GAP (PStr ''200ms'') PeriodMicroseconds,
     optional ''frequency'' (PStr ''433.92MHz'') FrequencyHz,
     optional_absent CONF_ON_LEARN_STARTED (Automation ''LearnStartedTrigger''),
     optional_absent CONF_ON_LEARN_SUCCESS (Automation ''LearnSuccessTrigger''),
     optional_absent CONF_ON_LEARN_FAILED (Automation ''LearnFailedTrigger''),
     optional_absent CONF_ON_SEND (Automation ''SendTrigger'')]"

record rf_config =
  cf_id :: string
  cf_max_commands :: int
  cf_max_pulses :: int
  cf_max_storage_bytes :: int
  cf_min_pulses :: int
  cf_min_pulse_length :: int
  cf_max_pulse_length :: int
  cf_tolerance :: int
  cf_min_repeats :: int
  cf_frame_gap_min :: int
  cf_settle_time :: int
  cf_learn_timeout :: int
  cf_default_repeat_times :: int
  cf_default_gap :: int
  cf_min_gap :: int
  cf_max_gap :: int
  cf_frequency :: rat
  cf_transmitter_id :: string
  cf_on_learn_started :: "string list"
  cf_on_learn_success :: "string list"
  cf_on_learn_failed :: "string list"
  cf_on_send :: "string list"

section \<open>Validation\<close>

definition HEADER_BYTES :: int where "HEADER_BYTES = 10"
definition META_BYTES :: int where "META_BYTES = 28"
definition SLOT_BYTES :: int where "SLOT_BYTES = 44"
definition CRC_BYTES :: int where "CRC_BYTES = 2"

definition index_bytes :: "rf_config \<Rightarrow> int" where
  "index_bytes c = HEADER_BYTES + META_BYTES + cf_max_commands c * SLOT_BYTES + CRC_BYTES"

definition worst_case :: "rf_config \<Rightarrow> int" where
  "worst_case c = index_bytes c + cf_max_commands c * cf_max_pulses c * 4"

text \<open>\<open>Inl\<close> is \<open>cv.Invalid\<close> with its message; the flag says whether the budget is logged.\<close>

definition validate_budget :: "rf_config \<Rightarrow> string + (rf_config \<times> bool)" where
  "validate_budget c =
     (if index_bytes c > cf_max_storage_bytes c
      then Inl (''max_storage_bytes ('' @ py_str_int (cf_max_storage_bytes c) @ '') is smaller than the '' @
        py_str_int (index_bytes c) @ '' bytes the command index alone needs for max_commands: '' @
        py_str_int (cf_max_commands c))
      else if cf_min_pulses c > cf_max_pulses c then Inl ''min_pulses must not exceed max_pulses''
      else if cf_min_pulse_length c \<ge> cf_max_pulse_length c
      then Inl ''min_pulse_length must be shorter than max_pulse_length''
      else if cf_min_gap c \<ge> cf_max_gap c then Inl ''min_gap must be shorter than max_gap''
      else if cf_frame_gap_min c > cf_max_gap c then Inl ''frame_gap_min must not exceed max_gap''
      else if \<not> (cf_min_gap c \<le> cf_default_gap c \<and> cf_default_gap c \<le> cf_max_gap c)
      then Inl ''default_gap must fall between min_gap and max_gap''
      else Inr (c, worst_case c > cf_max_storage_bytes c))"

text \<open>The transmitter the configuration names, as the full configuration holds it.\<close>

definition final_validate :: "(string \<Rightarrow> (string, int) dict) \<Rightarrow> rf_config \<Rightarrow> string + unit" where
  "final_validate transmitter_of c =
     (case map_of (transmitter_of (cf_transmitter_id c)) ''carrier_duty_percent'' of
        None \<Rightarrow> Inr ()
      | Some duty_percent \<Rightarrow>
          if duty_percent \<noteq> 100
          then Inl (''Transmitter '' @ CHR 0x27 # cf_transmitter_id c @ CHR 0x27 # '' must have '' @
            CHR 0x27 # ''carrier_duty_percent'' @ CHR 0x27 #
            '' set to 100% for RF transmission. The CC1101 handles modulation itself; applying a '' @
            ''carrier duty cycle would corrupt the replayed waveform'')
          else Inr ())"

section \<open>Generated code\<close>

datatype cpp_type = StdString | Uint8 | Uint16 | Uint32

datatype cg_stmt =
    NewPvariable string
  | RegisterComponent
  | RegisterListener
  | RegisterTransmittable
  | RegisterParented string
  | CallSetter string int
  | SetTemplatable string cpp_type
  | NewTrigger string
  | BuildAutomation string

definition py_int_of_rat :: "rat \<Rightarrow> int" where
  "py_int_of_rat x = (if x < 0 then - floor (- x) else floor x)"

definition build_triggers :: "string list \<Rightarrow> cg_stmt list" where
  "build_triggers confs = concat (map (\<lambda>t. [NewTrigger t, BuildAutomation t]) confs)"

definition to_code :: "rf_config \<Rightarrow> cg_stmt list" where
  "to_code c =
     [NewPvariable (cf_id c), RegisterComponent, RegisterListener, RegisterTransmittable,
      CallSetter ''set_max_commands'' (cf_max_commands c),
      CallSetter ''set_max_pulses'' (cf_max_pulses c),
      CallSetter ''set_max_storage_bytes'' (cf_max_storage_bytes c),
      CallSetter ''set_min_pulses'' (cf_min_pulses c),
      CallSetter ''set_min_pulse_us'' (cf_min_pulse_length c),
      CallSetter ''set_max_pulse_us'' (cf_max_pulse_length c),
      CallSetter ''set_tolerance_percent'' (cf_tolerance c),
      CallSetter ''set_min_repeats'' (cf_min_repeats c),
      CallSetter ''set_frame_gap_min_us'' (cf_frame_gap_min c),
      CallSetter ''set_settle_ms'' (cf_settle_time c),
      CallSetter ''set_learn_timeout_ms'' (cf_learn_timeout c),
      CallSetter ''set_default_repeat_times'' (cf_default_repeat_times c),
      CallSetter ''set_default_gap_us'' (cf_default_gap c),
      CallSetter ''set_min_gap_us'' (cf_min_gap c),
      CallSetter ''set_max_gap_us'' (cf_max_gap c),
      CallSetter ''set_frequency_hz'' (py_int_of_rat (cf_frequency c)),
      CallSetter ''set_key_salt'' (fnv1a_32 (cf_id c))] @
     build_triggers (cf_on_learn_started c) @ build_triggers (cf_on_learn_success c) @
     build_triggers (cf_on_learn_failed c) @ build_triggers (cf_on_send c)"

section \<open>Actions\<close>

definition RF_CLONER_ACTION_SCHEMA :: "schema_option list" where
  "RF_CLONER_ACTION_SCHEMA = [optional_absent ''id'' (UseId ''RfCloner'')]"

definition NAMED_ACTION_SCHEMA :: "schema_option list" where
  "NAMED_ACTION_SCHEMA =
    [optional_absent ''id'' (UseId ''RfCloner''), required ''name'' (Templatable StringStrict)]"

definition ID_ACTION_SCHEMA :: "schema_option list" where
  "ID_ACTION_SCHEMA =
    [optional_absent ''id'' (UseId ''RfCloner''),
     required CONF_ACTION_COMMAND_ID (Templatable (IntRange 1 4294967294))]"

definition SEND_OPTIONS :: "schema_option list" where
  "SEND_OPTIONS =
    [optional_absent CONF_REPEAT_TIMES (Templatable (IntRange 1 1000)),
     optional_absent CONF_GAP (Templatable PeriodMicroseconds)]"

text \<open>An action's configuration, as far as its code generator asks: the id, and the keys present.\<close>

record action_config =
  ac_id :: string
  ac_keys :: "string list"

definition set_if_present :: "action_config \<Rightarrow> string \<Rightarrow> string \<Rightarrow> cpp_type \<Rightarrow> cg_stmt list" where
  "set_if_present c key setter type = (if key \<in> set (ac_keys c) then [SetTemplatable setter type] else [])"

definition rf_cloner_learn_to_code :: "string \<Rightarrow> action_config \<Rightarrow> cg_stmt list" where
  "rf_cloner_learn_to_code action_id c =
     [NewPvariable action_id, RegisterParented (ac_id c), SetTemplatable ''set_name'' StdString] @
     set_if_present c ''timeout'' ''set_timeout'' Uint32"

definition rf_cloner_send_to_code :: "string \<Rightarrow> action_config \<Rightarrow> cg_stmt list" where
  "rf_cloner_send_to_code action_id c =
     [NewPvariable action_id, RegisterParented (ac_id c), SetTemplatable ''set_name'' StdString] @
     set_if_present c CONF_REPEAT_TIMES ''set_repeat_times'' Uint16 @
     set_if_present c CONF_GAP ''set_gap'' Uint32"

definition rf_cloner_send_id_to_code :: "string \<Rightarrow> action_config \<Rightarrow> cg_stmt list" where
  "rf_cloner_send_id_to_code action_id c =
     [NewPvariable action_id, RegisterParented (ac_id c), SetTemplatable ''set_command_id'' Uint32] @
     set_if_present c CONF_REPEAT_TIMES ''set_repeat_times'' Uint16 @
     set_if_present c CONF_GAP ''set_gap'' Uint32"

definition rf_cloner_rename_to_code :: "string \<Rightarrow> action_config \<Rightarrow> cg_stmt list" where
  "rf_cloner_rename_to_code action_id c =
     [NewPvariable action_id, RegisterParented (ac_id c), SetTemplatable ''set_command_id'' Uint32,
      SetTemplatable ''set_name'' StdString]"

definition rf_cloner_delete_to_code :: "string \<Rightarrow> action_config \<Rightarrow> cg_stmt list" where
  "rf_cloner_delete_to_code action_id c =
     [NewPvariable action_id, RegisterParented (ac_id c), SetTemplatable ''set_name'' StdString]"

definition rf_cloner_delete_id_to_code :: "string \<Rightarrow> action_config \<Rightarrow> cg_stmt list" where
  "rf_cloner_delete_id_to_code action_id c =
     [NewPvariable action_id, RegisterParented (ac_id c), SetTemplatable ''set_command_id'' Uint32]"

definition rf_cloner_simple_action_to_code :: "string \<Rightarrow> action_config \<Rightarrow> cg_stmt list" where
  "rf_cloner_simple_action_to_code action_id c = [NewPvariable action_id, RegisterParented (ac_id c)]"

text \<open>The registered actions: name, schema, generator.\<close>

definition ACTIONS :: "(string \<times> schema_option list \<times> (string \<Rightarrow> action_config \<Rightarrow> cg_stmt list)) list" where
  "ACTIONS =
    [(''rf_cloner.learn'', NAMED_ACTION_SCHEMA @ [optional_absent ''timeout'' (Templatable PeriodMilliseconds)],
      rf_cloner_learn_to_code),
     (''rf_cloner.send'', NAMED_ACTION_SCHEMA @ SEND_OPTIONS, rf_cloner_send_to_code),
     (''rf_cloner.send_id'', ID_ACTION_SCHEMA @ SEND_OPTIONS, rf_cloner_send_id_to_code),
     (''rf_cloner.rename'', ID_ACTION_SCHEMA @ [required ''name'' (Templatable StringStrict)],
      rf_cloner_rename_to_code),
     (''rf_cloner.delete'', NAMED_ACTION_SCHEMA, rf_cloner_delete_to_code),
     (''rf_cloner.delete_id'', ID_ACTION_SCHEMA, rf_cloner_delete_id_to_code),
     (''rf_cloner.cancel'', RF_CLONER_ACTION_SCHEMA, rf_cloner_simple_action_to_code),
     (''rf_cloner.clear_all'', RF_CLONER_ACTION_SCHEMA, rf_cloner_simple_action_to_code),
     (''rf_cloner.factory_reset'', RF_CLONER_ACTION_SCHEMA, rf_cloner_simple_action_to_code)]"

section \<open>Sensors of the node\<close>

record node_sensor =
  ns_key :: string
  ns_unit :: "string option"
  ns_icon :: string
  ns_accuracy_decimals :: "int option"
  ns_state_class :: "string option"
  ns_entity_category :: string
  ns_setter :: string

definition NODE_SENSORS :: "node_sensor list" where
  "NODE_SENSORS =
    [\<lparr>ns_key = ''command_count'', ns_unit = None, ns_icon = ''mdi:format-list-numbered'',
      ns_accuracy_decimals = Some 0, ns_state_class = Some ''measurement'', ns_entity_category = ''diagnostic'',
      ns_setter = ''set_command_count_sensor''\<rparr>,
     \<lparr>ns_key = ''storage_used'', ns_unit = Some ''B'', ns_icon = ''mdi:database'',
      ns_accuracy_decimals = Some 0, ns_state_class = Some ''measurement'', ns_entity_category = ''diagnostic'',
      ns_setter = ''set_storage_used_sensor''\<rparr>]"

definition NODE_TEXT_SENSORS :: "node_sensor list" where
  "NODE_TEXT_SENSORS =
    [\<lparr>ns_key = ''state'', ns_unit = None, ns_icon = ''mdi:radio-tower'',
      ns_accuracy_decimals = None, ns_state_class = None, ns_entity_category = ''diagnostic'',
      ns_setter = ''set_state_text_sensor''\<rparr>,
     \<lparr>ns_key = ''last_result'', ns_unit = None, ns_icon = ''mdi:information-outline'',
      ns_accuracy_decimals = None, ns_state_class = None, ns_entity_category = ''diagnostic'',
      ns_setter = ''set_last_result_text_sensor''\<rparr>]"

text \<open>For each configured key, a new sensor handed to its setter.\<close>

definition sensors_to_code :: "node_sensor list \<Rightarrow> string list \<Rightarrow> (string \<times> string) list" where
  "sensors_to_code sensors configured =
     map (\<lambda>s. (ns_key s, ns_setter s)) (filter (\<lambda>s. ns_key s \<in> set configured) sensors)"

section \<open>The same hash on the device\<close>

text \<open>
  \<open>fnv1a_32\<close> of \<open>command_store.cpp\<close>: the loop over the bytes up to the terminating zero, on a
  \<open>uint32_t\<close> that wraps.
\<close>

definition cpp_fnv1a_32 :: "8 word list \<Rightarrow> 32 word" where
  "cpp_fnv1a_32 bytes = fold (\<lambda>b hash. (hash XOR ucast b) * 16777619) (takeWhile (\<lambda>b. b \<noteq> 0) bytes) 2166136261"

lemma utf8_bytes: "n \<in> set (py_encode s) \<Longrightarrow> n < 256"
proof -
  assume "n \<in> set (py_encode s)"
  then obtain c where "n \<in> set (utf8_char c)" by (auto simp: py_encode_def)
  moreover have "code c div 64 \<le> 255 div 64"
  proof (rule div_le_mono)
    have "code c < 256" by (rule nat_of_char_less_256)
    then show "code c \<le> 255" by linarith
  qed
  ultimately show ?thesis by (auto simp: utf8_char_def split: if_splits)
qed

lemma fnv1a_step_word:
  assumes "b < 256"
  shows "fnv1a_step b (uint h) = uint ((h XOR ucast (word_of_nat b :: 8 word)) * 16777619 :: 32 word)"
proof -
  have byte: "uint (ucast (word_of_nat b :: 8 word) :: 32 word) = int b"
    using assms by (simp add: uint_nat unat_of_nat unsigned_ucast_eq unsigned_of_nat take_bit_nat_eq_self)
  have "uint ((h XOR ucast (word_of_nat b :: 8 word)) * 16777619 :: 32 word) =
      (uint (h XOR ucast (word_of_nat b :: 8 word)) * 16777619) mod 2 ^ 32"
    by (simp add: uint_word_ariths)
  also have "uint (h XOR ucast (word_of_nat b :: 8 word)) = uint h XOR int b"
    by (simp add: unsigned_xor_eq byte)
  also have "(uint h XOR int b) * 16777619 mod 2 ^ 32 = fnv1a_step b (uint h)"
  proof -
    have "x mod 2 ^ 32 = x AND 0xFFFFFFFF" for x :: int
      using take_bit_eq_mask [of 32 x] by (simp add: take_bit_eq_mod mask_eq_exp_minus_1)
    then show ?thesis by (simp only: fnv1a_step_def)
  qed
  finally show ?thesis by simp
qed

section \<open>Properties\<close>

text \<open>
  C34: The hash computed while generating code is the one the device computes: for an id without a
  zero character the two agree, and the value is one a \<open>uint32_t\<close> holds, so the salt the
  generated setter carries is not changed on the way.
\<close>

theorem fnv1a_matches_device:
  assumes "CHR 0x00 \<notin> set s"
  shows "fnv1a_32 s = uint (cpp_fnv1a_32 (map word_of_nat (py_encode s) :: 8 word list))"
proof -
  have zero: "c = CHR 0x00" if "code c = 0" for c
  proof -
    have "code c = code (CHR 0x00)" using that by simp
    then show ?thesis by (simp only: of_char_eq_iff)
  qed
  have nonzero: "n \<noteq> 0" if "n \<in> set (py_encode s)" for n
    using that assms zero by (auto simp: py_encode_def utf8_char_def split: if_splits)
  have "takeWhile (\<lambda>b. b \<noteq> 0) (map word_of_nat (py_encode s) :: 8 word list) = map word_of_nat (py_encode s)"
  proof (rule takeWhile_eq_all_conv [THEN iffD2], rule ballI)
    fix b :: "8 word"
    assume "b \<in> set (map word_of_nat (py_encode s))"
    then obtain n where n: "n \<in> set (py_encode s)" and b: "b = word_of_nat n" by auto
    have "unat b = n" using utf8_bytes [OF n] by (simp add: b unat_of_nat take_bit_nat_eq_self)
    with nonzero [OF n] show "b \<noteq> 0" by auto
  qed
  moreover have "fold fnv1a_step ns (uint h) =
      uint (fold (\<lambda>b :: 8 word. \<lambda>hash :: 32 word. (hash XOR ucast b) * 16777619) (map word_of_nat ns) h)"
    if "\<And>n. n \<in> set ns \<Longrightarrow> n < 256" for ns and h :: "32 word"
    using that by (induction ns arbitrary: h) (simp_all add: fnv1a_step_word)
  from this [of "py_encode s" 2166136261] have "fnv1a_32 s =
      uint (fold (\<lambda>b :: 8 word. \<lambda>hash :: 32 word. (hash XOR ucast b) * 16777619) (map word_of_nat (py_encode s)) 2166136261)"
    using utf8_bytes by (simp add: fnv1a_32_def)
  ultimately show ?thesis by (simp only: cpp_fnv1a_32_def)
qed

lemma fnv1a_matches_device_witness:
  "fnv1a_32 ''rf_bridge'' = uint (cpp_fnv1a_32 (map word_of_nat (py_encode ''rf_bridge'') :: 8 word list)) \<and>
   fnv1a_32 ''rf_bridge'' \<noteq> fnv1a_32 ''rf_cloner''"
proof
  show "fnv1a_32 ''rf_bridge'' = uint (cpp_fnv1a_32 (map word_of_nat (py_encode ''rf_bridge'') :: 8 word list))"
    by (rule fnv1a_matches_device) simp
  show "fnv1a_32 ''rf_bridge'' \<noteq> fnv1a_32 ''rf_cloner''" by code_simp
qed

section \<open>What the setters take\<close>

text \<open>
  The parameter types of the setters in \<open>rf_cloner.h\<close>, and the values each type holds. The
  argument of a call converts implicitly, so a value its type does not hold would be reduced
  modulo the width without an error.
\<close>

definition setter_types :: "(string, cpp_type) dict" where
  "setter_types =
    [(''set_max_commands'', Uint8), (''set_max_storage_bytes'', Uint32), (''set_min_pulses'', Uint16),
     (''set_max_pulses'', Uint16), (''set_min_pulse_us'', Uint32), (''set_max_pulse_us'', Uint32),
     (''set_tolerance_percent'', Uint8), (''set_min_repeats'', Uint8), (''set_frame_gap_min_us'', Uint32),
     (''set_settle_ms'', Uint32), (''set_learn_timeout_ms'', Uint32), (''set_default_repeat_times'', Uint16),
     (''set_default_gap_us'', Uint32), (''set_min_gap_us'', Uint32), (''set_max_gap_us'', Uint32),
     (''set_frequency_hz'', Uint32), (''set_key_salt'', Uint32)]"

fun type_limit :: "cpp_type \<Rightarrow> int" where
  "type_limit StdString = 0"
| "type_limit Uint8 = 2 ^ 8"
| "type_limit Uint16 = 2 ^ 16"
| "type_limit Uint32 = 2 ^ 32"

fun statement_fits :: "cg_stmt \<Rightarrow> bool" where
  "statement_fits (CallSetter setter v) =
     (case map_of setter_types setter of None \<Rightarrow> False | Some t \<Rightarrow> 0 \<le> v \<and> v < type_limit t)"
| "statement_fits _ = True"

text \<open>The integer the schema's validator of an option lets through, as a test on the option's value.\<close>

fun validated :: "validator \<Rightarrow> int \<Rightarrow> bool" where
  "validated (IntRange lo hi) v = (lo \<le> v \<and> v \<le> hi)"
| "validated PercentageInt v = (0 \<le> v \<and> v \<le> 100)"
| "validated (Templatable t) v = validated t v"
| "validated _ v = (0 \<le> v)"

definition option_values :: "rf_config \<Rightarrow> (string, int) dict" where
  "option_values c =
    [(CONF_MAX_COMMANDS, cf_max_commands c), (CONF_MAX_PULSES, cf_max_pulses c),
     (CONF_MAX_STORAGE_BYTES, cf_max_storage_bytes c), (CONF_MIN_PULSES, cf_min_pulses c),
     (CONF_MIN_PULSE_LENGTH, cf_min_pulse_length c), (CONF_MAX_PULSE_LENGTH, cf_max_pulse_length c),
     (''tolerance'', cf_tolerance c), (CONF_MIN_REPEATS, cf_min_repeats c),
     (CONF_FRAME_GAP_MIN, cf_frame_gap_min c), (CONF_SETTLE_TIME, cf_settle_time c),
     (CONF_LEARN_TIMEOUT, cf_learn_timeout c), (CONF_DEFAULT_REPEAT_TIMES, cf_default_repeat_times c),
     (CONF_DEFAULT_GAP, cf_default_gap c), (CONF_MIN_GAP, cf_min_gap c), (CONF_MAX_GAP, cf_max_gap c)]"

definition schema_accepts :: "rf_config \<Rightarrow> bool" where
  "schema_accepts c \<longleftrightarrow>
     list_all (\<lambda>so. case map_of (option_values c) (so_key so) of
         None \<Rightarrow> True | Some v \<Rightarrow> validated (so_validator so) v) CONFIG_SCHEMA"

lemma schema_accepts_iff:
  "schema_accepts c \<longleftrightarrow>
     1 \<le> cf_max_commands c \<and> cf_max_commands c \<le> 255 \<and> 4 \<le> cf_max_pulses c \<and> cf_max_pulses c \<le> 2048 \<and>
     64 \<le> cf_max_storage_bytes c \<and> cf_max_storage_bytes c \<le> 65535 \<and>
     2 \<le> cf_min_pulses c \<and> cf_min_pulses c \<le> 2048 \<and> 0 \<le> cf_min_pulse_length c \<and>
     0 \<le> cf_max_pulse_length c \<and> 0 \<le> cf_tolerance c \<and> cf_tolerance c \<le> 100 \<and>
     2 \<le> cf_min_repeats c \<and> cf_min_repeats c \<le> 32 \<and> 0 \<le> cf_frame_gap_min c \<and> 0 \<le> cf_settle_time c \<and>
     0 \<le> cf_learn_timeout c \<and> 1 \<le> cf_default_repeat_times c \<and> cf_default_repeat_times c \<le> 1000 \<and>
     0 \<le> cf_default_gap c \<and> 0 \<le> cf_min_gap c \<and> 0 \<le> cf_max_gap c"
  by (simp add: schema_accepts_def CONFIG_SCHEMA_def optional_def optional_absent_def option_values_def option_eqs)

lemma fnv1a_bounds: "0 \<le> fnv1a_32 s \<and> fnv1a_32 s < 2 ^ 32"
proof -
  have step: "0 \<le> fnv1a_step b h \<and> fnv1a_step b h < 2 ^ 32" for b h
  proof -
    have "fnv1a_step b h = take_bit 32 ((h XOR int b) * 0x01000193)"
      by (simp add: fnv1a_step_def take_bit_eq_mask mask_eq_exp_minus_1)
    then show ?thesis using take_bit_int_less_exp [of 32 "(h XOR int b) * 0x01000193"] by simp
  qed
  have "0 \<le> fold fnv1a_step bs h \<and> fold fnv1a_step bs h < 2 ^ 32" if "0 \<le> h \<and> h < 2 ^ 32" for bs h
    using that
  proof (induction bs arbitrary: h)
    case (Cons b bs)
    from Cons.IH [OF step [of b h]] show ?case by simp
  qed simp
  then show ?thesis by (simp add: fnv1a_32_def)
qed

lemma setters_fit_build: "list_all statement_fits (build_triggers ts)"
  by (induction ts) (simp_all add: build_triggers_def)

lemma validate_budget_InrD:
  assumes "validate_budget c = Inr (c', warned)"
  shows "c' = c" and "index_bytes c \<le> cf_max_storage_bytes c" and "cf_min_pulses c \<le> cf_max_pulses c"
    and "cf_min_pulse_length c < cf_max_pulse_length c" and "cf_min_gap c < cf_max_gap c"
    and "cf_frame_gap_min c \<le> cf_max_gap c" and "cf_min_gap c \<le> cf_default_gap c"
    and "cf_default_gap c \<le> cf_max_gap c" and "warned \<longleftrightarrow> worst_case c > cf_max_storage_bytes c"
  using assms by (auto simp: validate_budget_def split: if_splits)


definition demo_config :: rf_config where
  "demo_config = \<lparr>cf_id = ''cloner'', cf_max_commands = 16, cf_max_pulses = 128, cf_max_storage_bytes = 12288,
     cf_min_pulses = 8, cf_min_pulse_length = 100, cf_max_pulse_length = 100000, cf_tolerance = 25,
     cf_min_repeats = 3, cf_frame_gap_min = 3000, cf_settle_time = 800, cf_learn_timeout = 15000,
     cf_default_repeat_times = 20, cf_default_gap = 10000, cf_min_gap = 1000, cf_max_gap = 200000,
     cf_frequency = 433920000, cf_transmitter_id = ''rf_tx'', cf_on_learn_started = [],
     cf_on_learn_success = [''on_success''], cf_on_learn_failed = [], cf_on_send = []\<rparr>"


text \<open>
  The salt does not separate every two instances: two different ids can have one salt, so the
  storage keys of two instances on one device may coincide.
\<close>

theorem key_salts_can_collide:
  "\<exists>a b. a \<noteq> b \<and> fnv1a_32 a = fnv1a_32 b \<and>
     CallSetter ''set_key_salt'' (fnv1a_32 a) \<in> set (to_code (demo_config\<lparr>cf_id := a\<rparr>)) \<and>
     CallSetter ''set_key_salt'' (fnv1a_32 a) \<in> set (to_code (demo_config\<lparr>cf_id := b\<rparr>))"
proof (intro exI conjI)
  show "''costarring'' \<noteq> ''liquid''" by simp
  show same: "fnv1a_32 ''costarring'' = fnv1a_32 ''liquid''" by code_simp
  show "CallSetter ''set_key_salt'' (fnv1a_32 ''costarring'') \<in> set (to_code (demo_config\<lparr>cf_id := ''costarring''\<rparr>))"
    by (simp add: to_code_def)
  show "CallSetter ''set_key_salt'' (fnv1a_32 ''costarring'') \<in> set (to_code (demo_config\<lparr>cf_id := ''liquid''\<rparr>))"
    by (simp add: to_code_def same)
qed

end
