(* ===== verification/Bytes.thy ===== *)
theory Bytes
  imports Prelude "HOL-Library.Word"
begin

text \<open>
  How \<open>command_store.cpp\<close> lays its records out in memory: integers as little-endian bytes (the
  byte order of the ESP32 and of the hosts the tests run on), fixed-length name buffers, and the
  CRC of a record.
\<close>

unbundle bit_operations_syntax

type_synonym byte = "8 word"

section \<open>Integers\<close>

fun le_bytes :: "nat \<Rightarrow> nat \<Rightarrow> byte list" where
  "le_bytes 0 v = []"
| "le_bytes (Suc n) v = word_of_nat v # le_bytes n (v div 256)"

fun le_value :: "byte list \<Rightarrow> nat" where
  "le_value [] = 0"
| "le_value (b # bs) = unat b + 256 * le_value bs"

definition bytes16 :: "16 word \<Rightarrow> byte list" where "bytes16 w = le_bytes 2 (unat w)"
definition bytes32 :: "32 word \<Rightarrow> byte list" where "bytes32 w = le_bytes 4 (unat w)"
definition word16 :: "byte list \<Rightarrow> 16 word" where "word16 bs = word_of_nat (le_value bs)"
definition word32 :: "byte list \<Rightarrow> 32 word" where "word32 bs = word_of_nat (le_value bs)"

lemma length_le_bytes [simp]: "length (le_bytes n v) = n"
  by (induction n arbitrary: v) simp_all

lemma le_value_le_bytes: "le_value (le_bytes n v) = v mod 256 ^ n"
proof (induction n arbitrary: v)
  case (Suc n)
  have "v mod 256 ^ Suc n = v mod 256 + 256 * (v div 256 mod 256 ^ n)"
    by (simp add: mod_mult2_eq)
  with Suc show ?case by (simp add: unat_of_nat)
qed simp

lemma length_bytes16 [simp]: "length (bytes16 w) = 2"
  by (simp add: bytes16_def)

lemma length_bytes32 [simp]: "length (bytes32 w) = 4"
  by (simp add: bytes32_def)

lemma word16_bytes16 [simp]: "word16 (bytes16 w) = w"
proof -
  have "unat w < 2 ^ LENGTH(16)" by (rule unsigned_less)
  then show ?thesis by (simp add: word16_def bytes16_def le_value_le_bytes)
qed

lemma word32_bytes32 [simp]: "word32 (bytes32 w) = w"
proof -
  have "unat w < 2 ^ LENGTH(32)" by (rule unsigned_less)
  then show ?thesis by (simp add: word32_def bytes32_def le_value_le_bytes)
qed

section \<open>Arrays of 32-bit integers\<close>

definition bytes_of_timings :: "32 word list \<Rightarrow> byte list" where
  "bytes_of_timings ts = concat (map bytes32 ts)"

fun timings_of_bytes :: "byte list \<Rightarrow> 32 word list" where
  "timings_of_bytes (a # b # c # d # bs) = word32 [a, b, c, d] # timings_of_bytes bs"
| "timings_of_bytes _ = []"

lemma length_bytes_of_timings [simp]: "length (bytes_of_timings ts) = 4 * length ts"
  by (induction ts) (simp_all add: bytes_of_timings_def)

lemma timings_of_bytes_append4:
  "length xs = 4 \<Longrightarrow> timings_of_bytes (xs @ ys) = word32 xs # timings_of_bytes ys"
  by (auto simp: numeral_eq_Suc length_Suc_conv)

lemma timings_of_bytes_of_timings [simp]: "timings_of_bytes (bytes_of_timings ts) = ts"
  by (induction ts) (simp_all add: bytes_of_timings_def timings_of_bytes_append4)

section \<open>Names\<close>

text \<open>\<open>strncpy\<close> into a zeroed buffer of 24 bytes, and reading the buffer back as a C string.\<close>

definition name_buffer :: "nat \<Rightarrow> string \<Rightarrow> byte list" where
  "name_buffer n s =
     (let copied = take (n - 1) (takeWhile (\<lambda>c. c \<noteq> CHR 0x00) s)
      in map (\<lambda>c. word_of_nat (of_char c)) copied @ replicate (n - length copied) 0)"

definition c_string :: "byte list \<Rightarrow> string" where
  "c_string bs = map (\<lambda>b. char_of (unat b)) (takeWhile (\<lambda>b. b \<noteq> 0) bs)"

lemma length_name_buffer: "length (name_buffer n s) = n"
  by (simp add: name_buffer_def Let_def)

lemma byte_of_char: "unat (word_of_nat (of_char c) :: byte) = of_char c"
proof -
  have "(of_char c :: nat) < 256" by (rule nat_of_char_less_256)
  then show ?thesis by (simp add: unat_of_nat)
qed

lemma byte_of_char_0: "(word_of_nat (of_char c) :: byte) = 0 \<longleftrightarrow> c = CHR 0x00"
proof
  assume "(word_of_nat (of_char c) :: byte) = 0"
  with byte_of_char [of c] have "(of_char c :: nat) = of_char (CHR 0x00)" by simp
  then show "c = CHR 0x00" by (simp only: of_char_eq_iff)
qed simp

lemma c_string_name_buffer:
  assumes "length s < n" and "CHR 0x00 \<notin> set s"
  shows "c_string (name_buffer n s) = s"
proof -
  have whole: "takeWhile (\<lambda>c. c \<noteq> CHR 0x00) s = s" using assms(2) by (auto simp: takeWhile_eq_all_conv)
  have "takeWhile (\<lambda>b. b \<noteq> 0) (map (\<lambda>c. word_of_nat (of_char c) :: byte) s @ replicate k 0) =
      map (\<lambda>c. word_of_nat (of_char c)) s" for k
    using assms(2) by (induction s; cases k) (auto simp: byte_of_char_0)
  moreover have "take (n - 1) (takeWhile (\<lambda>c. c \<noteq> CHR 0x00) s) = s"
    unfolding whole using assms(1) by simp
  ultimately show ?thesis
    by (simp only: c_string_def name_buffer_def Let_def) (simp add: byte_of_char o_def)
qed

section \<open>The CRC\<close>

definition crc_bit :: "16 word \<Rightarrow> 16 word" where
  "crc_bit crc = (if crc AND 0x8000 \<noteq> 0 then push_bit 1 crc XOR 0x1021 else push_bit 1 crc)"

definition crc_byte :: "byte \<Rightarrow> 16 word \<Rightarrow> 16 word" where
  "crc_byte b crc = (crc_bit ^^ 8) (crc XOR push_bit 8 (ucast b))"

definition crc16_ccitt :: "byte list \<Rightarrow> 16 word" where
  "crc16_ccitt bs = fold crc_byte bs 0xFFFF"

definition timings_crc :: "32 word list \<Rightarrow> 16 word" where
  "timings_crc ts = (if ts = [] then 0 else crc16_ccitt (bytes_of_timings ts))"

end
