(* ===== verification/CommandStore.thy ===== *)
theory CommandStore
  imports Bytes EsphomeConfig
begin

text \<open>
  \<open>components/rf_cloner/command_store.cpp\<close> and \<open>command_store.h\<close>: the device's persistent
  registry of commands, with its records byte for byte. The storage it is given (class
  \<open>StorageBackend\<close>) is a record of functions over a state of its own; a null backend is the
  flag \<open>st_has_backend\<close>. Sizes and counters are words of the width the code declares, so its
  wrap-around is there; a search result of -1 is \<open>None\<close>. The random bytes of a new identity are an
  argument, \<open>None\<close> when the source of randomness fails.
\<close>

section \<open>Constants and results\<close>

definition STORE_MAGIC :: "16 word" where "STORE_MAGIC = 0x5246"
definition STORE_FORMAT_VERSION :: "8 word" where "STORE_FORMAT_VERSION = 1"
definition NAME_BUF_LEN :: nat where "NAME_BUF_LEN = 24"
definition NAME_MAX_CHARS :: nat where "NAME_MAX_CHARS = NAME_BUF_LEN - 1"
definition BRIDGE_ID_BYTES :: nat where "BRIDGE_ID_BYTES = 16"
definition COMMAND_ID_NONE :: "32 word" where "COMMAND_ID_NONE = 0"
definition COMMAND_ID_FIRST :: "32 word" where "COMMAND_ID_FIRST = 1"
definition COMMAND_ID_LAST :: "32 word" where "COMMAND_ID_LAST = 0xFFFFFFFE"
definition REVISION_INITIAL :: "32 word" where "REVISION_INITIAL = 1"
definition STORE_REVISION_TERMINAL :: "32 word" where "STORE_REVISION_TERMINAL = 0x7FFFFFFF"
definition STORE_REVISION_MAX :: "32 word" where "STORE_REVISION_MAX = STORE_REVISION_TERMINAL - 1"

lemmas store_consts = STORE_MAGIC_def STORE_FORMAT_VERSION_def NAME_BUF_LEN_def NAME_MAX_CHARS_def
  BRIDGE_ID_BYTES_def COMMAND_ID_NONE_def COMMAND_ID_FIRST_def COMMAND_ID_LAST_def REVISION_INITIAL_def
  STORE_REVISION_TERMINAL_def STORE_REVISION_MAX_def

datatype store_result =
    OK | NAME_EMPTY | NAME_TOO_LONG | NAME_INVALID | NAME_TAKEN | NOT_FOUND | STORE_FULL
  | TOO_MANY_PULSES | BUDGET_EXCEEDED | STORAGE_ERROR | READ_ONLY | ID_EXHAUSTED
  | REVISION_EXHAUSTED | ID_CONFLICT | RESTORE_NOT_EMPTY | RESTORE_NOT_ACTIVE | RESTORE_IN_PROGRESS

fun store_result_to_string :: "store_result \<Rightarrow> string" where
  "store_result_to_string OK = ''ok''"
| "store_result_to_string NAME_EMPTY = ''name_empty''"
| "store_result_to_string NAME_TOO_LONG = ''name_too_long''"
| "store_result_to_string NAME_INVALID = ''name_invalid''"
| "store_result_to_string NAME_TAKEN = ''name_taken''"
| "store_result_to_string NOT_FOUND = ''not_found''"
| "store_result_to_string STORE_FULL = ''store_full''"
| "store_result_to_string TOO_MANY_PULSES = ''too_many_pulses''"
| "store_result_to_string BUDGET_EXCEEDED = ''budget_exceeded''"
| "store_result_to_string STORAGE_ERROR = ''storage_error''"
| "store_result_to_string READ_ONLY = ''read_only''"
| "store_result_to_string REVISION_EXHAUSTED = ''revision_exhausted''"
| "store_result_to_string ID_EXHAUSTED = ''id_exhausted''"
| "store_result_to_string ID_CONFLICT = ''id_conflict''"
| "store_result_to_string RESTORE_NOT_EMPTY = ''restore_not_empty''"
| "store_result_to_string RESTORE_NOT_ACTIVE = ''restore_not_active''"
| "store_result_to_string RESTORE_IN_PROGRESS = ''restore_in_progress''"

datatype store_fault = FAULT_NONE | HEADER_INVALID | INDEX_INVALID | VERSION_UNSUPPORTED | PAYLOAD_INVALID

fun store_fault_to_string :: "store_fault \<Rightarrow> string" where
  "store_fault_to_string FAULT_NONE = ''none''"
| "store_fault_to_string HEADER_INVALID = ''header_invalid''"
| "store_fault_to_string INDEX_INVALID = ''index_invalid''"
| "store_fault_to_string VERSION_UNSUPPORTED = ''version_unsupported''"
| "store_fault_to_string PAYLOAD_INVALID = ''payload_invalid''"

section \<open>Records\<close>

record command =
  cmd_id :: "32 word"
  cmd_name :: string
  cmd_timings :: "32 word list"
  cmd_gap_us :: "32 word"
  cmd_repeat_times :: "16 word"
  cmd_frequency_hz :: "32 word"
  cmd_modulation :: "8 word"

definition empty_command :: command where
  "empty_command = \<lparr>cmd_id = COMMAND_ID_NONE, cmd_name = '''', cmd_timings = [], cmd_gap_us = 0,
     cmd_repeat_times = 1, cmd_frequency_hz = 0, cmd_modulation = 0\<rparr>"

record load_report =
  lr_had_stored_data :: bool
  lr_header_invalid :: bool
  lr_version_mismatch :: bool
  lr_slot_count_changed :: bool
  lr_restore_incomplete :: bool
  lr_read_only :: bool
  lr_fault :: store_fault
  lr_stored_format_version :: "8 word"
  lr_stored_slot_count :: "8 word"
  lr_loaded :: "8 word"
  lr_payload_faults :: "8 word"
  lr_fault_slot :: "8 word"
  lr_fault_name :: string
  lr_dropped_unfittable :: "8 word"

definition empty_report :: load_report where
  "empty_report = \<lparr>lr_had_stored_data = False, lr_header_invalid = False, lr_version_mismatch = False,
     lr_slot_count_changed = False, lr_restore_incomplete = False, lr_read_only = False,
     lr_fault = FAULT_NONE, lr_stored_format_version = 0, lr_stored_slot_count = 0, lr_loaded = 0,
     lr_payload_faults = 0, lr_fault_slot = 0, lr_fault_name = '''', lr_dropped_unfittable = 0\<rparr>"

record 'b storage =
  sb_save :: "32 word \<Rightarrow> byte list \<Rightarrow> 'b \<Rightarrow> bool \<times> 'b"
  sb_load :: "32 word \<Rightarrow> nat \<Rightarrow> 'b \<Rightarrow> byte list option \<times> 'b"
  sb_sync :: "'b \<Rightarrow> bool \<times> 'b"

record command_store =
  st_has_backend :: bool
  st_max_commands :: "8 word"
  st_max_pulses :: "16 word"
  st_max_storage_bytes :: "32 word"
  st_key_salt :: "32 word"
  st_bridge_id :: "byte list"
  st_next_command_id :: "32 word"
  st_revision :: "32 word"
  st_restore_state :: "8 word"
  st_read_only :: bool
  st_fault :: store_fault
  st_slots :: "command list"

text \<open>A store as the component's constructor leaves it, and \<open>configure\<close>.\<close>

definition new_store :: command_store where
  "new_store = \<lparr>st_has_backend = False, st_max_commands = 16, st_max_pulses = 128,
     st_max_storage_bytes = 12288, st_key_salt = 0, st_bridge_id = replicate BRIDGE_ID_BYTES 0,
     st_next_command_id = COMMAND_ID_FIRST, st_revision = 0, st_restore_state = 0,
     st_read_only = False, st_fault = FAULT_NONE, st_slots = []\<rparr>"

definition configure ::
  "bool \<Rightarrow> 8 word \<Rightarrow> 16 word \<Rightarrow> 32 word \<Rightarrow> 32 word \<Rightarrow> command_store \<Rightarrow> command_store" where
  "configure has_backend max_commands max_pulses max_storage_bytes key_salt st =
     st\<lparr>st_has_backend := has_backend, st_key_salt := key_salt, st_max_commands := max_commands,
       st_max_pulses := max_pulses, st_max_storage_bytes := max_storage_bytes,
       st_slots := replicate (unat max_commands) empty_command\<rparr>"

section \<open>Stored records\<close>

record stored_header =
  sh_magic :: "16 word"
  sh_format_version :: "8 word"
  sh_slot_count :: "8 word"
  sh_index_bytes :: "16 word"
  sh_reserved :: "16 word"
  sh_crc16 :: "16 word"

definition SIZEOF_HEADER :: nat where "SIZEOF_HEADER = 10"
definition SIZEOF_META :: nat where "SIZEOF_META = 28"
definition SIZEOF_SLOT :: nat where "SIZEOF_SLOT = 44"
definition STORE_CRC_BYTES :: nat where "STORE_CRC_BYTES = 2"

lemmas sizeof_defs = SIZEOF_HEADER_def SIZEOF_META_def SIZEOF_SLOT_def STORE_CRC_BYTES_def

definition encode_header :: "stored_header \<Rightarrow> byte list" where
  "encode_header h = bytes16 (sh_magic h) @ [sh_format_version h, sh_slot_count h] @
     bytes16 (sh_index_bytes h) @ bytes16 (sh_reserved h) @ bytes16 (sh_crc16 h)"

definition decode_header :: "byte list \<Rightarrow> stored_header" where
  "decode_header bs =
     \<lparr>sh_magic = word16 (take 2 bs), sh_format_version = bs ! 2, sh_slot_count = bs ! 3,
      sh_index_bytes = word16 (take 2 (drop 4 bs)), sh_reserved = word16 (take 2 (drop 6 bs)),
      sh_crc16 = word16 (take 2 (drop 8 bs))\<rparr>"

record stored_meta =
  sm_bridge :: "byte list"
  sm_next_command_id :: "32 word"
  sm_revision :: "32 word"
  sm_restore_state :: "8 word"

definition encode_meta :: "stored_meta \<Rightarrow> byte list" where
  "encode_meta m = sm_bridge m @ bytes32 (sm_next_command_id m) @ bytes32 (sm_revision m) @
     [sm_restore_state m] @ replicate 3 0"

definition decode_meta :: "byte list \<Rightarrow> stored_meta" where
  "decode_meta bs =
     \<lparr>sm_bridge = take 16 bs, sm_next_command_id = word32 (take 4 (drop 16 bs)),
      sm_revision = word32 (take 4 (drop 20 bs)), sm_restore_state = bs ! 24\<rparr>"

record stored_slot =
  ss_name :: "byte list"
  ss_command_id :: "32 word"
  ss_pulse_count :: "16 word"
  ss_repeat_times :: "16 word"
  ss_gap_us :: "32 word"
  ss_frequency_hz :: "32 word"
  ss_modulation :: "8 word"
  ss_flags :: "8 word"
  ss_payload_crc16 :: "16 word"

definition encode_slot :: "stored_slot \<Rightarrow> byte list" where
  "encode_slot s = ss_name s @ bytes32 (ss_command_id s) @ bytes16 (ss_pulse_count s) @
     bytes16 (ss_repeat_times s) @ bytes32 (ss_gap_us s) @ bytes32 (ss_frequency_hz s) @
     [ss_modulation s, ss_flags s] @ bytes16 (ss_payload_crc16 s)"

definition decode_slot :: "byte list \<Rightarrow> stored_slot" where
  "decode_slot bs =
     \<lparr>ss_name = take 24 bs, ss_command_id = word32 (take 4 (drop 24 bs)),
      ss_pulse_count = word16 (take 2 (drop 28 bs)), ss_repeat_times = word16 (take 2 (drop 30 bs)),
      ss_gap_us = word32 (take 4 (drop 32 bs)), ss_frequency_hz = word32 (take 4 (drop 36 bs)),
      ss_modulation = bs ! 40, ss_flags = bs ! 41, ss_payload_crc16 = word16 (take 2 (drop 42 bs))\<rparr>"

definition zero_slot :: stored_slot where
  "zero_slot = \<lparr>ss_name = replicate NAME_BUF_LEN 0, ss_command_id = 0, ss_pulse_count = 0,
     ss_repeat_times = 0, ss_gap_us = 0, ss_frequency_hz = 0, ss_modulation = 0, ss_flags = 0,
     ss_payload_crc16 = 0\<rparr>"

definition index_bytes_for :: "8 word \<Rightarrow> nat" where
  "index_bytes_for slot_count = SIZEOF_META + unat slot_count * SIZEOF_SLOT + STORE_CRC_BYTES"

section \<open>Keys\<close>

definition bytes_of_string :: "string \<Rightarrow> byte list" where
  "bytes_of_string s = map (\<lambda>c. word_of_nat (of_char c)) s"

definition KEY_HEADER :: "32 word" where "KEY_HEADER = cpp_fnv1a_32 (bytes_of_string ''rf_cloner/hdr/v1'')"
definition KEY_INDEX :: "32 word" where "KEY_INDEX = cpp_fnv1a_32 (bytes_of_string ''rf_cloner/idx/v1'')"
definition KEY_PAYLOAD_BASE :: "32 word" where
  "KEY_PAYLOAD_BASE = cpp_fnv1a_32 (bytes_of_string ''rf_cloner/pl/v1'')"

definition payload_key :: "8 word \<Rightarrow> 32 word" where
  "payload_key slot = KEY_PAYLOAD_BASE XOR (0x9E3779B9 * (ucast slot + 1))"

definition st_header_key :: "command_store \<Rightarrow> 32 word" where
  "st_header_key st = KEY_HEADER XOR st_key_salt st"

definition st_index_key :: "command_store \<Rightarrow> 32 word" where
  "st_index_key st = KEY_INDEX XOR st_key_salt st"

definition st_payload_key :: "command_store \<Rightarrow> nat \<Rightarrow> 32 word" where
  "st_payload_key st slot = payload_key (word_of_nat slot) XOR st_key_salt st"

section \<open>Searching and sizes\<close>

definition occupied :: "command \<Rightarrow> bool" where
  "occupied c \<longleftrightarrow> cmd_id c \<noteq> COMMAND_ID_NONE"

fun find_index :: "('a \<Rightarrow> bool) \<Rightarrow> 'a list \<Rightarrow> nat option" where
  "find_index P [] = None"
| "find_index P (x # xs) = (if P x then Some 0 else map_option Suc (find_index P xs))"

definition find_slot :: "string \<Rightarrow> command_store \<Rightarrow> nat option" where
  "find_slot nm st = find_index (\<lambda>c. occupied c \<and> cmd_name c = nm) (st_slots st)"

definition find_slot_by_id :: "32 word \<Rightarrow> command_store \<Rightarrow> nat option" where
  "find_slot_by_id command_id st =
     (if command_id = COMMAND_ID_NONE then None
      else find_index (\<lambda>c. cmd_id c = command_id) (st_slots st))"

definition find_free_slot :: "command_store \<Rightarrow> nat option" where
  "find_free_slot st = find_index (\<lambda>c. cmd_id c = COMMAND_ID_NONE) (st_slots st)"

definition index_overhead_bytes :: "8 word \<Rightarrow> 32 word" where
  "index_overhead_bytes slot_count = word_of_nat (SIZEOF_HEADER + index_bytes_for slot_count)"

definition payload_size :: "command \<Rightarrow> 32 word" where
  "payload_size c = word_of_nat (length (cmd_timings c) * 4)"

definition used_bytes :: "command_store \<Rightarrow> 32 word" where
  "used_bytes st = fold (\<lambda>c total. if occupied c then total + payload_size c else total)
     (st_slots st) (index_overhead_bytes (st_max_commands st))"

definition worst_case_bytes :: "command_store \<Rightarrow> 32 word" where
  "worst_case_bytes st =
     index_overhead_bytes (st_max_commands st) + ucast (st_max_commands st) * ucast (st_max_pulses st) * 4"

definition projected_bytes :: "nat option \<Rightarrow> 16 word \<Rightarrow> command_store \<Rightarrow> 32 word" where
  "projected_bytes replacing_slot new_pulse_count st =
     fold (\<lambda>(i, c) total. if replacing_slot = Some i then total
          else if occupied c then total + payload_size c else total)
       (enumerate 0 (st_slots st)) (index_overhead_bytes (st_max_commands st)) +
     ucast new_pulse_count * 4"

definition count :: "command_store \<Rightarrow> nat" where
  "count st = length (filter occupied (st_slots st))"

definition names :: "command_store \<Rightarrow> string list" where
  "names st = map cmd_name (filter occupied (st_slots st))"

definition entries :: "command_store \<Rightarrow> (32 word \<times> string \<times> 16 word) list" where
  "entries st = map (\<lambda>c. (cmd_id c, cmd_name c, word_of_nat (length (cmd_timings c))))
     (filter occupied (st_slots st))"

definition get :: "string \<Rightarrow> command_store \<Rightarrow> command option" where
  "get nm st = map_option (\<lambda>i. st_slots st ! i) (find_slot nm st)"

definition get_by_id :: "32 word \<Rightarrow> command_store \<Rightarrow> command option" where
  "get_by_id command_id st = map_option (\<lambda>i. st_slots st ! i) (find_slot_by_id command_id st)"

definition has :: "string \<Rightarrow> command_store \<Rightarrow> bool" where
  "has nm st \<longleftrightarrow> find_slot nm st \<noteq> None"

definition has_id :: "32 word \<Rightarrow> command_store \<Rightarrow> bool" where
  "has_id command_id st \<longleftrightarrow> find_slot_by_id command_id st \<noteq> None"

definition hex_digit :: "nat \<Rightarrow> char" where
  "hex_digit n = ''0123456789abcdef'' ! n"

definition bridge_id_hex :: "command_store \<Rightarrow> string" where
  "bridge_id_hex st =
     concat (map (\<lambda>b. [hex_digit (unat (drop_bit 4 b)), hex_digit (unat (b AND 0x0F))]) (st_bridge_id st))"

definition restore_incomplete :: "command_store \<Rightarrow> bool" where
  "restore_incomplete st \<longleftrightarrow> st_restore_state st \<noteq> 0"

section \<open>Checks\<close>

definition store_name_char :: "char \<Rightarrow> bool" where
  "store_name_char c \<longleftrightarrow> (97 \<le> code c \<and> code c \<le> 122) \<or> (65 \<le> code c \<and> code c \<le> 90) \<or>
     (48 \<le> code c \<and> code c \<le> 57) \<or> c = CHR ''_'' \<or> c = CHR ''-'' \<or> c = CHR ''.''"

definition validate_name :: "string \<Rightarrow> store_result" where
  "validate_name nm =
     (if nm = '''' then NAME_EMPTY
      else if length nm > NAME_MAX_CHARS then NAME_TOO_LONG
      else if \<not> list_all store_name_char nm then NAME_INVALID
      else OK)"

definition next_revision :: "32 word \<Rightarrow> 32 word option" where
  "next_revision base = (if base \<ge> STORE_REVISION_MAX then None else Some (base + 1))"

definition writable :: "command_store \<Rightarrow> store_result" where
  "writable st =
     (if \<not> st_has_backend st then STORAGE_ERROR
      else if st_read_only st then READ_ONLY
      else if st_restore_state st \<noteq> 0 then RESTORE_IN_PROGRESS
      else OK)"

section \<open>Writing\<close>

definition write_payload :: "'b storage \<Rightarrow> command_store \<Rightarrow> nat \<Rightarrow> 'b \<Rightarrow> bool \<times> 'b" where
  "write_payload B st slot = sb_save B (st_payload_key st slot) (bytes_of_timings (cmd_timings (st_slots st ! slot)))"

definition slot_record :: "command \<Rightarrow> stored_slot" where
  "slot_record c =
     (if occupied c then
        \<lparr>ss_name = name_buffer NAME_BUF_LEN (cmd_name c), ss_command_id = cmd_id c,
         ss_pulse_count = word_of_nat (length (cmd_timings c)), ss_repeat_times = cmd_repeat_times c,
         ss_gap_us = cmd_gap_us c, ss_frequency_hz = cmd_frequency_hz c,
         ss_modulation = cmd_modulation c, ss_flags = 0, ss_payload_crc16 = timings_crc (cmd_timings c)\<rparr>
      else zero_slot)"

definition meta_record :: "command_store \<Rightarrow> stored_meta" where
  "meta_record st = \<lparr>sm_bridge = st_bridge_id st, sm_next_command_id = st_next_command_id st,
     sm_revision = st_revision st, sm_restore_state = st_restore_state st\<rparr>"

definition index_body :: "command_store \<Rightarrow> byte list" where
  "index_body st = encode_meta (meta_record st) @
     concat (map (\<lambda>i. encode_slot (slot_record (st_slots st ! i))) [0..<unat (st_max_commands st)])"

definition index_record :: "command_store \<Rightarrow> byte list" where
  "index_record st = index_body st @ bytes16 (crc16_ccitt (index_body st))"

definition header_crc :: "stored_header \<Rightarrow> 16 word" where
  "header_crc h = crc16_ccitt (take (SIZEOF_HEADER - STORE_CRC_BYTES) (encode_header h))"

definition header_record :: "command_store \<Rightarrow> stored_header" where
  "header_record st =
     (let h = \<lparr>sh_magic = STORE_MAGIC, sh_format_version = STORE_FORMAT_VERSION,
        sh_slot_count = st_max_commands st,
        sh_index_bytes = word_of_nat (index_bytes_for (st_max_commands st)), sh_reserved = 0, sh_crc16 = 0\<rparr>
      in h\<lparr>sh_crc16 := header_crc h\<rparr>)"

definition write_index :: "'b storage \<Rightarrow> command_store \<Rightarrow> 'b \<Rightarrow> bool \<times> 'b" where
  "write_index B st b =
     (let (saved, b1) = sb_save B (st_index_key st) (index_record st) b in
      if \<not> saved then (False, b1)
      else sb_save B (st_header_key st) (encode_header (header_record st)) b1)"

text \<open>
  The end every mutation shares: write the index of the changed registry; roll the registry back
  when that fails, otherwise commit the pending writes.
\<close>

definition persist_index ::
  "'b storage \<Rightarrow> (command_store \<Rightarrow> command_store) \<Rightarrow> command_store \<Rightarrow> 'b
     \<Rightarrow> store_result \<times> command_store \<times> 'b" where
  "persist_index B undo st b =
     (let (indexed, b1) = write_index B st b in
      if \<not> indexed then (STORAGE_ERROR, undo st, b1) else (OK, st, snd (sb_sync B b1)))"

definition persist_slot ::
  "'b storage \<Rightarrow> nat \<Rightarrow> (command_store \<Rightarrow> command_store) \<Rightarrow> command_store \<Rightarrow> 'b
     \<Rightarrow> store_result \<times> command_store \<times> 'b" where
  "persist_slot B slot undo st b =
     (let (saved, b1) = write_payload B st slot b in
      if \<not> saved then (STORAGE_ERROR, undo st, b1) else persist_index B undo st b1)"

section \<open>Mutations\<close>

text \<open>Where \<open>put\<close> puts a command, whether it overwrites there, and under which id.\<close>

definition put_slot :: "command \<Rightarrow> command_store \<Rightarrow> store_result + (nat \<times> bool \<times> 32 word)" where
  "put_slot c st =
     (case find_slot (cmd_name c) st of
        Some slot \<Rightarrow> Inr (slot, True, cmd_id (st_slots st ! slot))
      | None \<Rightarrow>
          case find_free_slot st of
            None \<Rightarrow> Inl STORE_FULL
          | Some slot \<Rightarrow>
              if st_next_command_id st > COMMAND_ID_LAST then Inl ID_EXHAUSTED
              else Inr (slot, False, st_next_command_id st))"

definition put ::
  "'b storage \<Rightarrow> command \<Rightarrow> command_store \<Rightarrow> 'b \<Rightarrow> store_result \<times> command_store \<times> 'b" where
  "put B c st b =
     (if writable st \<noteq> OK then (writable st, st, b)
      else if validate_name (cmd_name c) \<noteq> OK then (validate_name (cmd_name c), st, b)
      else if cmd_timings c = [] then (TOO_MANY_PULSES, st, b)
      else if length (cmd_timings c) > unat (st_max_pulses st) then (TOO_MANY_PULSES, st, b)
      else case put_slot c st of
        Inl r \<Rightarrow> (r, st, b)
      | Inr (slot, overwriting, command_id) \<Rightarrow>
          if projected_bytes (if overwriting then Some slot else None)
               (word_of_nat (length (cmd_timings c))) st > st_max_storage_bytes st
          then (BUDGET_EXCEEDED, st, b)
          else case next_revision (st_revision st) of
            None \<Rightarrow> (REVISION_EXHAUSTED, st, b)
          | Some committed_revision \<Rightarrow>
              let previous = st_slots st ! slot;
                  previous_next_id = st_next_command_id st;
                  previous_revision = st_revision st
              in persist_slot B slot
                   (\<lambda>s. s\<lparr>st_slots := (st_slots s)[slot := previous],
                     st_next_command_id := previous_next_id, st_revision := previous_revision\<rparr>)
                   (st\<lparr>st_slots := (st_slots st)[slot := c\<lparr>cmd_id := command_id\<rparr>],
                     st_next_command_id := (if overwriting then st_next_command_id st else command_id + 1),
                     st_revision := committed_revision\<rparr>) b)"

definition rename ::
  "'b storage \<Rightarrow> 32 word \<Rightarrow> string \<Rightarrow> command_store \<Rightarrow> 'b \<Rightarrow> store_result \<times> command_store \<times> 'b" where
  "rename B command_id new_name st b =
     (if writable st \<noteq> OK then (writable st, st, b)
      else if validate_name new_name \<noteq> OK then (validate_name new_name, st, b)
      else case find_slot_by_id command_id st of
        None \<Rightarrow> (NOT_FOUND, st, b)
      | Some slot \<Rightarrow>
          if cmd_name (st_slots st ! slot) = new_name then (OK, st, b)
          else if find_slot new_name st \<noteq> None then (NAME_TAKEN, st, b)
          else case next_revision (st_revision st) of
            None \<Rightarrow> (REVISION_EXHAUSTED, st, b)
          | Some committed_revision \<Rightarrow>
              let previous = cmd_name (st_slots st ! slot);
                  previous_revision = st_revision st
              in persist_index B
                   (\<lambda>s. s\<lparr>st_slots := (st_slots s)[slot := (st_slots s ! slot)\<lparr>cmd_name := previous\<rparr>],
                     st_revision := previous_revision\<rparr>)
                   (st\<lparr>st_slots := (st_slots st)[slot := (st_slots st ! slot)\<lparr>cmd_name := new_name\<rparr>],
                     st_revision := committed_revision\<rparr>) b)"

definition remove_by_id ::
  "'b storage \<Rightarrow> 32 word \<Rightarrow> command_store \<Rightarrow> 'b \<Rightarrow> store_result \<times> command_store \<times> 'b" where
  "remove_by_id B command_id st b =
     (if writable st \<noteq> OK then (writable st, st, b)
      else case find_slot_by_id command_id st of
        None \<Rightarrow> (NOT_FOUND, st, b)
      | Some slot \<Rightarrow>
          case next_revision (st_revision st) of
            None \<Rightarrow> (REVISION_EXHAUSTED, st, b)
          | Some committed_revision \<Rightarrow>
              let previous = st_slots st ! slot;
                  previous_revision = st_revision st
              in persist_index B
                   (\<lambda>s. s\<lparr>st_slots := (st_slots s)[slot := previous], st_revision := previous_revision\<rparr>)
                   (st\<lparr>st_slots := (st_slots st)[slot := empty_command],
                     st_revision := committed_revision\<rparr>) b)"

definition remove ::
  "'b storage \<Rightarrow> string \<Rightarrow> command_store \<Rightarrow> 'b \<Rightarrow> store_result \<times> command_store \<times> 'b" where
  "remove B nm st b =
     (if writable st \<noteq> OK then (writable st, st, b)
      else case find_slot nm st of
        None \<Rightarrow> (NOT_FOUND, st, b)
      | Some slot \<Rightarrow> remove_by_id B (cmd_id (st_slots st ! slot)) st b)"

definition clear_all :: "'b storage \<Rightarrow> command_store \<Rightarrow> 'b \<Rightarrow> store_result \<times> command_store \<times> 'b" where
  "clear_all B st b =
     (if \<not> st_has_backend st then (STORAGE_ERROR, st, b)
      else if st_read_only st then (READ_ONLY, st, b)
      else if count st = 0 \<and> st_restore_state st = 0 then (OK, st, b)
      else case next_revision (st_revision st) of
        None \<Rightarrow> (REVISION_EXHAUSTED, st, b)
      | Some committed_revision \<Rightarrow>
          let previous = st_slots st;
              previous_revision = st_revision st;
              previous_restore_state = st_restore_state st
          in persist_index B
               (\<lambda>s. s\<lparr>st_slots := previous, st_restore_state := previous_restore_state,
                 st_revision := previous_revision\<rparr>)
               (st\<lparr>st_slots := replicate (unat (st_max_commands st)) empty_command,
                 st_restore_state := 0, st_revision := committed_revision\<rparr>) b)"

definition mint_identity :: "byte list option \<Rightarrow> command_store \<Rightarrow> command_store" where
  "mint_identity random st =
     st\<lparr>st_bridge_id := (case random of None \<Rightarrow> replicate BRIDGE_ID_BYTES 0 | Some bytes \<Rightarrow> bytes),
       st_next_command_id := COMMAND_ID_FIRST, st_revision := REVISION_INITIAL, st_restore_state := 0\<rparr>"

definition factory_reset ::
  "'b storage \<Rightarrow> byte list option \<Rightarrow> command_store \<Rightarrow> 'b \<Rightarrow> store_result \<times> command_store \<times> 'b" where
  "factory_reset B random st b =
     (if \<not> st_has_backend st then (STORAGE_ERROR, st, b)
      else
        let st1 = mint_identity random
              (st\<lparr>st_slots := replicate (unat (st_max_commands st)) empty_command\<rparr>);
            (indexed, b1) = write_index B st1 b
        in if \<not> indexed then (STORAGE_ERROR, st1, b1)
           else (OK, st1\<lparr>st_read_only := False, st_fault := FAULT_NONE\<rparr>, snd (sb_sync B b1)))"

section \<open>Restore\<close>

definition restore_begin ::
  "'b storage \<Rightarrow> byte list \<Rightarrow> 32 word \<Rightarrow> command_store \<Rightarrow> 'b \<Rightarrow> store_result \<times> command_store \<times> 'b" where
  "restore_begin B bridge_id next_command_id st b =
     (if \<not> st_has_backend st then (STORAGE_ERROR, st, b)
      else if st_read_only st then (READ_ONLY, st, b)
      else if count st \<noteq> 0 then (RESTORE_NOT_EMPTY, st, b)
      else if next_command_id < COMMAND_ID_FIRST \<or> next_command_id > COMMAND_ID_LAST + 1
      then (ID_CONFLICT, st, b)
      else case next_revision (st_revision st) of
        None \<Rightarrow> (REVISION_EXHAUSTED, st, b)
      | Some committed_revision \<Rightarrow>
          let previous_bridge = st_bridge_id st;
              previous_next_id = st_next_command_id st;
              previous_revision = st_revision st;
              previous_restore_state = st_restore_state st
          in persist_index B
               (\<lambda>s. s\<lparr>st_bridge_id := previous_bridge, st_next_command_id := previous_next_id,
                 st_restore_state := previous_restore_state, st_revision := previous_revision\<rparr>)
               (st\<lparr>st_bridge_id := bridge_id, st_next_command_id := next_command_id,
                 st_restore_state := 1, st_revision := committed_revision\<rparr>) b)"

definition import_command ::
  "'b storage \<Rightarrow> command \<Rightarrow> command_store \<Rightarrow> 'b \<Rightarrow> store_result \<times> command_store \<times> 'b" where
  "import_command B c st b =
     (if \<not> st_has_backend st then (STORAGE_ERROR, st, b)
      else if st_read_only st then (READ_ONLY, st, b)
      else if st_restore_state st = 0 then (RESTORE_NOT_ACTIVE, st, b)
      else if validate_name (cmd_name c) \<noteq> OK then (validate_name (cmd_name c), st, b)
      else if cmd_id c = COMMAND_ID_NONE \<or> cmd_id c \<ge> st_next_command_id st \<or> has_id (cmd_id c) st
      then (ID_CONFLICT, st, b)
      else if has (cmd_name c) st then (NAME_TAKEN, st, b)
      else if cmd_timings c = [] \<or> length (cmd_timings c) > unat (st_max_pulses st)
      then (TOO_MANY_PULSES, st, b)
      else case find_free_slot st of
        None \<Rightarrow> (STORE_FULL, st, b)
      | Some slot \<Rightarrow>
          if projected_bytes None (word_of_nat (length (cmd_timings c))) st > st_max_storage_bytes st
          then (BUDGET_EXCEEDED, st, b)
          else case next_revision (st_revision st) of
            None \<Rightarrow> (REVISION_EXHAUSTED, st, b)
          | Some committed_revision \<Rightarrow>
              let previous_revision = st_revision st
              in persist_slot B slot
                   (\<lambda>s. s\<lparr>st_slots := (st_slots s)[slot := empty_command], st_revision := previous_revision\<rparr>)
                   (st\<lparr>st_slots := (st_slots st)[slot := c], st_revision := committed_revision\<rparr>) b)"

definition restore_commit ::
  "'b storage \<Rightarrow> 32 word \<Rightarrow> command_store \<Rightarrow> 'b \<Rightarrow> store_result \<times> command_store \<times> 'b" where
  "restore_commit B source_revision st b =
     (if \<not> st_has_backend st then (STORAGE_ERROR, st, b)
      else if st_read_only st then (READ_ONLY, st, b)
      else if st_restore_state st = 0 then (RESTORE_NOT_ACTIVE, st, b)
      else case next_revision (if source_revision > st_revision st then source_revision else st_revision st) of
        None \<Rightarrow> (REVISION_EXHAUSTED, st, b)
      | Some committed_revision \<Rightarrow>
          let previous_revision = st_revision st
          in persist_index B
               (\<lambda>s. s\<lparr>st_restore_state := 1, st_revision := previous_revision\<rparr>)
               (st\<lparr>st_restore_state := 0, st_revision := committed_revision\<rparr>) b)"

section \<open>Loading\<close>

definition enter_read_only :: "store_fault \<Rightarrow> load_report \<times> command_store \<Rightarrow> load_report \<times> command_store" where
  "enter_read_only fault rs =
     (let (report, st) = rs
      in (report\<lparr>lr_read_only := True, lr_fault := fault\<rparr>, st\<lparr>st_read_only := True, st_fault := fault\<rparr>))"

text \<open>One round of the loop over the stored slots.\<close>

definition load_slot ::
  "'b storage \<Rightarrow> byte list \<Rightarrow> nat \<Rightarrow> load_report \<times> command_store \<times> 'b \<Rightarrow> load_report \<times> command_store \<times> 'b" where
  "load_slot B raw i rsb =
     (let (report, st, b) = rsb;
          slot0 = decode_slot (take SIZEOF_SLOT (drop (SIZEOF_META + i * SIZEOF_SLOT) raw));
          slot = slot0\<lparr>ss_name := (ss_name slot0)[NAME_BUF_LEN - 1 := 0]\<rparr>
      in if ss_command_id slot = COMMAND_ID_NONE \<or> ss_name slot ! 0 = 0 \<or> ss_pulse_count slot = 0
         then (report, st, b)
         else if i \<ge> unat (st_max_commands st) \<or> ss_pulse_count slot > st_max_pulses st
         then (report\<lparr>lr_dropped_unfittable := lr_dropped_unfittable report + 1\<rparr>, st, b)
         else
           let (loaded, b1) = sb_load B (st_payload_key st i) (unat (ss_pulse_count slot) * 4) b;
               timings = (case loaded of None \<Rightarrow> [] | Some bytes \<Rightarrow> timings_of_bytes bytes)
           in if loaded = None \<or> timings_crc timings \<noteq> ss_payload_crc16 slot
              then (let report1 = (if lr_payload_faults report = 0
                      then report\<lparr>lr_fault_slot := word_of_nat i, lr_fault_name := c_string (ss_name slot)\<rparr>
                      else report)
                    in (report1\<lparr>lr_payload_faults := lr_payload_faults report1 + 1\<rparr>, st, b1))
              else
                (report\<lparr>lr_loaded := lr_loaded report + 1\<rparr>,
                 st\<lparr>st_slots := (st_slots st)[i :=
                   \<lparr>cmd_id = ss_command_id slot, cmd_name = c_string (ss_name slot), cmd_timings = timings,
                    cmd_gap_us = ss_gap_us slot, cmd_repeat_times = ss_repeat_times slot,
                    cmd_frequency_hz = ss_frequency_hz slot, cmd_modulation = ss_modulation slot\<rparr>]\<rparr>, b1))"

definition load_index ::
  "'b storage \<Rightarrow> 8 word \<Rightarrow> 16 word \<Rightarrow> load_report \<times> command_store \<times> 'b \<Rightarrow> load_report \<times> command_store \<times> 'b" where
  "load_index B stored_slot_count stored_index_bytes rsb =
     (let (report, st, b) = rsb;
          expected = index_bytes_for stored_slot_count
      in if unat stored_index_bytes \<noteq> expected
         then (let (report1, st1) = enter_read_only HEADER_INVALID (report\<lparr>lr_header_invalid := True\<rparr>, st)
               in (report1, st1, b))
         else
           let (loaded, b1) = sb_load B (st_index_key st) expected b
           in case loaded of
             None \<Rightarrow> (let (report1, st1) = enter_read_only INDEX_INVALID (report, st) in (report1, st1, b1))
           | Some raw \<Rightarrow>
               if crc16_ccitt (take (expected - STORE_CRC_BYTES) raw) \<noteq>
                  word16 (drop (expected - STORE_CRC_BYTES) raw)
               then (let (report1, st1) = enter_read_only INDEX_INVALID (report, st) in (report1, st1, b1))
               else
                 let meta = decode_meta (take SIZEOF_META raw);
                     st2 = st\<lparr>st_bridge_id := sm_bridge meta, st_next_command_id := sm_next_command_id meta,
                       st_revision := sm_revision meta, st_restore_state := sm_restore_state meta\<rparr>;
                     report2 = report\<lparr>lr_restore_incomplete := sm_restore_state meta \<noteq> 0,
                       lr_slot_count_changed := stored_slot_count \<noteq> st_max_commands st\<rparr>;
                     (report3, st3, b3) = fold (load_slot B raw) [0..<unat stored_slot_count] (report2, st2, b1)
                 in if lr_payload_faults report3 > 0
                    then (let (report4, st4) = enter_read_only PAYLOAD_INVALID (report3, st3) in (report4, st4, b3))
                    else (report3, st3, b3))"

definition store_begin ::
  "'b storage \<Rightarrow> byte list option \<Rightarrow> command_store \<Rightarrow> 'b \<Rightarrow> load_report \<times> command_store \<times> 'b" where
  "store_begin B random st0 b =
     (let report = empty_report;
          st = st0\<lparr>st_read_only := False, st_fault := FAULT_NONE\<rparr>
      in if \<not> st_has_backend st
         then (let (report1, st1) = enter_read_only HEADER_INVALID (report\<lparr>lr_header_invalid := True\<rparr>, st)
               in (report1, st1, b))
         else
           let (loaded, b1) = sb_load B (st_header_key st) SIZEOF_HEADER b
           in case loaded of
             None \<Rightarrow>
               (let st1 = mint_identity random st;
                    (_, b2) = write_index B st1 b1
                in (report, st1, snd (sb_sync B b2)))
           | Some bytes \<Rightarrow>
               let header = decode_header bytes;
                   report1 = report\<lparr>lr_had_stored_data := True,
                     lr_stored_format_version := sh_format_version header,
                     lr_stored_slot_count := sh_slot_count header\<rparr>
               in if sh_magic header \<noteq> STORE_MAGIC \<or>
                     sh_crc16 header \<noteq> crc16_ccitt (take (SIZEOF_HEADER - STORE_CRC_BYTES) bytes) \<or>
                     sh_slot_count header = 0
                  then (let (report2, st2) = enter_read_only HEADER_INVALID (report1\<lparr>lr_header_invalid := True\<rparr>, st)
                        in (report2, st2, b1))
                  else if sh_format_version header \<noteq> STORE_FORMAT_VERSION
                  then (let (report2, st2) = enter_read_only VERSION_UNSUPPORTED (report1\<lparr>lr_version_mismatch := True\<rparr>, st)
                        in (report2, st2, b1))
                  else load_index B (sh_slot_count header) (sh_index_bytes header) (report1, st, b1))"

end
