(* ===== verification/StoreOps.thy ===== *)
theory StoreOps
  imports CommandStore
begin

text \<open>
  What the registry's operations do to it, whatever the storage does: the well-formedness every
  operation keeps, the roll-back of a failed write, the revision as a change token, and the
  allocation of ids. An operation is a \<open>store_op\<close>; \<open>exec\<close> is the call.
\<close>

section \<open>Operations as data\<close>

datatype store_op =
    Put command
  | Rename "32 word" string
  | Remove string
  | RemoveById "32 word"
  | ClearAll
  | RestoreBegin "byte list" "32 word"
  | ImportCommand command
  | RestoreCommit "32 word"
  | FactoryReset "byte list option"

fun exec :: "'b storage \<Rightarrow> store_op \<Rightarrow> command_store \<Rightarrow> 'b \<Rightarrow> store_result \<times> command_store \<times> 'b" where
  "exec B (Put c) = put B c"
| "exec B (Rename command_id nm) = rename B command_id nm"
| "exec B (Remove nm) = remove B nm"
| "exec B (RemoveById command_id) = remove_by_id B command_id"
| "exec B ClearAll = clear_all B"
| "exec B (RestoreBegin bridge_id next_id) = restore_begin B bridge_id next_id"
| "exec B (ImportCommand c) = import_command B c"
| "exec B (RestoreCommit source_revision) = restore_commit B source_revision"
| "exec B (FactoryReset random) = factory_reset B random"

fun run_ops :: "'b storage \<Rightarrow> store_op list \<Rightarrow> command_store \<Rightarrow> 'b \<Rightarrow> command_store \<times> 'b" where
  "run_ops B [] st b = (st, b)"
| "run_ops B (op # ops) st b = (let (r, st', b') = exec B op st b in run_ops B ops st' b')"

text \<open>The argument of an operation that carries an identity is 16 bytes, as its C++ type says.\<close>

fun op_typed :: "store_op \<Rightarrow> bool" where
  "op_typed (RestoreBegin bridge_id _) \<longleftrightarrow> length bridge_id = BRIDGE_ID_BYTES"
| "op_typed (FactoryReset (Some bytes)) \<longleftrightarrow> length bytes = BRIDGE_ID_BYTES"
| "op_typed _ \<longleftrightarrow> True"

fun resets :: "store_op \<Rightarrow> bool" where
  "resets (FactoryReset _) = True"
| "resets _ = False"

section \<open>Well-formed registries\<close>

definition command_ok :: "command_store \<Rightarrow> command \<Rightarrow> bool" where
  "command_ok st c \<longleftrightarrow>
     validate_name (cmd_name c) = OK \<and> cmd_timings c \<noteq> [] \<and>
     length (cmd_timings c) \<le> unat (st_max_pulses st) \<and> cmd_id c < st_next_command_id st"

definition store_ok :: "command_store \<Rightarrow> bool" where
  "store_ok st \<longleftrightarrow>
     length (st_slots st) = unat (st_max_commands st) \<and> length (st_bridge_id st) = BRIDGE_ID_BYTES \<and>
     st_next_command_id st \<noteq> COMMAND_ID_NONE \<and> st_revision st \<le> STORE_REVISION_MAX \<and>
     (st_restore_state st = 0 \<or> st_restore_state st = 1) \<and>
     (\<forall>c \<in> set (st_slots st). if occupied c then command_ok st c else c = empty_command) \<and>
     distinct (map cmd_id (filter occupied (st_slots st))) \<and>
     distinct (map cmd_name (filter occupied (st_slots st)))"

section \<open>Lemmas: searching\<close>

lemma find_index_SomeD:
  "find_index P xs = Some i \<Longrightarrow> i < length xs \<and> P (xs ! i)"
  by (induction xs arbitrary: i) (auto split: if_splits)

lemma find_index_None: "find_index P xs = None \<longleftrightarrow> (\<forall>x \<in> set xs. \<not> P x)"
  by (induction xs) auto

lemma find_index_not_None: "find_index P xs \<noteq> None \<longleftrightarrow> (\<exists>x \<in> set xs. P x)"
  by (simp add: find_index_None)

lemma find_index_cong:
  "(\<And>x. x \<in> set xs \<Longrightarrow> P x \<longleftrightarrow> Q x) \<Longrightarrow> find_index P xs = find_index Q xs"
  by (induction xs) auto

lemma find_index_unique:
  assumes "i < length xs" and "P (xs ! i)" and "\<And>j. j < length xs \<Longrightarrow> P (xs ! j) \<Longrightarrow> j = i"
  shows "find_index P xs = Some i"
proof (cases "find_index P xs")
  case None
  with assms(1,2) show ?thesis by (auto simp: find_index_None)
next
  case (Some j)
  with assms(3) find_index_SomeD [OF Some] show ?thesis by simp
qed

lemma distinct_map_filter_iff:
  "distinct (map f (filter P xs)) \<longleftrightarrow>
     (\<forall>i<length xs. \<forall>j<length xs. i \<noteq> j \<longrightarrow> P (xs ! i) \<longrightarrow> P (xs ! j) \<longrightarrow> f (xs ! i) \<noteq> f (xs ! j))"
proof (induction xs)
  case (Cons x xs)
  have fresh: "(f x \<notin> f ` {y \<in> set xs. P y}) \<longleftrightarrow> (\<forall>j<length xs. P (xs ! j) \<longrightarrow> f x \<noteq> f (xs ! j))"
    by (auto simp: in_set_conv_nth)
  show ?case (is "_ \<longleftrightarrow> ?all")
  proof -
    have "?all \<longleftrightarrow> (P x \<longrightarrow> (\<forall>j<length xs. P (xs ! j) \<longrightarrow> f x \<noteq> f (xs ! j))) \<and>
        (\<forall>i<length xs. \<forall>j<length xs. i \<noteq> j \<longrightarrow> P (xs ! i) \<longrightarrow> P (xs ! j) \<longrightarrow> f (xs ! i) \<noteq> f (xs ! j))"
      by (simp only: length_Cons All_less_Suc2) (intro iffI; fastforce)
    with Cons.IH fresh show ?thesis by auto
  qed
qed simp

lemma find_slot_SomeD:
  "find_slot nm st = Some i \<Longrightarrow> i < length (st_slots st) \<and> occupied (st_slots st ! i) \<and> cmd_name (st_slots st ! i) = nm"
  using find_index_SomeD by (fastforce simp: find_slot_def)

lemma find_slot_by_id_SomeD:
  "find_slot_by_id k st = Some i \<Longrightarrow>
     i < length (st_slots st) \<and> occupied (st_slots st ! i) \<and> cmd_id (st_slots st ! i) = k"
  using find_index_SomeD by (fastforce simp: find_slot_by_id_def occupied_def split: if_splits)

lemma find_free_slot_SomeD:
  "find_free_slot st = Some i \<Longrightarrow> i < length (st_slots st) \<and> \<not> occupied (st_slots st ! i)"
  using find_index_SomeD by (fastforce simp: find_free_slot_def occupied_def)

lemma find_slot_None: "find_slot nm st = None \<longleftrightarrow> (\<forall>c \<in> set (st_slots st). occupied c \<longrightarrow> cmd_name c \<noteq> nm)"
  by (auto simp: find_slot_def find_index_None)

lemma has_id_iff: "has_id k st \<longleftrightarrow> (\<exists>c \<in> set (st_slots st). occupied c \<and> cmd_id c = k)"
  unfolding has_id_def find_slot_by_id_def by (cases "k = COMMAND_ID_NONE")
    (auto simp only: if_True if_False find_index_not_None occupied_def, auto simp: occupied_def)

lemma has_iff: "has nm st \<longleftrightarrow> (\<exists>c \<in> set (st_slots st). occupied c \<and> cmd_name c = nm)"
  by (auto simp: has_def find_slot_None)

lemma next_revision_SomeD:
  assumes "next_revision base = Some r"
  shows "base < r" and "r \<le> STORE_REVISION_MAX" and "r = base + 1" and "unat r = Suc (unat base)"
proof -
  have r: "r = base + 1" and small: "unat base < unat STORE_REVISION_MAX"
    using assms by (auto simp: next_revision_def word_less_nat_alt word_le_nat_alt split: if_splits)
  then have "unat base < 2147483646" by (simp add: store_consts)
  then have u: "unat (base + 1) = Suc (unat base)"
    by (simp add: unat_word_ariths)
  with r show "r = base + 1" and "unat r = Suc (unat base)" by simp_all
  with small show "base < r" and "r \<le> STORE_REVISION_MAX" by (simp_all add: word_less_nat_alt word_le_nat_alt)
qed

section \<open>What an operation intends\<close>

text \<open>
  The result and the registry an operation has when every write succeeds. Whatever the storage
  does, a call either has the intended outcome or reports a storage error and, unless it is a
  factory reset, leaves the registry as it was.
\<close>

definition perfect_storage :: "unit storage" where
  "perfect_storage = \<lparr>sb_save = (\<lambda>key data b. (True, b)), sb_load = (\<lambda>key n b. (None, b)), sb_sync = (\<lambda>b. (True, b))\<rparr>"

definition intended :: "store_op \<Rightarrow> command_store \<Rightarrow> store_result \<times> command_store" where
  "intended op st = (let (r, st', b) = exec perfect_storage op st () in (r, st'))"

lemma write_index_perfect [simp]: "write_index perfect_storage st b = (True, ())"
  by (simp add: write_index_def perfect_storage_def)

lemma write_payload_perfect [simp]: "write_payload perfect_storage st i b = (True, ())"
  by (simp add: write_payload_def perfect_storage_def)

lemma persist_index_perfect [simp]: "persist_index perfect_storage undo s b = (OK, s, ())"
  by (simp add: persist_index_def)

lemma persist_slot_perfect [simp]: "persist_slot perfect_storage i undo s b = (OK, s, ())"
  by (simp add: persist_slot_def)

text \<open>Two outcomes agree: the same result and registry, or a storage error that changed nothing.\<close>

definition agrees ::
  "command_store \<Rightarrow> store_result \<times> command_store \<times> 'b \<Rightarrow> store_result \<times> command_store \<times> unit \<Rightarrow> bool" where
  "agrees st x y \<longleftrightarrow>
     fst x = fst y \<and> fst (snd x) = fst (snd y) \<or> fst x = STORAGE_ERROR \<and> fst (snd x) = st"

lemma agrees_refl: "agrees st (r, s, b) (r, s, u)"
  by (simp add: agrees_def)

lemma agrees_persist_index: "undo s = st \<Longrightarrow> agrees st (persist_index B undo s b) (OK, s, u)"
  by (simp add: agrees_def persist_index_def split: prod.split)

lemma agrees_persist_slot: "undo s = st \<Longrightarrow> agrees st (persist_slot B i undo s b) (OK, s, u)"
  by (simp add: persist_slot_def agrees_persist_index split: prod.split) (simp add: agrees_def)

lemmas agrees_rules = agrees_refl agrees_persist_index agrees_persist_slot

lemma put_agrees: "agrees st (put B c st b) (put perfect_storage c st ())"
  by (simp add: put_def Let_def agrees_rules split: sum.split option.split prod.split)

lemma rename_agrees: "agrees st (rename B k nm st b) (rename perfect_storage k nm st ())"
  by (simp add: rename_def Let_def agrees_rules find_slot_by_id_SomeD split: option.split)

lemma remove_by_id_agrees: "agrees st (remove_by_id B k st b) (remove_by_id perfect_storage k st ())"
  by (simp add: remove_by_id_def Let_def agrees_rules split: option.split)

lemma remove_agrees: "agrees st (remove B nm st b) (remove perfect_storage nm st ())"
  by (simp add: remove_def agrees_rules remove_by_id_agrees split: option.split)

lemma clear_all_agrees: "agrees st (clear_all B st b) (clear_all perfect_storage st ())"
  by (simp add: clear_all_def Let_def agrees_rules split: option.split)

lemma restore_begin_agrees: "agrees st (restore_begin B bid n st b) (restore_begin perfect_storage bid n st ())"
  by (simp add: restore_begin_def Let_def agrees_rules split: option.split)

lemma import_command_agrees:
  assumes "store_ok st"
  shows "agrees st (import_command B c st b) (import_command perfect_storage c st ())"
proof -
  have "(st_slots st)[slot := empty_command] = st_slots st" if "find_free_slot st = Some slot" for slot
    using that assms find_free_slot_SomeD [OF that]
    by (metis list_update_id nth_mem store_ok_def)
  then show ?thesis
    by (simp add: import_command_def Let_def agrees_rules split: option.split)
qed

lemma restore_commit_agrees:
  assumes "store_ok st"
  shows "agrees st (restore_commit B v st b) (restore_commit perfect_storage v st ())"
proof -
  have "st\<lparr>st_restore_state := 0, st_revision := v\<rparr>\<lparr>st_restore_state := 1, st_revision := st_revision st\<rparr> = st"
    if "st_restore_state st \<noteq> 0" for v
    using that assms by (cases st) (simp add: store_ok_def)
  then show ?thesis
    unfolding restore_commit_def Let_def
    by (cases "st_restore_state st = 0") (simp_all add: agrees_rules split: option.split)
qed

lemma exec_agrees:
  assumes "store_ok st" and "\<not> resets op"
  shows "agrees st (exec B op st b) (exec perfect_storage op st ())"
  using assms
  by (cases op) (simp_all add: put_agrees rename_agrees remove_agrees remove_by_id_agrees clear_all_agrees
      restore_begin_agrees import_command_agrees restore_commit_agrees)

lemma exec_outcome:
  assumes "store_ok st" and "exec B op st b = (r, st', b')" and "\<not> resets op"
  shows "(r, st') = intended op st \<or> r = STORAGE_ERROR \<and> st' = st"
  using exec_agrees [OF assms(1,3), of B b] assms(2)
  by (auto simp: agrees_def intended_def split: prod.split)

section \<open>Lemmas: what keeps a registry well-formed\<close>

text \<open>Two stores with the same limits and an id counter that did not go back.\<close>

definition continues :: "command_store \<Rightarrow> command_store \<Rightarrow> bool" where
  "continues st st' \<longleftrightarrow>
     st_max_commands st' = st_max_commands st \<and> st_max_pulses st' = st_max_pulses st \<and>
     length (st_bridge_id st') = BRIDGE_ID_BYTES \<and> st_next_command_id st \<le> st_next_command_id st' \<and>
     st_revision st' \<le> STORE_REVISION_MAX \<and> (st_restore_state st' = 0 \<or> st_restore_state st' = 1)"

lemma command_ok_continues: "command_ok st c \<Longrightarrow> continues st st' \<Longrightarrow> command_ok st' c"
  by (auto simp: command_ok_def continues_def)

lemma store_ok_nth:
  "store_ok st \<Longrightarrow> i < length (st_slots st) \<Longrightarrow> occupied (st_slots st ! i) \<Longrightarrow> command_ok st (st_slots st ! i)"
  by (metis nth_mem store_ok_def)

lemma store_ok_same_id:
  "store_ok st \<Longrightarrow> i < length (st_slots st) \<Longrightarrow> j < length (st_slots st) \<Longrightarrow>
     occupied (st_slots st ! i) \<Longrightarrow> occupied (st_slots st ! j) \<Longrightarrow>
     cmd_id (st_slots st ! i) = cmd_id (st_slots st ! j) \<Longrightarrow> i = j"
  unfolding store_ok_def distinct_map_filter_iff by blast

lemma store_ok_same_name:
  "store_ok st \<Longrightarrow> i < length (st_slots st) \<Longrightarrow> j < length (st_slots st) \<Longrightarrow>
     occupied (st_slots st ! i) \<Longrightarrow> occupied (st_slots st ! j) \<Longrightarrow>
     cmd_name (st_slots st ! i) = cmd_name (st_slots st ! j) \<Longrightarrow> i = j"
  unfolding store_ok_def distinct_map_filter_iff by blast

text \<open>Changing no slot, changing one, and emptying one or all.\<close>

lemma store_ok_continues:
  assumes "store_ok st" and "continues st st'" and "st_slots st' = st_slots st"
  shows "store_ok st'"
proof -
  have "st_next_command_id st' \<noteq> COMMAND_ID_NONE"
    using assms(1,2) by (auto simp: store_ok_def continues_def store_consts word_le_nat_alt unat_eq_0)
  with assms show ?thesis
    by (auto simp: store_ok_def continues_def intro: command_ok_continues [OF _ assms(2)] split: if_splits)
qed

lemma distinct_filter_update:
  assumes "distinct (map f (filter P xs))" and "i < length xs"
    and "\<And>j. j < length xs \<Longrightarrow> j \<noteq> i \<Longrightarrow> P (xs ! j) \<Longrightarrow> P c \<Longrightarrow> f (xs ! j) \<noteq> f c"
  shows "distinct (map f (filter P (xs[i := c])))"
  unfolding distinct_map_filter_iff
proof (intro allI impI)
  fix k l assume "k < length (xs[i := c])" "l < length (xs[i := c])" "k \<noteq> l"
    "P (xs[i := c] ! k)" "P (xs[i := c] ! l)"
  then show "f (xs[i := c] ! k) \<noteq> f (xs[i := c] ! l)"
    using assms(2,3) assms(1) [unfolded distinct_map_filter_iff]
    by (auto simp: nth_list_update split: if_splits) metis
qed

lemma store_ok_update:
  assumes ok: "store_ok st" and "continues st st'" and i: "i < length (st_slots st)"
    and slots: "st_slots st' = (st_slots st)[i := c]"
    and c: "if occupied c then command_ok st' c else c = empty_command"
    and other: "\<And>j. j < length (st_slots st) \<Longrightarrow> j \<noteq> i \<Longrightarrow> occupied (st_slots st ! j) \<Longrightarrow> occupied c \<Longrightarrow>
      cmd_id (st_slots st ! j) \<noteq> cmd_id c \<and> cmd_name (st_slots st ! j) \<noteq> cmd_name c"
  shows "store_ok st'"
proof -
  have "st_next_command_id st' \<noteq> COMMAND_ID_NONE"
    using assms(1,2) by (auto simp: store_ok_def continues_def store_consts word_le_nat_alt unat_eq_0)
  moreover have "\<forall>d \<in> set (st_slots st'). if occupied d then command_ok st' d else d = empty_command"
  proof
    fix d assume "d \<in> set (st_slots st')"
    then have "d = c \<or> d \<in> set (st_slots st)" using set_update_subset_insert slots by fastforce
    then show "if occupied d then command_ok st' d else d = empty_command"
      using c ok command_ok_continues [OF _ assms(2)] unfolding store_ok_def by metis
  qed
  moreover have "distinct (map cmd_id (filter occupied (st_slots st')))"
    and "distinct (map cmd_name (filter occupied (st_slots st')))"
    unfolding slots using ok i other by (auto intro!: distinct_filter_update simp: store_ok_def)
  ultimately show ?thesis
    using assms(1,2) by (simp add: store_ok_def continues_def slots)
qed

lemma occupied_empty [simp]: "\<not> occupied empty_command"
  by (simp add: occupied_def empty_command_def)

lemma store_ok_clear:
  assumes "store_ok st" and "continues st st'"
    and "st_slots st' = replicate (unat (st_max_commands st)) empty_command"
  shows "store_ok st'"
proof -
  have "st_next_command_id st' \<noteq> COMMAND_ID_NONE"
    using assms(1,2) by (auto simp: store_ok_def continues_def store_consts word_le_nat_alt unat_eq_0)
  with assms show ?thesis by (auto simp: store_ok_def continues_def)
qed

section \<open>Lemmas: every intended outcome is well-formed\<close>

lemma occupied_simps [simp]:
  "occupied (c\<lparr>cmd_id := k\<rparr>) \<longleftrightarrow> k \<noteq> COMMAND_ID_NONE"
  "occupied (c\<lparr>cmd_name := nm\<rparr>) \<longleftrightarrow> occupied c"
  by (simp_all add: occupied_def)

lemma next_id_after: "k \<le> COMMAND_ID_LAST \<Longrightarrow> k < k + 1 \<and> k \<le> k + 1"
  by (simp add: store_consts word_less_nat_alt word_le_nat_alt unat_word_ariths)

lemma put_slot_spec:
  assumes "store_ok st" and "put_slot c st = Inr (slot, ov, k)"
  shows "slot < length (st_slots st)" and "k \<noteq> COMMAND_ID_NONE"
    and "ov \<Longrightarrow> occupied (st_slots st ! slot) \<and> cmd_name (st_slots st ! slot) = cmd_name c \<and>
      k = cmd_id (st_slots st ! slot) \<and> k < st_next_command_id st"
    and "\<not> ov \<Longrightarrow> \<not> occupied (st_slots st ! slot) \<and> \<not> has (cmd_name c) st \<and> k = st_next_command_id st \<and>
      k \<le> COMMAND_ID_LAST"
proof -
  show "slot < length (st_slots st)" and
    "ov \<Longrightarrow> occupied (st_slots st ! slot) \<and> cmd_name (st_slots st ! slot) = cmd_name c \<and>
      k = cmd_id (st_slots st ! slot) \<and> k < st_next_command_id st"
    using assms find_slot_SomeD [of "cmd_name c" st] find_free_slot_SomeD [of st] store_ok_nth [OF assms(1)]
    by (auto simp: put_slot_def command_ok_def split: option.splits if_splits)
  show "\<not> ov \<Longrightarrow> \<not> occupied (st_slots st ! slot) \<and> \<not> has (cmd_name c) st \<and> k = st_next_command_id st \<and>
      k \<le> COMMAND_ID_LAST"
    using assms find_free_slot_SomeD [of st]
    by (auto simp: put_slot_def has_def split: option.splits if_splits)
  show "k \<noteq> COMMAND_ID_NONE"
    using assms find_slot_SomeD [of "cmd_name c" st]
    by (auto simp: put_slot_def store_ok_def occupied_def split: option.splits if_splits)
qed

lemma put_result_ok:
  assumes ok: "store_ok st" and "validate_name (cmd_name c) = OK" and "cmd_timings c \<noteq> []"
    and "length (cmd_timings c) \<le> unat (st_max_pulses st)" and slot: "put_slot c st = Inr (slot, ov, k)"
    and v: "v \<le> STORE_REVISION_MAX"
  shows "store_ok (st\<lparr>st_slots := (st_slots st)[slot := c\<lparr>cmd_id := k\<rparr>],
    st_next_command_id := (if ov then st_next_command_id st else k + 1), st_revision := v\<rparr>)" (is "store_ok ?st'")
proof (rule store_ok_update [OF ok _ put_slot_spec(1) [OF ok slot]])
  note spec = put_slot_spec [OF ok slot]
  show cont: "continues st ?st'"
    using ok v spec(4) next_id_after [of k] by (auto simp: continues_def store_ok_def)
  show "if occupied (c\<lparr>cmd_id := k\<rparr>) then command_ok ?st' (c\<lparr>cmd_id := k\<rparr>) else c\<lparr>cmd_id := k\<rparr> = empty_command"
    using assms spec(2,3,4) next_id_after [of k] by (auto simp: command_ok_def)
  fix j assume j: "j < length (st_slots st)" "j \<noteq> slot" "occupied (st_slots st ! j)"
  show "cmd_id (st_slots st ! j) \<noteq> cmd_id (c\<lparr>cmd_id := k\<rparr>) \<and> cmd_name (st_slots st ! j) \<noteq> cmd_name (c\<lparr>cmd_id := k\<rparr>)"
  proof (cases ov)
    case True
    with spec(1,3) j store_ok_same_id [OF ok, of j slot] store_ok_same_name [OF ok, of j slot] show ?thesis by auto
  next
    case False
    with spec(4) j store_ok_nth [OF ok j(1,3)] show ?thesis by (auto simp: has_iff command_ok_def)
  qed
qed simp_all

lemma rename_result_ok:
  assumes ok: "store_ok st" and "validate_name nm = OK" and slot: "find_slot_by_id k st = Some slot"
    and "find_slot nm st = None" and "v \<le> STORE_REVISION_MAX"
  shows "store_ok (st\<lparr>st_slots := (st_slots st)[slot := (st_slots st ! slot)\<lparr>cmd_name := nm\<rparr>], st_revision := v\<rparr>)"
    (is "store_ok ?st'")
proof (rule store_ok_update [OF ok])
  note at = find_slot_by_id_SomeD [OF slot]
  show "continues st ?st'" using assms by (auto simp: continues_def store_ok_def)
  show "slot < length (st_slots st)" using at by simp
  show "if occupied ((st_slots st ! slot)\<lparr>cmd_name := nm\<rparr>) then command_ok ?st' ((st_slots st ! slot)\<lparr>cmd_name := nm\<rparr>)
      else (st_slots st ! slot)\<lparr>cmd_name := nm\<rparr> = empty_command"
    using at assms(2) store_ok_nth [OF ok, of slot] by (simp add: command_ok_def)
  fix j assume "j < length (st_slots st)" "j \<noteq> slot" "occupied (st_slots st ! j)"
  with at assms(4) store_ok_same_id [OF ok, of j slot] show
    "cmd_id (st_slots st ! j) \<noteq> cmd_id ((st_slots st ! slot)\<lparr>cmd_name := nm\<rparr>) \<and>
     cmd_name (st_slots st ! j) \<noteq> cmd_name ((st_slots st ! slot)\<lparr>cmd_name := nm\<rparr>)"
    by (auto simp: find_slot_None)
qed simp_all

lemma remove_result_ok:
  assumes ok: "store_ok st" and "find_slot_by_id k st = Some slot" and "v \<le> STORE_REVISION_MAX"
  shows "store_ok (st\<lparr>st_slots := (st_slots st)[slot := empty_command], st_revision := v\<rparr>)" (is "store_ok ?st'")
proof (rule store_ok_update [OF ok, of _ slot empty_command])
  show "continues st ?st'" using assms by (auto simp: continues_def store_ok_def)
  show "slot < length (st_slots st)" using find_slot_by_id_SomeD [OF assms(2)] by simp
qed simp_all

lemma import_result_ok:
  assumes ok: "store_ok st" and "validate_name (cmd_name c) = OK" and "cmd_id c < st_next_command_id st"
    and "\<not> has_id (cmd_id c) st" and "\<not> has (cmd_name c) st" and "cmd_timings c \<noteq> []"
    and "length (cmd_timings c) \<le> unat (st_max_pulses st)" and slot: "find_free_slot st = Some slot"
    and "cmd_id c \<noteq> COMMAND_ID_NONE" and "v \<le> STORE_REVISION_MAX"
  shows "store_ok (st\<lparr>st_slots := (st_slots st)[slot := c], st_revision := v\<rparr>)" (is "store_ok ?st'")
proof (rule store_ok_update [OF ok])
  show "continues st ?st'" using assms by (auto simp: continues_def store_ok_def)
  show "if occupied c then command_ok ?st' c else c = empty_command"
    using assms by (simp add: command_ok_def occupied_def)
  fix j assume "j < length (st_slots st)" "j \<noteq> slot" "occupied (st_slots st ! j)"
  with assms(4,5) show "cmd_id (st_slots st ! j) \<noteq> cmd_id c \<and> cmd_name (st_slots st ! j) \<noteq> cmd_name c"
    by (auto simp: has_iff has_id_iff)
qed (use find_free_slot_SomeD [OF slot] in simp_all)

lemma restart_ok:
  assumes "store_ok st" and "length bid = BRIDGE_ID_BYTES" and "nid \<noteq> COMMAND_ID_NONE"
    and "v \<le> STORE_REVISION_MAX" and "w = 0 \<or> w = 1"
    and empty: "\<And>c. c \<in> set slots \<Longrightarrow> c = empty_command" and "length slots = unat (st_max_commands st)"
  shows "store_ok (st\<lparr>st_slots := slots, st_bridge_id := bid, st_next_command_id := nid,
    st_revision := v, st_restore_state := w\<rparr>)"
proof -
  have "slots = replicate (unat (st_max_commands st)) empty_command"
    using empty assms(7) by (metis replicate_eqI)
  with assms show ?thesis by (simp add: store_ok_def)
qed

lemma count_0: "count st = 0 \<longleftrightarrow> (\<forall>c \<in> set (st_slots st). \<not> occupied c)"
  by (simp add: count_def filter_empty_conv)

lemma intended_put_ok:
  assumes ok: "store_ok st" and "put perfect_storage c st () = (r, st', u)"
  shows "store_ok st'"
proof (cases "r = OK \<and> st' \<noteq> st")
  case True
  with assms(2) obtain slot ov k v where "validate_name (cmd_name c) = OK" "cmd_timings c \<noteq> []"
      "length (cmd_timings c) \<le> unat (st_max_pulses st)" "put_slot c st = Inr (slot, ov, k)"
      "next_revision (st_revision st) = Some v"
      "st' = st\<lparr>st_slots := (st_slots st)[slot := c\<lparr>cmd_id := k\<rparr>],
        st_next_command_id := (if ov then st_next_command_id st else k + 1), st_revision := v\<rparr>"
    by (auto simp: put_def Let_def split: if_splits sum.splits option.splits)
  with put_result_ok [OF ok] next_revision_SomeD(2) show ?thesis by blast
next
  case False
  with assms show ?thesis
    by (auto simp: put_def Let_def split: if_splits sum.splits option.splits)
qed

lemma clear_all_ok:
  assumes ok: "store_ok st" and run: "clear_all perfect_storage st () = (r, st', u)"
  shows "store_ok st'"
proof -
  from run have "st' = st \<or> (\<exists>v \<le> STORE_REVISION_MAX. st' =
      st\<lparr>st_slots := replicate (unat (st_max_commands st)) empty_command, st_restore_state := 0, st_revision := v\<rparr>)"
    using next_revision_SomeD(2) by (auto simp: clear_all_def Let_def split: if_splits option.splits)
  then show ?thesis
    using ok restart_ok [OF ok, of "st_bridge_id st" "st_next_command_id st" _ 0
        "replicate (unat (st_max_commands st)) empty_command"]
    by (auto simp: store_ok_def)
qed

lemma restore_begin_ok:
  assumes ok: "store_ok st" and run: "restore_begin perfect_storage bid n st () = (r, st', u)"
    and "length bid = BRIDGE_ID_BYTES"
  shows "store_ok st'"
proof -
  from run have "st' = st \<or> (\<exists>v \<le> STORE_REVISION_MAX. count st = 0 \<and> n \<ge> COMMAND_ID_FIRST \<and>
      st' = st\<lparr>st_bridge_id := bid, st_next_command_id := n, st_restore_state := 1, st_revision := v\<rparr>)"
    using next_revision_SomeD(2)
    by (auto simp: restore_begin_def Let_def not_less split: if_splits option.splits)
  moreover have "n \<noteq> COMMAND_ID_NONE" if "n \<ge> COMMAND_ID_FIRST"
    using that by (auto simp: store_consts)
  moreover have "st\<lparr>st_bridge_id := bid, st_next_command_id := n, st_restore_state := 1, st_revision := v\<rparr> =
      st\<lparr>st_slots := st_slots st, st_bridge_id := bid, st_next_command_id := n, st_revision := v, st_restore_state := 1\<rparr>"
    for v by simp
  ultimately show ?thesis
    using ok assms(3) restart_ok [OF ok, of bid n _ 1 "st_slots st"]
    by (auto simp: count_0 store_ok_def)
qed

text \<open>The registry a factory reset sets up before it writes anything.\<close>

lemma fresh_store_ok:
  assumes ok: "store_ok st" and "op_typed (FactoryReset random)"
  shows "store_ok (st\<lparr>st_slots := replicate (unat (st_max_commands st)) empty_command,
      st_bridge_id := (case random of None \<Rightarrow> replicate BRIDGE_ID_BYTES 0 | Some bytes \<Rightarrow> bytes),
      st_next_command_id := COMMAND_ID_FIRST, st_revision := REVISION_INITIAL, st_restore_state := 0\<rparr>)"
proof -
  have "length (case random of None \<Rightarrow> replicate BRIDGE_ID_BYTES 0 | Some bytes \<Rightarrow> bytes) = BRIDGE_ID_BYTES"
    using assms(2) by (cases random) auto
  then show ?thesis by (intro restart_ok [OF ok]) (auto simp: store_consts)
qed

lemma intended_ok:
  assumes ok: "store_ok st" and "intended op st = (r, st')" and "op_typed op"
  shows "store_ok st'"
proof (cases op)
  case (Put c)
  with assms intended_put_ok show ?thesis by (auto simp: intended_def split: prod.splits)
next
  case (Rename k nm)
  with assms rename_result_ok [OF ok] next_revision_SomeD(2) show ?thesis
    by (auto simp: intended_def rename_def Let_def split: if_splits option.splits)
next
  case (Remove nm)
  with assms remove_result_ok [OF ok] next_revision_SomeD(2) show ?thesis
    by (auto simp: intended_def remove_def remove_by_id_def Let_def split: if_splits option.splits)
next
  case (RemoveById k)
  with assms remove_result_ok [OF ok] next_revision_SomeD(2) show ?thesis
    by (auto simp: intended_def remove_by_id_def Let_def split: if_splits option.splits)
next
  case ClearAll
  with assms show ?thesis by (auto simp: intended_def intro: clear_all_ok split: prod.splits)
next
  case (RestoreBegin bid n)
  with assms show ?thesis by (auto simp: intended_def intro: restore_begin_ok split: prod.splits)
next
  case (ImportCommand c)
  show ?thesis
  proof (cases "st' = st")
    case False
    with ImportCommand assms(2) obtain slot v where "validate_name (cmd_name c) = OK"
      "cmd_id c < st_next_command_id st" "\<not> has_id (cmd_id c) st" "\<not> has (cmd_name c) st" "cmd_timings c \<noteq> []"
      "length (cmd_timings c) \<le> unat (st_max_pulses st)" "find_free_slot st = Some slot"
      "cmd_id c \<noteq> COMMAND_ID_NONE" "next_revision (st_revision st) = Some v"
      "st' = st\<lparr>st_slots := (st_slots st)[slot := c], st_revision := v\<rparr>"
      by (auto simp: intended_def import_command_def Let_def not_le split: if_splits option.splits)
    with import_result_ok [OF ok] next_revision_SomeD(2) show ?thesis by blast
  qed (use ok in simp)
next
  case (RestoreCommit w)
  show ?thesis
  proof (cases "st' = st")
    case False
    with RestoreCommit assms(2) obtain base v where "next_revision base = Some v"
      "st' = st\<lparr>st_restore_state := 0, st_revision := v\<rparr>"
      by (auto simp: intended_def restore_commit_def Let_def split: if_splits option.splits)
    with next_revision_SomeD(2) show ?thesis
      using ok by (intro store_ok_continues [OF ok]) (auto simp: continues_def store_ok_def)
  qed (use ok in simp)
next
  case (FactoryReset random)
  let ?fresh = "st\<lparr>st_slots := replicate (unat (st_max_commands st)) empty_command,
    st_bridge_id := (case random of None \<Rightarrow> replicate BRIDGE_ID_BYTES 0 | Some bytes \<Rightarrow> bytes),
    st_next_command_id := COMMAND_ID_FIRST, st_revision := REVISION_INITIAL, st_restore_state := 0\<rparr>"
  have "store_ok ?fresh" by (rule fresh_store_ok [OF ok]) (use assms(3) FactoryReset in simp)
  then have "store_ok (?fresh\<lparr>st_read_only := False, st_fault := FAULT_NONE\<rparr>)"
    by (simp add: store_ok_def command_ok_def cong: if_cong)
  moreover have "st' = st \<or> st' = ?fresh\<lparr>st_read_only := False, st_fault := FAULT_NONE\<rparr>"
    using assms(2) FactoryReset
    by (simp add: intended_def factory_reset_def mint_identity_def Let_def split: if_splits)
  ultimately show ?thesis using ok by auto
qed

lemma factory_reset_failed:
  assumes ok: "store_ok st" and "factory_reset B random st b = (STORAGE_ERROR, st', b')"
    and "op_typed (FactoryReset random)"
  shows "store_ok st'"
  using ok fresh_store_ok [OF ok assms(3)] assms(2)
  by (simp add: factory_reset_def mint_identity_def Let_def split: if_splits prod.splits)

lemma factory_reset_outcome:
  assumes "factory_reset B random st b = (r, st', b')"
  shows "(r, st') = intended (FactoryReset random) st \<or> r = STORAGE_ERROR"
  using assms by (auto simp: intended_def factory_reset_def Let_def split: if_splits prod.splits)

lemma exec_ok:
  assumes ok: "store_ok st" and run: "exec B op st b = (r, st', b')" and typed: "op_typed op"
  shows "store_ok st'"
proof (cases "resets op")
  case True
  then obtain random where op: "op = FactoryReset random" by (cases op) auto
  with run factory_reset_outcome [of B random st b r st' b'] factory_reset_failed [OF ok]
    intended_ok [OF ok _ typed] typed show ?thesis by (metis exec.simps(9))
next
  case False
  from exec_outcome [OF ok run False] intended_ok [OF ok _ typed] ok show ?thesis by metis
qed

lemma run_ops_ok: "store_ok st \<Longrightarrow> list_all op_typed ops \<Longrightarrow> store_ok (fst (run_ops B ops st b))"
proof (induction ops arbitrary: st b)
  case (Cons op ops)
  obtain r st' b' where run: "exec B op st b = (r, st', b')" by (metis prod_cases3)
  with exec_ok [OF Cons.prems(1) run] Cons show ?case by simp
qed simp

section \<open>Lemmas: results and the revision\<close>

text \<open>An intended outcome that is no success is no change; a change advances the revision by one step.\<close>

lemma intended_cases:
  assumes "intended op st = (r, st')" and "\<not> resets op"
  shows "st' = st \<or> r = OK \<and> st_revision st < st_revision st' \<and> st_revision st' \<le> STORE_REVISION_MAX"
proof (cases op)
  case (Put c)
  with assms next_revision_SomeD(1,2) show ?thesis
    by (fastforce simp: intended_def put_def Let_def split: if_splits sum.splits option.splits prod.splits)
next
  case (RestoreCommit w)
  show ?thesis
  proof (cases "st' = st")
    case False
    with RestoreCommit assms(1) obtain v where "r = OK" "st' = st\<lparr>st_restore_state := 0, st_revision := v\<rparr>"
      and v: "next_revision (if w > st_revision st then w else st_revision st) = Some v"
      by (auto simp: intended_def restore_commit_def Let_def split: if_splits option.splits)
    with next_revision_SomeD(1,2) [OF v] show ?thesis by (auto split: if_splits)
  qed simp
qed (use assms next_revision_SomeD(1,2) in
  \<open>fastforce simp: intended_def rename_def remove_def remove_by_id_def clear_all_def restore_begin_def
    import_command_def Let_def split: if_splits option.splits\<close>)+

section \<open>Lemmas: ids\<close>

fun restores :: "store_op \<Rightarrow> bool" where
  "restores (RestoreBegin _ _) = True"
| "restores (ImportCommand _) = True"
| "restores (FactoryReset _) = True"
| "restores _ = False"

lemma has_id_slots: "st_slots st' = st_slots st \<Longrightarrow> has_id k st' \<longleftrightarrow> has_id k st"
  by (simp add: has_id_iff)

lemma has_id_update:
  "has_id k (st\<lparr>st_slots := (st_slots st)[i := c], st_revision := v\<rparr>) \<Longrightarrow> has_id k st \<or> occupied c \<and> cmd_id c = k"
  using set_update_subset_insert [of "st_slots st" i c] by (auto simp: has_id_iff)

text \<open>Outside a restore or a reset the counter does not go back, and an id below it that no command has stays unused.\<close>

lemma intended_ids:
  assumes ok: "store_ok st" and run: "intended op st = (r, st')" and "\<not> restores op"
  shows "st_next_command_id st \<le> st_next_command_id st' \<and>
    (\<forall>k. k < st_next_command_id st \<longrightarrow> has_id k st' \<longrightarrow> has_id k st)"
proof (cases "st' = st")
  case False
  show ?thesis
  proof (cases op)
    case (Put c)
    with False run obtain slot ov k v where slot: "put_slot c st = Inr (slot, ov, k)"
      and st': "st' = st\<lparr>st_slots := (st_slots st)[slot := c\<lparr>cmd_id := k\<rparr>],
        st_next_command_id := (if ov then st_next_command_id st else k + 1), st_revision := v\<rparr>"
      by (auto simp: intended_def put_def Let_def split: if_splits sum.splits option.splits prod.splits)
    note spec = put_slot_spec [OF ok slot]
    have "has_id j st" if "has_id j st'" "j < st_next_command_id st" for j
    proof -
      have "has_id j st \<or> j = k"
        using that(1) has_id_update [of j v st slot "c\<lparr>cmd_id := k\<rparr>"] by (auto simp: st' has_id_iff)
      moreover have "has_id k st" if "ov" using spec(3) that nth_mem [OF spec(1)] by (auto simp: has_id_iff)
      ultimately show ?thesis using spec(4) that(2) by (cases ov) auto
    qed
    with spec(4) next_id_after [of k] show ?thesis by (auto simp: st')
  next
    case (Rename k nm)
    with False run obtain slot v where slot: "find_slot_by_id k st = Some slot"
      and st': "st' = st\<lparr>st_slots := (st_slots st)[slot := (st_slots st ! slot)\<lparr>cmd_name := nm\<rparr>], st_revision := v\<rparr>"
      by (auto simp: intended_def rename_def Let_def split: if_splits option.splits)
    from find_slot_by_id_SomeD [OF slot] have "has_id j st" if "has_id j st'" for j
      using has_id_update [of j v st slot "(st_slots st ! slot)\<lparr>cmd_name := nm\<rparr>"] that
        nth_mem [of slot "st_slots st"] by (auto simp: st' has_id_iff)
    then show ?thesis by (simp add: st')
  next
    case (Remove nm)
    with False run obtain slot v where
      st': "st' = st\<lparr>st_slots := (st_slots st)[slot := empty_command], st_revision := v\<rparr>"
      by (auto simp: intended_def remove_def remove_by_id_def Let_def split: if_splits option.splits)
    with has_id_update [of _ v st slot empty_command] show ?thesis by auto
  next
    case (RemoveById k)
    with False run obtain slot v where
      st': "st' = st\<lparr>st_slots := (st_slots st)[slot := empty_command], st_revision := v\<rparr>"
      by (auto simp: intended_def remove_by_id_def Let_def split: if_splits option.splits)
    with has_id_update [of _ v st slot empty_command] show ?thesis by auto
  next
    case ClearAll
    with False run show ?thesis
      by (auto simp: intended_def clear_all_def Let_def has_id_iff split: if_splits option.splits)
  next
    case (RestoreCommit w)
    with False run show ?thesis
      by (auto simp: intended_def restore_commit_def Let_def has_id_iff split: if_splits option.splits)
  qed (use assms in simp_all)
qed simp

lemma exec_ids:
  assumes "store_ok st" and "exec B op st b = (r, st', b')" and "\<not> restores op"
  shows "st_next_command_id st \<le> st_next_command_id st' \<and>
    (\<forall>k. k < st_next_command_id st \<longrightarrow> has_id k st' \<longrightarrow> has_id k st)"
proof -
  have "\<not> resets op" using assms(3) by (cases op) auto
  from exec_outcome [OF assms(1,2) this] intended_ids [OF assms(1) _ assms(3)] show ?thesis by (metis order_refl)
qed

lemma run_ops_ids:
  assumes "store_ok st" and "list_all op_typed ops" and "\<not> list_ex restores ops"
    and "k < st_next_command_id st" and "has_id k (fst (run_ops B ops st b))"
  shows "has_id k st"
  using assms
proof (induction ops arbitrary: st b)
  case (Cons op ops)
  obtain r st' b' where run: "exec B op st b = (r, st', b')" by (metis prod_cases3)
  from Cons.prems have "\<not> restores op" "op_typed op" by auto
  note ids = exec_ids [OF Cons.prems(1) run this(1)] and ok = exec_ok [OF Cons.prems(1) run this(2)]
  from Cons.prems ids run have "has_id k st'" by (intro Cons.IH [OF ok]) auto
  with ids Cons.prems(4) show ?case by blast
qed simp

section \<open>Properties\<close>

text \<open>
  C5: Every operation keeps the registry well-formed, whatever the storage does: over any sequence of
  operations, failing writes included, each stored command has a valid name of its own, an id of its
  own below the counter, and a waveform within the limit; free slots are empty; the counter is not
  the reserved 0, and the revision stays below its terminal value.
\<close>

theorem registry_stays_well_formed:
  assumes "store_ok st" and "list_all op_typed ops"
  shows "store_ok (fst (run_ops B ops st b))"
  using assms by (rule run_ops_ok)

definition demo_command_a :: command where
  "demo_command_a = \<lparr>cmd_id = 0, cmd_name = ''gate'', cmd_timings = [350, - 700, 350], cmd_gap_us = 9000,
     cmd_repeat_times = 20, cmd_frequency_hz = 433920000, cmd_modulation = 0\<rparr>"

definition demo_empty_store :: command_store where
  "demo_empty_store = \<lparr>st_has_backend = True, st_max_commands = 2, st_max_pulses = 4, st_max_storage_bytes = 200,
     st_key_salt = 5, st_bridge_id = replicate 16 7, st_next_command_id = 1, st_revision = 1, st_restore_state = 0,
     st_read_only = False, st_fault = FAULT_NONE, st_slots = [empty_command, empty_command]\<rparr>"

lemma next_revision_eval: "next_revision v = (if unat v \<ge> 2147483646 then None else Some (v + 1))"
  by (simp add: next_revision_def store_consts word_le_nat_alt)

lemma replicate_two: "replicate 2 x = [x, x]"
  by (simp add: numeral_2_eq_2)

lemmas store_eval = put_def put_slot_def rename_def remove_by_id_def clear_all_def writable_def validate_name_def
  store_name_char_def find_slot_def find_slot_by_id_def find_free_slot_def projected_bytes_def payload_size_def
  index_overhead_bytes_def index_bytes_for_def sizeof_defs next_revision_eval store_consts occupied_def replicate_two
  empty_command_def count_def has_id_def enumerate_eq_zip

lemma demo_empty_store_ok: "store_ok demo_empty_store"
  by code_simp

lemma registry_stays_well_formed_witness:
  "store_ok (fst (run_ops perfect_storage [Put demo_command_a, Rename 1 ''door'', Put demo_command_a, RemoveById 1]
     demo_empty_store ())) \<and>
   entries (fst (run_ops perfect_storage [Put demo_command_a, Rename 1 ''door'', Put demo_command_a, RemoveById 1]
     demo_empty_store ())) = [(2, ''gate'', 3)]"
proof
  show "store_ok (fst (run_ops perfect_storage [Put demo_command_a, Rename 1 ''door'', Put demo_command_a, RemoveById 1]
     demo_empty_store ()))"
    by (rule registry_stays_well_formed [OF demo_empty_store_ok]) simp
qed (simp add: store_eval demo_empty_store_def demo_command_a_def entries_def)

text \<open>
  C12: A call other than a factory reset that does not report success changes nothing, and one that
  changes the registry reports success and moves the revision forward: the revision is a change
  token, and it never reaches its terminal value. (A factory reset starts a new registry, also
  when its write fails.)
\<close>

theorem revision_is_a_change_token:
  assumes "store_ok st" and "exec B op st b = (r, st', b')" and "\<not> resets op"
  shows "(r \<noteq> OK \<longrightarrow> st' = st) \<and>
    (st' \<noteq> st \<longrightarrow> r = OK \<and> st_revision st < st_revision st' \<and> st_revision st' < STORE_REVISION_TERMINAL)"
proof -
  have max: "v < STORE_REVISION_TERMINAL" if "v \<le> STORE_REVISION_MAX" for v
    using that by (simp add: store_consts word_less_nat_alt word_le_nat_alt)
  from exec_outcome [OF assms] show ?thesis
  proof
    assume "(r, st') = intended op st"
    with intended_cases [of op st r st'] assms(3) max show ?thesis by auto
  qed simp
qed

lemma revision_is_a_change_token_witness:
  "\<exists>st' b'. exec perfect_storage (Put demo_command_a) demo_empty_store () = (OK, st', b') \<and>
     st' \<noteq> demo_empty_store \<and> 1 < st_revision st'"
proof -
  obtain r st' b' where run: "exec perfect_storage (Put demo_command_a) demo_empty_store () = (r, st', b')"
    by (metis prod_cases3)
  have "st_next_command_id (fst (snd (exec perfect_storage (Put demo_command_a) demo_empty_store ()))) = 2"
    by (simp add: store_eval demo_empty_store_def demo_command_a_def)
  then have "st' \<noteq> demo_empty_store" using run by (auto simp: demo_empty_store_def)
  with revision_is_a_change_token [OF demo_empty_store_ok run]
  have "r = OK" and "st_revision demo_empty_store < st_revision st'" by simp_all
  moreover have "st_revision demo_empty_store = 1" by (simp add: demo_empty_store_def)
  ultimately show ?thesis using run \<open>st' \<noteq> demo_empty_store\<close> by metis
qed

text \<open>
  C11: An id is never handed out twice: over any sequence of operations other than a restore or a
  factory reset, and whatever the storage does, an id below the counter that no command holds is
  held by no command ever after.
\<close>

theorem ids_are_never_reused:
  assumes "store_ok st" and "list_all op_typed ops" and "\<not> list_ex restores ops"
    and "k < st_next_command_id st" and "\<not> has_id k st"
  shows "\<not> has_id k (fst (run_ops B ops st b))"
  using run_ops_ids [OF assms(1-4), of B b] assms(5) by auto

lemma ids_are_never_reused_witness:
  "\<not> has_id 1 (fst (run_ops perfect_storage [Put demo_command_a, ClearAll, Put demo_command_a]
     (demo_empty_store\<lparr>st_next_command_id := 2\<rparr>) ())) \<and>
   has_id 3 (fst (run_ops perfect_storage [Put demo_command_a, ClearAll, Put demo_command_a]
     (demo_empty_store\<lparr>st_next_command_id := 2\<rparr>) ()))"
proof
  have "store_ok (demo_empty_store\<lparr>st_next_command_id := 2\<rparr>)" by code_simp
  then show "\<not> has_id 1 (fst (run_ops perfect_storage [Put demo_command_a, ClearAll, Put demo_command_a]
      (demo_empty_store\<lparr>st_next_command_id := 2\<rparr>) ()))"
    by (rule ids_are_never_reused) (simp_all add: has_id_iff demo_empty_store_def)
qed (simp add: store_eval demo_empty_store_def demo_command_a_def)

end
