(* ===== verification/StoreFlash.thy ===== *)
theory StoreFlash
  imports StoreOps
begin

text \<open>
  What the registry leaves on flash and what \<open>begin()\<close> makes of it. The interface of the storage
  (\<open>StorageBackend\<close>) is the locale \<open>storage_backend\<close>, with the laws the store relies on; its
  lemmas are proved there once. It is interpreted on \<open>FakeBackend\<close>, the in-memory implementation
  of the repository's own host tests. A save that fails stands for every way a write can be cut
  short: nothing of it, and nothing after it, reached the flash.
\<close>

section \<open>The storage interface\<close>

locale storage_backend =
  fixes B :: "'b storage"
  assumes load_pure: "fst (sb_load B k' n' (snd (sb_load B k n b))) = fst (sb_load B k' n' b)"
    and sync_keeps: "fst (sb_load B k n (snd (sb_sync B b))) = fst (sb_load B k n b)"
    and save_done: "sb_save B k d b = (True, b') \<Longrightarrow>
      fst (sb_load B k' n b') =
        (if k' = k then (if n = length d then Some d else None) else fst (sb_load B k' n b))"
    and save_refused: "sb_save B k d b = (False, b') \<Longrightarrow> fst (sb_load B k' n b') = fst (sb_load B k' n b)"

section \<open>The backend of the host tests\<close>

record fake_flash =
  ff_records :: "(32 word, byte list) dict"
  ff_writes :: nat
  ff_fail_next_save :: bool
  ff_fail_after :: int

definition fake_save :: "32 word \<Rightarrow> byte list \<Rightarrow> fake_flash \<Rightarrow> bool \<times> fake_flash" where
  "fake_save key data f =
     (if ff_fail_next_save f then (False, f\<lparr>ff_fail_next_save := False\<rparr>)
      else if ff_fail_after f \<ge> 0 \<and> int (ff_writes f) \<ge> ff_fail_after f then (False, f)
      else (True, f\<lparr>ff_records := AList.update key data (ff_records f), ff_writes := ff_writes f + 1\<rparr>))"

definition fake_load :: "32 word \<Rightarrow> nat \<Rightarrow> fake_flash \<Rightarrow> byte list option \<times> fake_flash" where
  "fake_load key n f =
     (case map_of (ff_records f) key of
        None \<Rightarrow> (None, f)
      | Some data \<Rightarrow> if length data \<noteq> n then (None, f) else (Some data, f))"

definition fake_backend :: "fake_flash storage" where
  "fake_backend = \<lparr>sb_save = fake_save, sb_load = fake_load, sb_sync = (\<lambda>f. (True, f))\<rparr>"

definition fresh_flash :: fake_flash where
  "fresh_flash = \<lparr>ff_records = [], ff_writes = 0, ff_fail_next_save = False, ff_fail_after = -1\<rparr>"

lemma snd_fake_load [simp]: "snd (fake_load key n f) = f"
  by (simp add: fake_load_def split: option.split)

lemma fst_fake_load:
  "fst (fake_load key n f) =
     (case map_of (ff_records f) key of None \<Rightarrow> None | Some d \<Rightarrow> if n = length d then Some d else None)"
  by (simp add: fake_load_def split: option.split)

interpretation fake: storage_backend fake_backend
proof unfold_locales
  show "fst (sb_load fake_backend k' n' (snd (sb_load fake_backend k n b))) = fst (sb_load fake_backend k' n' b)"
    for k' n' k n b
    by (simp add: fake_backend_def)
  show "fst (sb_load fake_backend k n (snd (sb_sync fake_backend b))) = fst (sb_load fake_backend k n b)" for k n b
    by (simp add: fake_backend_def)
  show "fst (sb_load fake_backend k' n b') =
      (if k' = k then (if n = length d then Some d else None) else fst (sb_load fake_backend k' n b))"
    if "sb_save fake_backend k d b = (True, b')" for k d b b' k' n
  proof -
    from that have "ff_records b' = AList.update k d (ff_records b)"
      by (simp add: fake_backend_def fake_save_def split: if_splits) auto
    then show ?thesis by (simp add: fake_backend_def fst_fake_load update_conv')
  qed
  show "fst (sb_load fake_backend k' n b') = fst (sb_load fake_backend k' n b)"
    if "sb_save fake_backend k d b = (False, b')" for k d b b' k' n
  proof -
    from that have "ff_records b' = ff_records b"
      by (simp add: fake_backend_def fake_save_def split: if_splits) auto
    then show ?thesis by (simp add: fake_backend_def fst_fake_load)
  qed
qed

section \<open>Lemmas: records read back\<close>

lemma decode_encode_header: "decode_header (encode_header h) = h"
  by (cases h) (simp add: decode_header_def encode_header_def nth_append)

lemma length_encode_header [simp]: "length (encode_header h) = SIZEOF_HEADER"
  by (simp add: encode_header_def sizeof_defs)

lemma take_encode_header: "take 8 (encode_header h) = take 8 (encode_header (h\<lparr>sh_crc16 := c\<rparr>))"
  by (simp add: encode_header_def)

lemma decode_encode_meta: "length (sm_bridge m) = 16 \<Longrightarrow> decode_meta (encode_meta m) = m"
  by (cases m) (simp add: decode_meta_def encode_meta_def nth_append)

lemma length_encode_meta: "length (sm_bridge m) = 16 \<Longrightarrow> length (encode_meta m) = SIZEOF_META"
  by (simp add: encode_meta_def sizeof_defs)

lemma decode_encode_slot: "length (ss_name s) = 24 \<Longrightarrow> decode_slot (encode_slot s) = s"
  by (cases s) (simp add: decode_slot_def encode_slot_def nth_append)

lemma length_encode_slot: "length (ss_name s) = 24 \<Longrightarrow> length (encode_slot s) = SIZEOF_SLOT"
  by (simp add: encode_slot_def sizeof_defs)

lemma length_slot_record_name [simp]: "length (ss_name (slot_record c)) = 24"
  by (simp add: slot_record_def zero_slot_def length_name_buffer store_consts)

lemma length_concat_blocks:
  "(\<And>i. i \<in> set is \<Longrightarrow> length (f i) = w) \<Longrightarrow> length (concat (map f is)) = length is * w"
  by (induction "is") simp_all

text \<open>The i-th of blocks of one width laid out one after another.\<close>

lemma take_drop_block:
  assumes "\<And>i. i < n \<Longrightarrow> length (f i) = w" and "i < n"
  shows "take w (drop (i * w) (concat (map f [0..<n]) @ rest)) = f i"
proof -
  have split: "[0..<n] = [0..<i] @ i # [Suc i..<n]"
    using assms(2) by (metis le_add1 less_imp_le upt_add_eq_append upt_conv_Cons add.left_neutral le_add_diff_inverse zero_le)
  have "length (concat (map f [0..<i])) = i * w"
    using length_concat_blocks [of "[0..<i]" f w] assms by simp
  then show ?thesis using assms by (simp add: split)
qed

lemma length_index_body:
  "length (st_bridge_id st) = BRIDGE_ID_BYTES \<Longrightarrow>
     length (index_body st) = SIZEOF_META + unat (st_max_commands st) * SIZEOF_SLOT"
  unfolding index_body_def
  by (simp add: length_encode_meta meta_record_def store_consts length_concat_blocks length_encode_slot)

lemma length_index_record:
  "length (st_bridge_id st) = BRIDGE_ID_BYTES \<Longrightarrow> length (index_record st) = index_bytes_for (st_max_commands st)"
  by (simp add: index_record_def length_index_body index_bytes_for_def sizeof_defs)

lemma index_record_meta:
  "length (st_bridge_id st) = BRIDGE_ID_BYTES \<Longrightarrow> decode_meta (take SIZEOF_META (index_record st)) = meta_record st"
  by (simp add: index_record_def index_body_def length_encode_meta decode_encode_meta meta_record_def store_consts)

lemma index_record_slot:
  assumes "length (st_bridge_id st) = BRIDGE_ID_BYTES" and "i < unat (st_max_commands st)"
  shows "decode_slot (take SIZEOF_SLOT (drop (SIZEOF_META + i * SIZEOF_SLOT) (index_record st))) =
    slot_record (st_slots st ! i)"
proof -
  have "drop (SIZEOF_META + i * SIZEOF_SLOT) (index_record st) =
      drop (i * SIZEOF_SLOT) (concat (map (\<lambda>i. encode_slot (slot_record (st_slots st ! i))) [0..<unat (st_max_commands st)])
        @ bytes16 (crc16_ccitt (index_body st)))"
    using assms(1) length_encode_meta [of "meta_record st"]
    by (simp add: index_record_def index_body_def meta_record_def store_consts drop_append add.commute)
  with take_drop_block [of "unat (st_max_commands st)"
      "\<lambda>i. encode_slot (slot_record (st_slots st ! i))" SIZEOF_SLOT i] assms(2)
  show ?thesis by (simp add: length_encode_slot decode_encode_slot)
qed

lemma index_record_crc:
  assumes "length (st_bridge_id st) = BRIDGE_ID_BYTES"
  shows "word16 (drop (index_bytes_for (st_max_commands st) - STORE_CRC_BYTES) (index_record st)) =
    crc16_ccitt (take (index_bytes_for (st_max_commands st) - STORE_CRC_BYTES) (index_record st))"
  using length_index_body [OF assms] by (simp add: index_record_def index_bytes_for_def)

lemma header_record_crc:
  "sh_crc16 (header_record st) = crc16_ccitt (take (SIZEOF_HEADER - STORE_CRC_BYTES) (encode_header (header_record st)))"
  by (simp add: header_record_def header_crc_def Let_def sizeof_defs take_encode_header [symmetric])
   (simp add: encode_header_def)

lemma header_record_fields [simp]:
  "sh_magic (header_record st) = STORE_MAGIC" "sh_format_version (header_record st) = STORE_FORMAT_VERSION"
  "sh_slot_count (header_record st) = st_max_commands st"
  "sh_index_bytes (header_record st) = word_of_nat (index_bytes_for (st_max_commands st))"
  by (simp_all add: header_record_def Let_def)

lemma unat_index_bytes: "unat (word_of_nat (index_bytes_for n) :: 16 word) = index_bytes_for n"
proof -
  have "unat n < 2 ^ LENGTH(8)" by (rule unsigned_less)
  then have "index_bytes_for n < 2 ^ LENGTH(16)" by (simp add: index_bytes_for_def sizeof_defs)
  then show ?thesis by (simp only: unat_of_nat mod_less)
qed

section \<open>Lemmas: keys\<close>

text \<open>The key constant of a slot is multiplied by is odd, so it has an inverse modulo 2^32.\<close>

lemma slot_factor_inverse: "0x144CBC89 * (0x9E3779B9 * x) = (x :: 32 word)"
proof -
  have "(0x144CBC89 * 0x9E3779B9 :: 32 word) = 1" by simp
  then show ?thesis by (simp only: mult.assoc [symmetric] mult_1)
qed

lemma key_values: "KEY_HEADER = 0x72D70E56" "KEY_INDEX = 0x5EF14A59" "KEY_PAYLOAD_BASE = 0x4D62902C"
  by code_simp+

lemma xor_cancel_left: "(a :: 'a::len word) XOR b = c \<longleftrightarrow> b = a XOR c"
  by (metis xor.assoc xor_self_eq xor.left_neutral)

lemma xor_cancel_right: "(a :: 'a::len word) XOR c = b XOR c \<longleftrightarrow> a = b"
  by (metis xor.assoc xor_self_eq xor.right_neutral)

lemma payload_key_eq: "payload_key s = k \<longleftrightarrow> ucast s + 1 = 0x144CBC89 * (KEY_PAYLOAD_BASE XOR k)"
proof -
  have "0x9E3779B9 * x = y \<longleftrightarrow> x = 0x144CBC89 * (y :: 32 word)" for x y
  proof
    assume "x = 0x144CBC89 * y"
    moreover have "(0x9E3779B9 * 0x144CBC89 :: 32 word) = 1" by simp
    ultimately show "0x9E3779B9 * x = y" by (simp only: mult.assoc [symmetric] mult_1)
  qed (use slot_factor_inverse in metis)
  then show ?thesis unfolding payload_key_def xor_cancel_left
    by (simp only: xor.commute)
qed

lemma slot_number: "unat (ucast (s :: 8 word) + 1 :: 32 word) = unat s + 1"
proof -
  have "unat s < 2 ^ LENGTH(8)" by (rule unsigned_less)
  then show ?thesis by (simp add: unat_word_ariths unsigned_ucast_eq take_bit_nat_eq_self)
qed

lemma payload_key_inj: "payload_key s = payload_key t \<longleftrightarrow> s = t"
proof
  assume "payload_key s = payload_key t"
  then have "ucast s + 1 = (ucast t + 1 :: 32 word)" using payload_key_eq by metis
  then have "unat s = unat t" using slot_number [of s] slot_number [of t] by simp
  then show "s = t" by (rule word_unat_eq_iff [THEN iffD2])
qed simp

lemma payload_key_other: "payload_key s \<noteq> KEY_HEADER" "payload_key s \<noteq> KEY_INDEX"
proof -
  have "unat s < 2 ^ LENGTH(8)" by (rule unsigned_less)
  then have small: "unat (ucast s + 1 :: 32 word) \<le> 256" by (simp add: slot_number)
  show "payload_key s \<noteq> KEY_HEADER" "payload_key s \<noteq> KEY_INDEX"
    using small by (auto simp: payload_key_eq key_values)
qed

lemma keys_distinct:
  "st_header_key st \<noteq> st_index_key st" "st_index_key st \<noteq> st_header_key st"
  "st_payload_key st i \<noteq> st_header_key st" "st_header_key st \<noteq> st_payload_key st i"
  "st_payload_key st i \<noteq> st_index_key st" "st_index_key st \<noteq> st_payload_key st i"
  using payload_key_other [of "word_of_nat i"]
  by (auto simp: st_header_key_def st_index_key_def st_payload_key_def xor_cancel_right key_values)

lemma payload_keys_distinct:
  assumes "i < 256" and "j < 256"
  shows "st_payload_key st i = st_payload_key st j \<longleftrightarrow> i = j"
proof
  assume "st_payload_key st i = st_payload_key st j"
  then have "(word_of_nat i :: 8 word) = word_of_nat j" by (simp add: st_payload_key_def xor_cancel_right payload_key_inj)
  then have "unat (word_of_nat i :: 8 word) = unat (word_of_nat j :: 8 word)" by simp
  with assms show "i = j" by (simp add: unat_of_nat)
qed simp

section \<open>A registry as it stands on flash\<close>

definition payloads :: "'b storage \<Rightarrow> command_store \<Rightarrow> 'b \<Rightarrow> bool" where
  "payloads B st b \<longleftrightarrow>
     (\<forall>i < length (st_slots st). occupied (st_slots st ! i) \<longrightarrow>
        fst (sb_load B (st_payload_key st i) (4 * length (cmd_timings (st_slots st ! i))) b) =
          Some (bytes_of_timings (cmd_timings (st_slots st ! i))))"

definition persisted :: "'b storage \<Rightarrow> command_store \<Rightarrow> 'b \<Rightarrow> bool" where
  "persisted B st b \<longleftrightarrow>
     fst (sb_load B (st_header_key st) SIZEOF_HEADER b) = Some (encode_header (header_record st)) \<and>
     fst (sb_load B (st_index_key st) (index_bytes_for (st_max_commands st)) b) = Some (index_record st) \<and>
     payloads B st b"

text \<open>The same configuration: the limits and the keys, which no operation changes.\<close>

definition same_config :: "command_store \<Rightarrow> command_store \<Rightarrow> bool" where
  "same_config st st' \<longleftrightarrow>
     st_has_backend st' = st_has_backend st \<and> st_max_commands st' = st_max_commands st \<and>
     st_max_pulses st' = st_max_pulses st \<and> st_max_storage_bytes st' = st_max_storage_bytes st \<and>
     st_key_salt st' = st_key_salt st"

text \<open>A device started again on what is on its flash, with the same configuration.\<close>

definition reboot ::
  "'b storage \<Rightarrow> byte list option \<Rightarrow> command_store \<Rightarrow> 'b \<Rightarrow> load_report \<times> command_store \<times> 'b" where
  "reboot B random st b = store_begin B random
     (configure True (st_max_commands st) (st_max_pulses st) (st_max_storage_bytes st) (st_key_salt st) new_store) b"

lemma same_config_keys:
  "same_config st st' \<Longrightarrow> st_header_key st' = st_header_key st \<and> st_index_key st' = st_index_key st \<and>
     st_payload_key st' = st_payload_key st \<and> header_record st' = header_record st"
  by (auto simp: same_config_def st_header_key_def st_index_key_def st_payload_key_def header_record_def fun_eq_iff)

section \<open>Lemmas of the interface\<close>

lemma payloads_cong:
  assumes "\<And>i n. i < length (st_slots st) \<Longrightarrow>
    fst (sb_load B (st_payload_key st i) n b') = fst (sb_load B (st_payload_key st i) n b)"
  shows "payloads B st b' \<longleftrightarrow> payloads B st b"
  using assms by (auto simp: payloads_def)

context storage_backend
begin

text \<open>Two storages that read alike hold the same registry.\<close>

lemma persisted_cong:
  assumes "\<And>k n. fst (sb_load B k n b') = fst (sb_load B k n b)"
  shows "persisted B st b' \<longleftrightarrow> persisted B st b"
  using assms by (simp add: persisted_def payloads_def)

lemma write_index_other:
  assumes "write_index B st b = (r, b')" and "k \<noteq> st_index_key st" and "k \<noteq> st_header_key st"
  shows "fst (sb_load B k n b') = fst (sb_load B k n b)"
proof -
  obtain s b1 where one: "sb_save B (st_index_key st) (index_record st) b = (s, b1)" by (metis surj_pair)
  have first: "fst (sb_load B k n b1) = fst (sb_load B k n b)"
    using save_done save_refused one assms(2) by (cases s) auto
  show ?thesis
  proof (cases s)
    case True
    with assms(1) one have "sb_save B (st_header_key st) (encode_header (header_record st)) b1 = (r, b')"
      by (simp add: write_index_def)
    with first save_done save_refused assms(3) show ?thesis by (cases r) auto
  qed (use first one assms(1) in \<open>auto simp: write_index_def\<close>)
qed

text \<open>
  Writing the index of a changed registry whose payloads are in place leaves the old registry or
  the new one, and the new one when it reports success.
\<close>

lemma write_index_atomic:
  assumes old: "persisted B st b" and same: "same_config st st'" and ready: "payloads B st' b"
    and id: "length (st_bridge_id st') = BRIDGE_ID_BYTES" and run: "write_index B st' b = (r, b')"
  shows "(if r then persisted B st' b' else persisted B st b' \<or> persisted B st' b')"
proof -
  note keys = same_config_keys [OF same]
  have kept: "payloads B st b'" "payloads B st' b'"
  proof -
    have "fst (sb_load B (st_payload_key st' i) n b') = fst (sb_load B (st_payload_key st' i) n b)" for i n
      using run keys_distinct by (intro write_index_other [OF run]) auto
    with ready old keys show "payloads B st b'" "payloads B st' b'"
      by (auto simp: payloads_def persisted_def)
  qed
  obtain s b1 where one: "sb_save B (st_index_key st') (index_record st') b = (s, b1)" by (metis surj_pair)
  show ?thesis
  proof (cases s)
    case False
    with one run have "r = False" "b' = b1" by (simp_all add: write_index_def)
    with False one save_refused old kept(1) show ?thesis by (simp add: persisted_def)
  next
    case True
    with one run have two: "sb_save B (st_header_key st') (encode_header (header_record st')) b1 = (r, b')"
      by (simp add: write_index_def)
    have len: "length (index_record st') = index_bytes_for (st_max_commands st')" by (rule length_index_record [OF id])
    have index: "fst (sb_load B (st_index_key st') (index_bytes_for (st_max_commands st')) b') = Some (index_record st')"
      using two one True save_done [of "st_index_key st'" "index_record st'" b b1] len keys_distinct(2) [of st']
        save_done [of "st_header_key st'" _ b1 b'] save_refused [of "st_header_key st'" _ b1 b']
      by (cases r) auto
    have header: "fst (sb_load B (st_header_key st') SIZEOF_HEADER b') = Some (encode_header (header_record st'))"
    proof (cases r)
      case True
      with two save_done [of "st_header_key st'" "encode_header (header_record st')" b1 b'] show ?thesis by simp
    next
      case False
      with two save_refused [of "st_header_key st'" _ b1 b'] \<open>s\<close> one keys keys_distinct(1) [of st']
        save_done [of "st_index_key st'" "index_record st'" b b1] old
      show ?thesis by (auto simp: persisted_def)
    qed
    from index header kept(2) show ?thesis by (simp add: persisted_def)
  qed
qed

lemma persist_index_atomic:
  assumes "persisted B st b" and "same_config st st'" and "payloads B st' b"
    and "length (st_bridge_id st') = BRIDGE_ID_BYTES" and "persist_index B undo st' b = (r, st'', b')"
  shows "(if r = OK then st'' = st' \<and> persisted B st' b' else persisted B st b' \<or> persisted B st' b')"
proof -
  obtain s b1 where one: "write_index B st' b = (s, b1)" by (metis surj_pair)
  note at = write_index_atomic [OF assms(1-4) one]
  have "persisted B st' (snd (sb_sync B b1)) \<longleftrightarrow> persisted B st' b1"
    by (rule persisted_cong) (rule sync_keeps)
  with at one assms(5) show ?thesis by (auto simp: persist_index_def split: if_splits)
qed

text \<open>A payload written to a slot that the registry on flash does not use.\<close>

lemma write_payload_free:
  assumes old: "persisted B st b" and same: "same_config st st'" and i: "i < 256"
    and len: "length (st_slots st) \<le> 256" and free: "i < length (st_slots st) \<longrightarrow> \<not> occupied (st_slots st ! i)"
    and run: "write_payload B st' i b = (r, b')"
  shows "persisted B st b'"
    and "r \<Longrightarrow> fst (sb_load B (st_payload_key st' i) (4 * length (cmd_timings (st_slots st' ! i))) b') =
      Some (bytes_of_timings (cmd_timings (st_slots st' ! i)))"
proof -
  note keys = same_config_keys [OF same]
  from run have save: "sb_save B (st_payload_key st i) (bytes_of_timings (cmd_timings (st_slots st' ! i))) b = (r, b')"
    by (simp add: write_payload_def keys)
  have other: "fst (sb_load B k n b') = fst (sb_load B k n b)" if "k \<noteq> st_payload_key st i" for k n
    using save save_done save_refused that by (cases r) auto
  show "persisted B st b'"
  proof -
    have "payloads B st b'" unfolding payloads_def
    proof (intro allI impI)
      fix j assume j: "j < length (st_slots st)" "occupied (st_slots st ! j)"
      with free have "j \<noteq> i" by auto
      with i j(1) len payload_keys_distinct [of j i st] have "st_payload_key st j \<noteq> st_payload_key st i" by simp
      with other old j show "fst (sb_load B (st_payload_key st j) (4 * length (cmd_timings (st_slots st ! j))) b') =
          Some (bytes_of_timings (cmd_timings (st_slots st ! j)))"
        by (simp add: persisted_def payloads_def)
    qed
    with old keys_distinct(4,6) [of st i] show ?thesis by (simp add: persisted_def other)
  qed
  show "fst (sb_load B (st_payload_key st' i) (4 * length (cmd_timings (st_slots st' ! i))) b') =
      Some (bytes_of_timings (cmd_timings (st_slots st' ! i)))" if r
    using save_done [of _ _ b b'] save that by (simp add: keys)
qed

end

section \<open>Lemmas: loading\<close>

lemma command_ok_name:
  assumes "command_ok st c"
  shows "length (cmd_name c) < NAME_BUF_LEN" and "cmd_name c \<noteq> ''''" and "CHR 0x00 \<notin> set (cmd_name c)"
proof -
  have "list_all store_name_char (cmd_name c)" and "length (cmd_name c) < NAME_BUF_LEN" and "cmd_name c \<noteq> ''''"
    using assms by (simp_all add: command_ok_def validate_name_def store_consts split: if_splits)
  moreover have "\<not> store_name_char (CHR 0x00)" by (simp add: store_name_char_def)
  ultimately show "length (cmd_name c) < NAME_BUF_LEN" and "cmd_name c \<noteq> ''''" and "CHR 0x00 \<notin> set (cmd_name c)"
    by (auto simp: list_all_iff)
qed

lemma name_buffer_last: "length s < n \<Longrightarrow> (name_buffer n s)[n - 1 := 0] = name_buffer n s"
  by (rule list_update_same_conv [THEN iffD2])
    (auto simp: length_name_buffer name_buffer_def Let_def nth_append)

lemma name_buffer_first:
  "s \<noteq> '''' \<Longrightarrow> CHR 0x00 \<notin> set s \<Longrightarrow> length s < n \<Longrightarrow> name_buffer n s ! 0 \<noteq> 0"
  by (cases s) (auto simp: name_buffer_def nth_append byte_of_char_0)

lemma pulse_count_word:
  assumes "command_ok st c"
  shows "unat (word_of_nat (length (cmd_timings c)) :: 16 word) = length (cmd_timings c)"
proof -
  have "unat (st_max_pulses st) < 2 ^ LENGTH(16)" by (rule unsigned_less)
  with assms have "length (cmd_timings c) < 2 ^ LENGTH(16)" by (simp add: command_ok_def)
  then show ?thesis by (simp only: unat_of_nat mod_less)
qed

text \<open>The store while slots below \<open>k\<close> have been loaded.\<close>

definition loaded_upto :: "command_store \<Rightarrow> nat \<Rightarrow> command_store" where
  "loaded_upto st k =
     st\<lparr>st_slots := take k (st_slots st) @ replicate (length (st_slots st) - k) empty_command\<rparr>"

lemma loaded_upto_Suc:
  assumes "k < length (st_slots st)"
  shows "loaded_upto st (Suc k) =
    (loaded_upto st k)\<lparr>st_slots := (st_slots (loaded_upto st k))[k := st_slots st ! k]\<rparr>"
proof -
  have "replicate (length (st_slots st) - k) empty_command =
      empty_command # replicate (length (st_slots st) - Suc k) empty_command"
    using assms by (metis Suc_diff_Suc replicate_Suc)
  with assms show ?thesis by (simp add: loaded_upto_def take_Suc_conv_app_nth list_update_append)
qed

lemma loaded_upto_config [simp]:
  "st_max_commands (loaded_upto st k) = st_max_commands st" "st_max_pulses (loaded_upto st k) = st_max_pulses st"
  "st_payload_key (loaded_upto st k) = st_payload_key st" "length (st_slots (loaded_upto st k)) = max (length (st_slots st)) (min k (length (st_slots st)))"
  by (auto simp: loaded_upto_def st_payload_key_def fun_eq_iff)

definition clean_report :: "load_report \<Rightarrow> bool" where
  "clean_report report \<longleftrightarrow> \<not> lr_read_only report \<and> lr_fault report = FAULT_NONE \<and>
     lr_payload_faults report = 0 \<and> lr_dropped_unfittable report = 0 \<and> \<not> lr_header_invalid report \<and>
     \<not> lr_version_mismatch report"

context storage_backend
begin

lemma load_slot_free:
  assumes ok: "store_ok st" and k: "k < length (st_slots st)" and free: "\<not> occupied (st_slots st ! k)"
  shows "load_slot B (index_record st) k (report, loaded_upto st k, b) = (report, loaded_upto st (Suc k), b)"
proof -
  have id: "length (st_bridge_id st) = BRIDGE_ID_BYTES" and n: "length (st_slots st) = unat (st_max_commands st)"
    using ok by (simp_all add: store_ok_def)
  have "st_slots st ! k = empty_command" using ok k free by (metis nth_mem store_ok_def)
  moreover have "st_slots (loaded_upto st k) ! k = empty_command"
    using k by (simp add: loaded_upto_def nth_append)
  ultimately have "loaded_upto st (Suc k) = loaded_upto st k"
    using list_update_id [of "st_slots (loaded_upto st k)" k] by (simp add: loaded_upto_Suc [OF k])
  moreover have "slot_record (st_slots st ! k) = zero_slot" using free by (simp add: slot_record_def)
  ultimately show ?thesis
    using index_record_slot [OF id, of k] k n
    by (simp add: load_slot_def Let_def zero_slot_def COMMAND_ID_NONE_def)
qed

lemma load_slot_occupied:
  assumes ok: "store_ok st" and k: "k < length (st_slots st)" and occ: "occupied (st_slots st ! k)"
    and payload: "payloads B st b"
  shows "load_slot B (index_record st) k (report, loaded_upto st k, b) =
    (report\<lparr>lr_loaded := lr_loaded report + 1\<rparr>, loaded_upto st (Suc k),
     snd (sb_load B (st_payload_key st k) (4 * length (cmd_timings (st_slots st ! k))) b))"
proof -
  let ?c = "st_slots st ! k"
  have id: "length (st_bridge_id st) = BRIDGE_ID_BYTES" and n: "length (st_slots st) = unat (st_max_commands st)"
    using ok by (simp_all add: store_ok_def)
  have c: "command_ok st ?c" using store_ok_nth [OF ok k occ] .
  note name = command_ok_name [OF c]
  note pulses = pulse_count_word [OF c]
  have count: "(word_of_nat (length (cmd_timings ?c)) :: 16 word) \<noteq> 0"
    "\<not> (word_of_nat (length (cmd_timings ?c)) :: 16 word) > st_max_pulses st"
    using c pulses by (auto simp: command_ok_def word_less_nat_alt)
  obtain l where load: "sb_load B (st_payload_key st k) (4 * length (cmd_timings ?c)) b =
      (Some (bytes_of_timings (cmd_timings ?c)), l)"
    using payload k occ by (metis eq_fst_iff payloads_def)
  have rest: "\<lparr>cmd_id = cmd_id ?c, cmd_name = cmd_name ?c, cmd_timings = cmd_timings ?c, cmd_gap_us = cmd_gap_us ?c,
      cmd_repeat_times = cmd_repeat_times ?c, cmd_frequency_hz = cmd_frequency_hz ?c,
      cmd_modulation = cmd_modulation ?c\<rparr> = ?c" by simp
  show ?thesis
    using index_record_slot [OF id, of k] k n occ name count load
      name_buffer_last [OF name(1)] name_buffer_first [OF name(2,3,1)] c_string_name_buffer [OF name(1,3)]
    by (simp add: load_slot_def Let_def slot_record_def occupied_def pulses mult.commute [of _ 4] rest loaded_upto_Suc)
qed

lemma load_slots:
  assumes ok: "store_ok st" and "payloads B st b" and "k \<le> length (st_slots st)" and "clean_report report"
  shows "\<exists>report' b'. fold (load_slot B (index_record st)) [0..<k] (report, loaded_upto st 0, b) =
      (report', loaded_upto st k, b') \<and> clean_report report' \<and>
      (\<forall>key n. fst (sb_load B key n b') = fst (sb_load B key n b)) \<and> payloads B st b'"
  using assms(3)
proof (induction k)
  case 0
  with assms show ?case by auto
next
  case (Suc k)
  then obtain report' b' where run: "fold (load_slot B (index_record st)) [0..<k] (report, loaded_upto st 0, b) =
      (report', loaded_upto st k, b')" and clean: "clean_report report'" and reads: "\<forall>key n. fst (sb_load B key n b') = fst (sb_load B key n b)"
    and pay: "payloads B st b'" by auto
  have k: "k < length (st_slots st)" using Suc.prems by simp
  show ?case
  proof (cases "occupied (st_slots st ! k)")
    case False
    with run clean reads pay load_slot_free [OF ok k False] show ?thesis by simp
  next
    case True
    have "payloads B st (snd (sb_load B key n b')) \<longleftrightarrow> payloads B st b'" for key n
      by (rule payloads_cong) (rule load_pure)
    with run clean reads pay load_slot_occupied [OF ok k True pay] show ?thesis
      by (simp add: load_pure clean_report_def)
  qed
qed

end

text \<open>A store that was started and is not read-only.\<close>

definition in_service :: "command_store \<Rightarrow> bool" where
  "in_service st \<longleftrightarrow> store_ok st \<and> st_has_backend st \<and> \<not> st_read_only st \<and> st_fault st = FAULT_NONE \<and>
     st_max_commands st \<noteq> 0"

lemma configured_loaded:
  assumes "in_service st"
  shows "(configure True (st_max_commands st) (st_max_pulses st) (st_max_storage_bytes st) (st_key_salt st) new_store)
      \<lparr>st_bridge_id := st_bridge_id st, st_next_command_id := st_next_command_id st, st_revision := st_revision st,
       st_restore_state := st_restore_state st\<rparr> = loaded_upto st 0"
  using assms
  by (cases st) (simp add: in_service_def store_ok_def configure_def new_store_def loaded_upto_def)

lemma configure_simps [simp]:
  "st_max_commands (configure h mc mp ms salt st) = mc" "st_has_backend (configure h mc mp ms salt st) = h"
  "st_key_salt (configure h mc mp ms salt st) = salt"
  "(configure h mc mp ms salt new_store)\<lparr>st_read_only := False, st_fault := FAULT_NONE\<rparr> =
     configure h mc mp ms salt new_store"
  by (simp_all add: configure_def new_store_def)

context storage_backend
begin

lemma load_index_persisted:
  assumes serve: "in_service st" and "persisted B st b" and clean: "clean_report report"
  shows "\<exists>report' b'. load_index B (st_max_commands st) (word_of_nat (index_bytes_for (st_max_commands st)))
      (report, configure True (st_max_commands st) (st_max_pulses st) (st_max_storage_bytes st) (st_key_salt st) new_store, b) =
      (report', st, b') \<and> clean_report report' \<and> (\<forall>key n. fst (sb_load B key n b') = fst (sb_load B key n b))"
proof -
  have ok: "store_ok st" and id: "length (st_bridge_id st) = BRIDGE_ID_BYTES"
    and n: "length (st_slots st) = unat (st_max_commands st)"
    using serve by (simp_all add: in_service_def store_ok_def)
  obtain b1 where index: "sb_load B (st_index_key st) (index_bytes_for (st_max_commands st)) b = (Some (index_record st), b1)"
    using assms(2) by (metis eq_fst_iff persisted_def)
  have reads1: "fst (sb_load B key n b1) = fst (sb_load B key n b)" for key n
    using load_pure [of key n "st_index_key st" "index_bytes_for (st_max_commands st)" b] by (simp add: index)
  have pay: "payloads B st b1"
    using assms(2) payloads_cong [of st B b1 b] reads1 by (simp add: persisted_def)
  let ?report = "report\<lparr>lr_restore_incomplete := st_restore_state st \<noteq> 0, lr_slot_count_changed := False\<rparr>"
  from load_slots [OF ok pay, of "length (st_slots st)" ?report] clean
  obtain report' b' where loop: "fold (load_slot B (index_record st)) [0..<unat (st_max_commands st)]
      (?report, loaded_upto st 0, b1) = (report', st, b')" and fin: "clean_report report'"
    and reads: "\<forall>key n. fst (sb_load B key n b') = fst (sb_load B key n b1)"
    by (auto simp: clean_report_def n loaded_upto_def)
  have "lr_payload_faults report' = 0" using fin by (simp add: clean_report_def)
  then show ?thesis
    using index loop fin reads index_record_meta [OF id] index_record_crc [OF id] configured_loaded [OF serve]
    by (simp add: load_index_def unat_index_bytes st_index_key_def Let_def meta_record_def reads1)
qed

lemma reboot_persisted:
  assumes serve: "in_service st" and per: "persisted B st b"
  shows "\<exists>report b'. reboot B random st b = (report, st, b') \<and> clean_report report \<and>
    (\<forall>key n. fst (sb_load B key n b') = fst (sb_load B key n b))"
proof -
  obtain b1 where header: "sb_load B (st_header_key st) SIZEOF_HEADER b = (Some (encode_header (header_record st)), b1)"
    using per by (metis eq_fst_iff persisted_def)
  have reads1: "fst (sb_load B key n b1) = fst (sb_load B key n b)" for key n
    using load_pure [of key n "st_header_key st" SIZEOF_HEADER b] by (simp add: header)
  have per1: "persisted B st b1" using per persisted_cong [of b1 b] reads1 by simp
  let ?report = "empty_report\<lparr>lr_had_stored_data := True, lr_stored_format_version := STORE_FORMAT_VERSION,
    lr_stored_slot_count := st_max_commands st\<rparr>"
  have "clean_report ?report" by (simp add: clean_report_def empty_report_def)
  from load_index_persisted [OF serve per1 this]
  show ?thesis
    using header header_record_crc [of st] serve
    by (auto simp: reboot_def store_begin_def Let_def decode_encode_header st_header_key_def in_service_def reads1)
qed

end

end
