(* ===== verification/StoreCrash.thy ===== *)
theory StoreCrash
  imports StoreFlash
begin

text \<open>
  What survives a power cut, operation by operation and over a history of calls: a mutation that
  reports success is what the next boot loads, after any history in which no relearn failed to be
  stored (\<open>calm\<close>); one that is cut short leaves the registry as it was before it or as it was meant
  to be, with one exception that is characterised here: overwriting a command, whose waveform is
  written over the old one before the index is. How a call ends on flash is \<open>writes\<close>, what it leaves
  there is \<open>settled\<close>.
\<close>

section \<open>Lemmas: what the operations leave alone\<close>

lemma same_config_refl [simp]: "same_config st st"
  by (simp add: same_config_def)

lemma payloads_same:
  assumes "payloads B st b" and "same_config st st'"
    and "\<And>i. i < length (st_slots st') \<Longrightarrow> occupied (st_slots st' ! i) \<Longrightarrow>
      i < length (st_slots st) \<and> occupied (st_slots st ! i) \<and> cmd_timings (st_slots st' ! i) = cmd_timings (st_slots st ! i)"
  shows "payloads B st' b"
  using assms same_config_keys [OF assms(2)] by (simp add: payloads_def)

lemma nth_list_update_if: "j < length xs \<Longrightarrow> xs[i := c] ! j = (if i = j then c else xs ! j)"
  by (cases "i = j") simp_all

lemma persisted_payloads: "persisted B st b \<Longrightarrow> payloads B st b"
  by (simp add: persisted_def)

lemma store_ok_length: "store_ok st \<Longrightarrow> length (st_slots st) < 256"
proof -
  assume "store_ok st"
  moreover have "unat (st_max_commands st) < 2 ^ LENGTH(8)" by (rule unsigned_less)
  ultimately show ?thesis by (simp add: store_ok_def)
qed

lemma store_ok_id: "store_ok st \<Longrightarrow> length (st_bridge_id st) = BRIDGE_ID_BYTES"
  by (simp add: store_ok_def)

lemma intended_config: "intended op st = (r, st') \<Longrightarrow> same_config st st'"
  by (cases op) (auto simp: intended_def put_def rename_def remove_def remove_by_id_def clear_all_def restore_begin_def
      import_command_def restore_commit_def factory_reset_def mint_identity_def Let_def same_config_def
      split: if_splits option.splits sum.splits prod.splits)

section \<open>Outcomes on flash\<close>

text \<open>
  Of an outcome and the intended one: after a success the resulting registry is on flash, and in any
  case the registry from before or the intended one is.
\<close>

definition lasting ::
  "'b storage \<Rightarrow> command_store \<Rightarrow> store_result \<times> command_store \<times> 'b \<Rightarrow> store_result \<times> command_store \<times> unit \<Rightarrow> bool" where
  "lasting B st x y \<longleftrightarrow>
     (fst x = OK \<longrightarrow> persisted B (fst (snd x)) (snd (snd x))) \<and>
     (persisted B st (snd (snd x)) \<or> persisted B (fst (snd y)) (snd (snd x)))"

lemma lasting_refl: "persisted B st b \<Longrightarrow> lasting B st (r, st, b) (r', st', u)"
  by (simp add: lasting_def)

context storage_backend
begin

lemma lasting_persist_index:
  assumes "persisted B st b" and "same_config st s" and "payloads B s b" and "length (st_bridge_id s) = BRIDGE_ID_BYTES"
  shows "lasting B st (persist_index B undo s b) (OK, s, u)"
proof -
  obtain r s' b' where run: "persist_index B undo s b = (r, s', b')" by (metis prod_cases3)
  from persist_index_atomic [OF assms run] run show ?thesis by (cases "r = OK") (auto simp: lasting_def)
qed

lemma lasting_persist_slot:
  assumes ok: "store_ok st" and per: "persisted B st b" and free: "find_free_slot st = Some i"
    and same: "same_config st s" and slots: "st_slots s = (st_slots st)[i := c]"
    and id: "length (st_bridge_id s) = BRIDGE_ID_BYTES"
  shows "lasting B st (persist_slot B i undo s b) (OK, s, u)"
proof -
  note i = find_free_slot_SomeD [OF free] and len = store_ok_length [OF ok]
  obtain w b1 where pay: "write_payload B s i b = (w, b1)" by (metis surj_pair)
  have args: "i < 256" "length (st_slots st) \<le> 256" "i < length (st_slots st) \<longrightarrow> \<not> occupied (st_slots st ! i)"
    using i len by auto
  note wrote = write_payload_free [OF per same args pay]
  show ?thesis
  proof (cases w)
    case False
    with pay wrote(1) show ?thesis by (simp add: persist_slot_def lasting_def)
  next
    case True
    have "payloads B s b1"
      unfolding payloads_def
    proof (intro allI impI)
      fix j assume j: "j < length (st_slots s)" "occupied (st_slots s ! j)"
      show "fst (sb_load B (st_payload_key s j) (4 * length (cmd_timings (st_slots s ! j))) b1) =
          Some (bytes_of_timings (cmd_timings (st_slots s ! j)))"
      proof (cases "j = i")
        case True
        with wrote(2) \<open>w\<close> show ?thesis by simp
      next
        case False
        with j wrote(1) slots same_config_keys [OF same] show ?thesis
          by (simp add: persisted_def payloads_def)
      qed
    qed
    from lasting_persist_index [OF wrote(1) same this id] pay True show ?thesis
      by (simp add: persist_slot_def)
  qed
qed

lemma rename_lasting:
  assumes ok: "store_ok st" and per: "persisted B st b"
  shows "lasting B st (rename B k nm st b) (rename perfect_storage k nm st ())"
proof -
  have "lasting B st (persist_index B undo (st\<lparr>st_slots := (st_slots st)[i := (st_slots st ! i)\<lparr>cmd_name := nm\<rparr>],
      st_revision := v\<rparr>) b) (OK, st\<lparr>st_slots := (st_slots st)[i := (st_slots st ! i)\<lparr>cmd_name := nm\<rparr>], st_revision := v\<rparr>, ())"
    (is "lasting B st (persist_index B undo ?s b) _") for undo i v
  proof (rule lasting_persist_index [OF per])
    show "payloads B ?s b"
      by (rule payloads_same [OF persisted_payloads [OF per]]) (auto simp: same_config_def nth_list_update_if split: if_splits)
  qed (use ok in \<open>simp_all add: same_config_def store_ok_id\<close>)
  with per show ?thesis by (simp add: rename_def Let_def lasting_refl split: option.split)
qed

lemma remove_by_id_lasting:
  assumes ok: "store_ok st" and per: "persisted B st b"
  shows "lasting B st (remove_by_id B k st b) (remove_by_id perfect_storage k st ())"
proof -
  have "lasting B st (persist_index B undo (st\<lparr>st_slots := (st_slots st)[i := empty_command], st_revision := v\<rparr>) b)
      (OK, st\<lparr>st_slots := (st_slots st)[i := empty_command], st_revision := v\<rparr>, ())"
    (is "lasting B st (persist_index B undo ?s b) _") for undo i v
  proof (rule lasting_persist_index [OF per])
    show "payloads B ?s b"
      by (rule payloads_same [OF persisted_payloads [OF per]])
        (auto simp: same_config_def nth_list_update_if split: if_splits)
  qed (use ok in \<open>simp_all add: same_config_def store_ok_id\<close>)
  with per show ?thesis by (simp add: remove_by_id_def Let_def lasting_refl split: option.split)
qed

lemma remove_lasting:
  assumes "store_ok st" and "persisted B st b"
  shows "lasting B st (remove B nm st b) (remove perfect_storage nm st ())"
  using assms by (simp add: remove_def lasting_refl remove_by_id_lasting split: option.split)

lemma clear_all_lasting:
  assumes ok: "store_ok st" and per: "persisted B st b"
  shows "lasting B st (clear_all B st b) (clear_all perfect_storage st ())"
proof -
  have "lasting B st (persist_index B undo (st\<lparr>st_slots := replicate n empty_command, st_restore_state := 0, st_revision := v\<rparr>) b)
      (OK, st\<lparr>st_slots := replicate n empty_command, st_restore_state := 0, st_revision := v\<rparr>, ())" for undo n v
    using ok per by (intro lasting_persist_index) (simp_all add: same_config_def store_ok_id payloads_def)
  with per show ?thesis by (simp add: clear_all_def Let_def lasting_refl split: option.split)
qed

lemma restore_begin_lasting:
  assumes ok: "store_ok st" and per: "persisted B st b" and "length bid = BRIDGE_ID_BYTES"
  shows "lasting B st (restore_begin B bid n st b) (restore_begin perfect_storage bid n st ())"
proof -
  have "lasting B st (persist_index B undo (st\<lparr>st_bridge_id := bid, st_next_command_id := n, st_restore_state := 1,
        st_revision := v\<rparr>) b)
      (OK, st\<lparr>st_bridge_id := bid, st_next_command_id := n, st_restore_state := 1, st_revision := v\<rparr>, ())"
    (is "lasting B st (persist_index B undo ?s b) _") for undo v
  proof (rule lasting_persist_index [OF per])
    show "payloads B ?s b"
      by (rule payloads_same [OF persisted_payloads [OF per]]) (auto simp: same_config_def)
  qed (use assms in \<open>simp_all add: same_config_def\<close>)
  with per show ?thesis by (simp add: restore_begin_def Let_def lasting_refl split: option.split)
qed

lemma restore_commit_lasting:
  assumes ok: "store_ok st" and per: "persisted B st b"
  shows "lasting B st (restore_commit B v st b) (restore_commit perfect_storage v st ())"
proof -
  have "lasting B st (persist_index B undo (st\<lparr>st_restore_state := 0, st_revision := w\<rparr>) b)
      (OK, st\<lparr>st_restore_state := 0, st_revision := w\<rparr>, ())" (is "lasting B st (persist_index B undo ?s b) _") for undo w
  proof (rule lasting_persist_index [OF per])
    show "payloads B ?s b"
      by (rule payloads_same [OF persisted_payloads [OF per]]) (auto simp: same_config_def)
  qed (use ok in \<open>simp_all add: same_config_def store_ok_id\<close>)
  with per show ?thesis by (simp add: restore_commit_def Let_def lasting_refl split: option.split)
qed

lemma import_command_lasting:
  assumes ok: "store_ok st" and per: "persisted B st b"
  shows "lasting B st (import_command B c st b) (import_command perfect_storage c st ())"
proof -
  have "lasting B st (persist_slot B i undo (st\<lparr>st_slots := (st_slots st)[i := c], st_revision := v\<rparr>) b)
      (OK, st\<lparr>st_slots := (st_slots st)[i := c], st_revision := v\<rparr>, ())" if "find_free_slot st = Some i" for i undo v
    using ok by (intro lasting_persist_slot [OF ok per that]) (simp_all add: same_config_def store_ok_id)
  with per show ?thesis by (simp add: import_command_def Let_def lasting_refl split: option.split)
qed

lemma put_lasting:
  assumes ok: "store_ok st" and per: "persisted B st b" and new: "\<not> has (cmd_name c) st"
  shows "lasting B st (put B c st b) (put perfect_storage c st ())"
proof -
  have "lasting B st (persist_slot B i undo (st\<lparr>st_slots := (st_slots st)[i := c'], st_next_command_id := n, st_revision := v\<rparr>) b)
      (OK, st\<lparr>st_slots := (st_slots st)[i := c'], st_next_command_id := n, st_revision := v\<rparr>, ())"
    if "find_free_slot st = Some i" for i undo v n c'
    using ok by (intro lasting_persist_slot [OF ok per that]) (simp_all add: same_config_def store_ok_id)
  with per new show ?thesis
    by (simp add: put_def put_slot_def has_def Let_def lasting_refl split: option.split)
qed

end
section \<open>Lemmas: success is lasting\<close>

lemma put_slot_Inl: "put_slot c st = Inl OK \<Longrightarrow> False"
  by (simp add: put_slot_def split: option.splits if_splits)

lemma lasting_done: "lasting B st x y \<Longrightarrow> x = (OK, s, b') \<Longrightarrow> persisted B s b'"
  by (simp add: lasting_def)

context storage_backend
begin

lemma index_written:
  assumes run: "write_index B st b = (True, b')" and id: "length (st_bridge_id st) = BRIDGE_ID_BYTES"
  shows "fst (sb_load B (st_header_key st) SIZEOF_HEADER b') = Some (encode_header (header_record st))"
    and "fst (sb_load B (st_index_key st) (index_bytes_for (st_max_commands st)) b') = Some (index_record st)"
    and "fst (sb_load B (st_payload_key st i) n b') = fst (sb_load B (st_payload_key st i) n b)"
proof -
  obtain s b1 where one: "sb_save B (st_index_key st) (index_record st) b = (s, b1)" by (metis surj_pair)
  with run have s: "s = True" and two: "sb_save B (st_header_key st) (encode_header (header_record st)) b1 = (True, b')"
    by (simp_all add: write_index_def split: if_splits)
  show "fst (sb_load B (st_payload_key st i) n b') = fst (sb_load B (st_payload_key st i) n b)"
    by (rule write_index_other [OF run]) (rule keys_distinct)+
  show "fst (sb_load B (st_header_key st) SIZEOF_HEADER b') = Some (encode_header (header_record st))"
    and "fst (sb_load B (st_index_key st) (index_bytes_for (st_max_commands st)) b') = Some (index_record st)"
    using save_done [OF one [unfolded s]] save_done [OF two] keys_distinct(2) [of st] length_index_record [OF id]
    by simp_all
qed

lemma write_index_done:
  assumes run: "write_index B st b = (True, b')" and pay: "payloads B st b"
    and id: "length (st_bridge_id st) = BRIDGE_ID_BYTES"
  shows "persisted B st b'"
  using index_written [OF run id] pay by (simp add: persisted_def payloads_def)

lemma persist_index_done:
  assumes "persist_index B undo s b = (OK, s', b')" and "payloads B s b" and "length (st_bridge_id s) = BRIDGE_ID_BYTES"
  shows "persisted B s' b'"
proof -
  obtain w b1 where one: "write_index B s b = (w, b1)" by (metis surj_pair)
  with assms(1) have w: "w = True" and "s' = s" "b' = snd (sb_sync B b1)"
    by (simp_all add: persist_index_def split: if_splits)
  moreover have "persisted B s (snd (sb_sync B b1)) \<longleftrightarrow> persisted B s b1" by (rule persisted_cong) (rule sync_keeps)
  ultimately show ?thesis using write_index_done [OF one [unfolded w] assms(2,3)] by simp
qed

text \<open>A payload written to any slot: it reads back, and the others are untouched.\<close>

lemma write_payload_reads:
  assumes run: "write_payload B s i b = (True, b')" and i: "i < 256" and len: "length (st_slots s) \<le> 256"
    and others: "\<And>j. j < length (st_slots s) \<Longrightarrow> j \<noteq> i \<Longrightarrow> occupied (st_slots s ! j) \<Longrightarrow>
      fst (sb_load B (st_payload_key s j) (4 * length (cmd_timings (st_slots s ! j))) b) =
        Some (bytes_of_timings (cmd_timings (st_slots s ! j)))"
  shows "payloads B s b'"
  unfolding payloads_def
proof (intro allI impI)
  fix j assume j: "j < length (st_slots s)" "occupied (st_slots s ! j)"
  have save: "sb_save B (st_payload_key s i) (bytes_of_timings (cmd_timings (st_slots s ! i))) b = (True, b')"
    using run by (simp add: write_payload_def)
  show "fst (sb_load B (st_payload_key s j) (4 * length (cmd_timings (st_slots s ! j))) b') =
      Some (bytes_of_timings (cmd_timings (st_slots s ! j)))"
  proof (cases "j = i")
    case False
    with payload_keys_distinct [of j i s] i j(1) len save_done [OF save] others [OF j(1) False j(2)] show ?thesis by simp
  qed (use save_done [OF save] in simp)
qed

lemma overwrite_done:
  assumes ok: "store_ok st" and per: "persisted B st b" and i: "i < length (st_slots st)"
    and run: "persist_slot B i undo s b = (OK, s', b')"
    and same: "same_config st s" and slots: "st_slots s = (st_slots st)[i := c]"
    and id: "length (st_bridge_id s) = BRIDGE_ID_BYTES"
  shows "persisted B s' b'"
proof -
  have small: "i < 256" "length (st_slots s) \<le> 256" using store_ok_length [OF ok] i slots by simp_all
  obtain w b1 where one: "write_payload B s i b = (w, b1)" by (metis surj_pair)
  with run have w: "w = True" and rest: "persist_index B undo s b1 = (OK, s', b')"
    by (simp_all add: persist_slot_def split: if_splits)
  have "payloads B s b1"
    using per same_config_keys [OF same]
    by (intro write_payload_reads [OF one [unfolded w] small]) (simp add: slots persisted_def payloads_def)
  from persist_index_done [OF rest this id] show ?thesis .
qed

lemma put_done:
  assumes ok: "store_ok st" and per: "persisted B st b" and run: "put B c st b = (OK, st', b')"
  shows "persisted B st' b'"
proof -
  from run obtain slot ov k v undo where slot: "put_slot c st = Inr (slot, ov, k)"
    and "persist_slot B slot undo (st\<lparr>st_slots := (st_slots st)[slot := c\<lparr>cmd_id := k\<rparr>],
      st_next_command_id := (if ov then st_next_command_id st else k + 1), st_revision := v\<rparr>) b = (OK, st', b')"
    unfolding put_def Let_def
    by (auto dest: put_slot_Inl split: if_splits sum.splits option.splits prod.splits)
  from overwrite_done [OF ok per put_slot_spec(1) [OF ok slot] this(2)] ok show ?thesis
    by (simp add: same_config_def store_ok_id)
qed

lemma factory_reset_done:
  assumes run: "factory_reset B random st b = (OK, st', b')" and typed: "op_typed (FactoryReset random)"
  shows "persisted B st' b'"
proof -
  define s where "s = mint_identity random (st\<lparr>st_slots := replicate (unat (st_max_commands st)) empty_command\<rparr>)"
  obtain w b1 where one: "write_index B s b = (w, b1)" by (metis surj_pair)
  with run have w: "w = True" and st': "st' = s\<lparr>st_read_only := False, st_fault := FAULT_NONE\<rparr>" and b': "b' = snd (sb_sync B b1)"
    by (simp_all add: factory_reset_def s_def [symmetric] Let_def split: if_splits)
  have "length (st_bridge_id s) = BRIDGE_ID_BYTES" using typed by (cases random) (simp_all add: s_def mint_identity_def)
  moreover have "payloads B s b" by (simp add: payloads_def s_def mint_identity_def)
  ultimately have "persisted B s b1" using write_index_done [OF one [unfolded w]] by simp
  then have "persisted B s b'" using persisted_cong [of b' b1] sync_keeps by (simp add: b')
  moreover have "persisted B st' b' \<longleftrightarrow> persisted B s b'"
    by (simp add: st' persisted_def payloads_def index_record_def index_body_def meta_record_def st_header_key_def
        st_index_key_def st_payload_key_def header_record_def cong: if_cong)
  ultimately show ?thesis by simp
qed

lemma exec_done:
  assumes ok: "store_ok st" and per: "persisted B st b" and run: "exec B op st b = (OK, st', b')" and typed: "op_typed op"
  shows "persisted B st' b'"
proof (cases op)
  case (Put c)
  with put_done [OF ok per] run show ?thesis by simp
next
  case (Rename k nm)
  with lasting_done [OF rename_lasting [OF ok per]] run show ?thesis by simp
next
  case (Remove nm)
  with lasting_done [OF remove_lasting [OF ok per]] run show ?thesis by simp
next
  case (RemoveById k)
  with lasting_done [OF remove_by_id_lasting [OF ok per]] run show ?thesis by simp
next
  case ClearAll
  with lasting_done [OF clear_all_lasting [OF ok per]] run show ?thesis by simp
next
  case (RestoreBegin bid n)
  with lasting_done [OF restore_begin_lasting [OF ok per]] run typed show ?thesis by simp
next
  case (ImportCommand c)
  with lasting_done [OF import_command_lasting [OF ok per]] run show ?thesis by simp
next
  case (RestoreCommit v)
  with lasting_done [OF restore_commit_lasting [OF ok per]] run show ?thesis by simp
next
  case (FactoryReset random)
  with factory_reset_done run typed show ?thesis by simp
qed

text \<open>Whatever a call's result: the registry from before, or the intended one, is what is on flash.\<close>

lemma exec_atomic:
  assumes ok: "store_ok st" and per: "persisted B st b" and run: "exec B op st b = (r, st', b')"
    and typed: "op_typed op" and "\<not> resets op" and new: "\<And>c. op = Put c \<Longrightarrow> \<not> has (cmd_name c) st"
  shows "persisted B st b' \<or> persisted B (snd (intended op st)) b'"
proof -
  have "lasting B st (exec B op st b) (exec perfect_storage op st ())"
    using assms(1,2,4-)
    by (cases op) (simp_all add: put_lasting rename_lasting remove_lasting remove_by_id_lasting clear_all_lasting
        restore_begin_lasting import_command_lasting restore_commit_lasting)
  with run show ?thesis by (auto simp: lasting_def intended_def split: prod.splits)
qed

end

section \<open>Lemmas: loading a damaged registry\<close>

text \<open>What is stored for a slot is not the waveform the registry has there.\<close>

definition unreadable :: "'b storage \<Rightarrow> command_store \<Rightarrow> nat \<Rightarrow> 'b \<Rightarrow> bool" where
  "unreadable B st i b \<longleftrightarrow>
     (case fst (sb_load B (st_payload_key st i) (4 * length (cmd_timings (st_slots st ! i))) b) of
        None \<Rightarrow> True
      | Some data \<Rightarrow> timings_crc (timings_of_bytes data) \<noteq> timings_crc (cmd_timings (st_slots st ! i)))"

lemma unreadable_cong:
  "(\<And>n. fst (sb_load B (st_payload_key st i) n b') = fst (sb_load B (st_payload_key st i) n b)) \<Longrightarrow>
     unreadable B st i b' \<longleftrightarrow> unreadable B st i b"
  by (simp add: unreadable_def)

text \<open>Loading one slot changes no configuration, adds at most one fault, and reads nothing away.\<close>

lemma load_slot_frame:
  assumes "load_slot B raw i (report, st, b) = (report', st', b')"
  shows "same_config st st'" and "lr_payload_faults report' \<in> {lr_payload_faults report, lr_payload_faults report + 1}"
  using assms
  by (auto simp: load_slot_def Let_def same_config_def split: if_splits prod.splits)

context storage_backend
begin

lemma load_slot_reads:
  "load_slot B raw i (report, st, b) = (report', st', b') \<Longrightarrow> fst (sb_load B k n b') = fst (sb_load B k n b)"
  using load_pure by (auto simp: load_slot_def Let_def split: if_splits prod.splits) (metis snd_conv)+

lemma load_slots_frame:
  assumes "fold (load_slot B raw) is (report, st, b) = (report', st', b')"
    and "unat (lr_payload_faults report) + length is < 256"
  shows "same_config st st' \<and> unat (lr_payload_faults report) \<le> unat (lr_payload_faults report') \<and>
    unat (lr_payload_faults report') \<le> unat (lr_payload_faults report) + length is \<and>
    fst (sb_load B k n b') = fst (sb_load B k n b)"
  using assms
proof (induction "is" arbitrary: report st b)
  case (Cons i js)
  obtain r1 s1 b1 where one: "load_slot B raw i (report, st, b) = (r1, s1, b1)" by (metis prod_cases3)
  note frame = load_slot_frame [OF one] and reads = load_slot_reads [OF one]
  have "unat (lr_payload_faults report + 1) = unat (lr_payload_faults report) + 1"
    using Cons.prems(2) by (simp add: unat_word_ariths)
  with frame(2) have faults: "unat (lr_payload_faults report) \<le> unat (lr_payload_faults r1)"
    "unat (lr_payload_faults r1) \<le> unat (lr_payload_faults report) + 1" by auto
  with Cons.prems one have "fold (load_slot B raw) js (r1, s1, b1) = (report', st', b')"
    and "unat (lr_payload_faults r1) + length js < 256" by auto
  note ih = Cons.IH [OF this]
  with frame(1) faults reads show ?case by (auto simp: same_config_def)
qed simp

text \<open>
  A slot whose payload does not read back under the length the index gives, or reads back with
  another checksum than the index gives, is a fault.
\<close>

lemma load_slot_fault:
  assumes ok: "store_ok st" and i: "i < length (st_slots st)" and occ: "occupied (st_slots st ! i)"
    and same: "same_config st s"
    and gone: "unreadable B st i b"
    and run: "load_slot B (index_record st) i (report, s, b) = (report', s', b')"
  shows "lr_payload_faults report' = lr_payload_faults report + 1"
proof -
  let ?c = "st_slots st ! i"
  have id: "length (st_bridge_id st) = BRIDGE_ID_BYTES" and n: "length (st_slots st) = unat (st_max_commands st)"
    using ok by (simp_all add: store_ok_def)
  have c: "command_ok st ?c" using store_ok_nth [OF ok i occ] .
  note name = command_ok_name [OF c] and pulses = pulse_count_word [OF c]
  have count: "(word_of_nat (length (cmd_timings ?c)) :: 16 word) \<noteq> 0"
    "\<not> (word_of_nat (length (cmd_timings ?c)) :: 16 word) > st_max_pulses st"
    using c pulses by (auto simp: command_ok_def word_less_nat_alt)
  have cfg: "st_max_commands s = st_max_commands st" "st_max_pulses s = st_max_pulses st" "st_payload_key s = st_payload_key st"
    using same same_config_keys [OF same] by (simp_all add: same_config_def)
  obtain loaded l where "sb_load B (st_payload_key st i) (4 * length (cmd_timings ?c)) b = (loaded, l)"
    and "loaded = None \<or> timings_crc (timings_of_bytes (the loaded)) \<noteq> timings_crc (cmd_timings ?c)"
    using gone by (cases "sb_load B (st_payload_key st i) (4 * length (cmd_timings ?c)) b")
      (auto simp: unreadable_def split: option.splits)
  with run index_record_slot [OF id, of i] i n occ name count cfg
    name_buffer_last [OF name(1)] name_buffer_first [OF name(2,3,1)]
  show ?thesis
    by (auto simp: load_slot_def Let_def slot_record_def occupied_def pulses mult.commute [of _ 4] split: if_splits)
qed

lemma load_slots_fault:
  assumes ok: "store_ok st" and i: "i < length (st_slots st)" and occ: "occupied (st_slots st ! i)"
    and same: "same_config st s"
    and gone: "unreadable B st i b"
    and zero: "lr_payload_faults report = 0"
    and run: "fold (load_slot B (index_record st)) [0..<unat (st_max_commands st)] (report, s, b) = (report', s', b')"
  shows "lr_payload_faults report' > 0"
proof -
  let ?f = "load_slot B (index_record st)"
  have n: "length (st_slots st) = unat (st_max_commands st)" using ok by (simp add: store_ok_def)
  have split: "[0..<unat (st_max_commands st)] = [0..<i] @ i # [Suc i..<unat (st_max_commands st)]"
    using i n by (metis add_0 le_add1 le_add_diff_inverse less_imp_le upt_add_eq_append upt_conv_Cons)
  have max: "unat (st_max_commands st) < 256" using store_ok_length [OF ok] n by simp
  obtain r1 s1 b1 where one: "fold ?f [0..<i] (report, s, b) = (r1, s1, b1)" by (metis prod_cases3)
  obtain r2 s2 b2 where two: "?f i (r1, s1, b1) = (r2, s2, b2)" by (metis prod_cases3)
  from run one two have three: "fold ?f [Suc i..<unat (st_max_commands st)] (r2, s2, b2) = (report', s', b')"
    by (simp add: split)
  note f1 = load_slots_frame [OF one, of "st_payload_key st i" "4 * length (cmd_timings (st_slots st ! i))"]
  have le: "unat (lr_payload_faults r1) \<le> i" and s1: "same_config st s1"
    and gone1: "unreadable B st i b1"
    using f1 zero i n max same gone by (auto simp: same_config_def unreadable_def)
  have "lr_payload_faults r2 = lr_payload_faults r1 + 1" by (rule load_slot_fault [OF ok i occ s1 gone1 two])
  then have r2: "unat (lr_payload_faults r2) = unat (lr_payload_faults r1) + 1"
    using le i n max by (simp add: unat_word_ariths)
  have "unat (lr_payload_faults r2) + length [Suc i..<unat (st_max_commands st)] < 256" using r2 le i n max by simp
  from load_slots_frame [OF three this, of 0 0] r2 have "0 < unat (lr_payload_faults report')" by linarith
  then show ?thesis by (simp add: word_less_nat_alt)
qed

end

context storage_backend
begin

lemma reboot_damaged:
  assumes serve: "in_service st" and i: "i < length (st_slots st)" and occ: "occupied (st_slots st ! i)"
    and header: "fst (sb_load B (st_header_key st) SIZEOF_HEADER b) = Some (encode_header (header_record st))"
    and index: "fst (sb_load B (st_index_key st) (index_bytes_for (st_max_commands st)) b) = Some (index_record st)"
    and gone: "unreadable B st i b"
    and run: "reboot B random st b = (report, st', b')"
  shows "lr_fault report = PAYLOAD_INVALID \<and> lr_read_only report \<and> st_read_only st'"
proof -
  have ok: "store_ok st" and id: "length (st_bridge_id st) = BRIDGE_ID_BYTES"
    using serve by (simp_all add: in_service_def store_ok_def)
  obtain b1 where l1: "sb_load B (st_header_key st) SIZEOF_HEADER b = (Some (encode_header (header_record st)), b1)"
    using header by (metis eq_fst_iff)
  have reads1: "fst (sb_load B key n b1) = fst (sb_load B key n b)" for key n
    using load_pure [of key n "st_header_key st" SIZEOF_HEADER b] by (simp add: l1)
  obtain b2 where l2: "sb_load B (st_index_key st) (index_bytes_for (st_max_commands st)) b1 = (Some (index_record st), b2)"
    using index reads1 by (metis eq_fst_iff)
  have reads2: "fst (sb_load B key n b2) = fst (sb_load B key n b)" for key n
    using load_pure [of key n "st_index_key st" "index_bytes_for (st_max_commands st)" b1] by (simp add: l2 reads1)
  let ?rep = "empty_report\<lparr>lr_had_stored_data := True, lr_stored_format_version := STORE_FORMAT_VERSION,
    lr_stored_slot_count := st_max_commands st, lr_restore_incomplete := st_restore_state st \<noteq> 0,
    lr_slot_count_changed := False\<rparr>"
  obtain r3 s3 b3 where loop: "fold (load_slot B (index_record st)) [0..<unat (st_max_commands st)]
      (?rep, loaded_upto st 0, b2) = (r3, s3, b3)" by (metis prod_cases3)
  have "same_config st (loaded_upto st 0)" by (simp add: same_config_def loaded_upto_def)
  from load_slots_fault [OF ok i occ this _ _ loop] gone have "lr_payload_faults r3 > 0"
    by (simp add: unreadable_cong [of B st i b2 b, OF reads2] empty_report_def)
  with run l1 l2 loop index_record_meta [OF id] index_record_crc [OF id] configured_loaded [OF serve]
    header_record_crc [of st] serve
  show ?thesis
    by (auto simp: reboot_def store_begin_def load_index_def Let_def decode_encode_header st_header_key_def
        st_index_key_def in_service_def unat_index_bytes meta_record_def enter_read_only_def)
qed

text \<open>
  A relearn whose new waveform has reached the flash and whose index has not: the old index now
  names a waveform that is gone.
\<close>

lemma relearn_cut_short:
  assumes per: "persisted B st b" and same: "same_config st s"
    and other: "length (cmd_timings (st_slots s ! i)) \<noteq> length (cmd_timings (st_slots st ! i)) \<or>
      timings_crc (cmd_timings (st_slots s ! i)) \<noteq> timings_crc (cmd_timings (st_slots st ! i))"
    and payload: "write_payload B s i b = (True, b1)" and cut: "sb_save B (st_index_key s) data b1 = (False, b2)"
  shows "fst (sb_load B (st_header_key st) SIZEOF_HEADER b2) = Some (encode_header (header_record st))"
    and "fst (sb_load B (st_index_key st) (index_bytes_for (st_max_commands st)) b2) = Some (index_record st)"
    and "unreadable B st i b2"
proof -
  note keys = same_config_keys [OF same]
  have save: "sb_save B (st_payload_key st i) (bytes_of_timings (cmd_timings (st_slots s ! i))) b = (True, b1)"
    using payload by (simp add: write_payload_def keys)
  have reads: "fst (sb_load B k n b2) = fst (sb_load B k n b1)" for k n by (rule save_refused [OF cut])
  show "fst (sb_load B (st_header_key st) SIZEOF_HEADER b2) = Some (encode_header (header_record st))"
    and "fst (sb_load B (st_index_key st) (index_bytes_for (st_max_commands st)) b2) = Some (index_record st)"
    using per save_done [OF save] keys_distinct(4,6) [of st i] by (simp_all add: reads persisted_def)
  show "unreadable B st i b2"
    using save_done [OF save] other by (auto simp: reads unreadable_def)
qed

text \<open>A rename that was acknowledged has written the index and the header, and no waveform.\<close>

lemma rename_written:
  assumes ok: "store_ok st" and run: "rename B k nm st b = (OK, st', b')" and changed: "st' \<noteq> st"
  shows "fst (sb_load B (st_header_key st') SIZEOF_HEADER b') = Some (encode_header (header_record st'))"
    and "fst (sb_load B (st_index_key st') (index_bytes_for (st_max_commands st')) b') = Some (index_record st')"
    and "same_config st st'"
    and "fst (sb_load B (st_payload_key st i) n b') = fst (sb_load B (st_payload_key st i) n b)"
    and "i < length (st_slots st) \<Longrightarrow> occupied (st_slots st ! i) \<Longrightarrow>
      i < length (st_slots st') \<and> occupied (st_slots st' ! i) \<and>
      cmd_timings (st_slots st' ! i) = cmd_timings (st_slots st ! i)"
proof -
  obtain j undo v where index: "persist_index B undo (st\<lparr>st_slots := (st_slots st)[j := (st_slots st ! j)\<lparr>cmd_name := nm\<rparr>],
      st_revision := v\<rparr>) b = (OK, st', b')"
    using run changed by (auto simp: rename_def Let_def split: if_splits option.splits)
  obtain w b1 where one: "write_index B (st\<lparr>st_slots := (st_slots st)[j := (st_slots st ! j)\<lparr>cmd_name := nm\<rparr>],
      st_revision := v\<rparr>) b = (w, b1)" by (metis surj_pair)
  with index have st': "st' = st\<lparr>st_slots := (st_slots st)[j := (st_slots st ! j)\<lparr>cmd_name := nm\<rparr>], st_revision := v\<rparr>"
    and wrote: "write_index B st' b = (True, b1)" and b': "b' = snd (sb_sync B b1)"
    by (auto simp: persist_index_def split: if_splits)
  show same: "same_config st st'" by (simp add: st' same_config_def)
  have "length (st_bridge_id st') = BRIDGE_ID_BYTES" using ok by (simp add: st' store_ok_id)
  note at = index_written [OF wrote this]
  show "fst (sb_load B (st_header_key st') SIZEOF_HEADER b') = Some (encode_header (header_record st'))"
    and "fst (sb_load B (st_index_key st') (index_bytes_for (st_max_commands st')) b') = Some (index_record st')"
    using at(1,2) by (simp_all add: b' sync_keeps)
  show "fst (sb_load B (st_payload_key st i) n b') = fst (sb_load B (st_payload_key st i) n b)"
    using at(3) [of i n] same_config_keys [OF same] by (simp add: b' sync_keeps)
  show "i < length (st_slots st') \<and> occupied (st_slots st' ! i) \<and>
      cmd_timings (st_slots st' ! i) = cmd_timings (st_slots st ! i)"
    if "i < length (st_slots st)" and "occupied (st_slots st ! i)"
    using that by (cases "i = j") (simp_all add: st')
qed

end

section \<open>What a history leaves on flash\<close>

text \<open>A call that replaces a stored waveform.\<close>

fun overwrites :: "store_op \<Rightarrow> command_store \<Rightarrow> bool" where
  "overwrites (Put c) st = has (cmd_name c) st"
| "overwrites _ st = False"

text \<open>
  How a call other than a factory reset ends: without a write, by writing the index of a registry
  whose waveforms the present one has in the same slots, or by writing one slot and the index. The
  roll-back of the last two is exact, and the slot is in use only if the call overwrites.
\<close>

definition writes ::
  "'b storage \<Rightarrow> store_op \<Rightarrow> command_store \<Rightarrow> 'b \<Rightarrow> store_result \<times> command_store \<times> 'b \<Rightarrow> bool" where
  "writes B op st b x \<longleftrightarrow>
     (\<exists>r. x = (r, st, b)) \<or>
     (\<exists>undo s. x = persist_index B undo s b \<and> undo s = st \<and> same_config st s \<and>
        length (st_bridge_id s) = BRIDGE_ID_BYTES \<and>
        (\<forall>i < length (st_slots s). occupied (st_slots s ! i) \<longrightarrow> i < length (st_slots st) \<and>
           occupied (st_slots st ! i) \<and> cmd_timings (st_slots s ! i) = cmd_timings (st_slots st ! i))) \<or>
     (\<exists>undo s i c. x = persist_slot B i undo s b \<and> undo s = st \<and> same_config st s \<and>
        length (st_bridge_id s) = BRIDGE_ID_BYTES \<and> i < length (st_slots st) \<and>
        st_slots s = (st_slots st)[i := c] \<and> (occupied (st_slots st ! i) \<longrightarrow> overwrites op st))"

lemma writes_nothing: "writes B op st b (r, st, b)"
  by (simp add: writes_def)

lemma writes_index:
  assumes "undo s = st" and "same_config st s" and "length (st_bridge_id s) = BRIDGE_ID_BYTES"
    and "\<And>i. i < length (st_slots s) \<Longrightarrow> occupied (st_slots s ! i) \<Longrightarrow> i < length (st_slots st) \<and>
      occupied (st_slots st ! i) \<and> cmd_timings (st_slots s ! i) = cmd_timings (st_slots st ! i)"
  shows "writes B op st b (persist_index B undo s b)"
  unfolding writes_def using assms by blast

lemma writes_slot:
  assumes "undo s = st" and "same_config st s" and "length (st_bridge_id s) = BRIDGE_ID_BYTES"
    and "i < length (st_slots st)" and "st_slots s = (st_slots st)[i := c]"
    and "occupied (st_slots st ! i) \<Longrightarrow> overwrites op st"
  shows "writes B op st b (persist_slot B i undo s b)"
  unfolding writes_def using assms by blast

lemma exec_writes:
  assumes ok: "store_ok st" and typed: "op_typed op" and "\<not> resets op"
  shows "writes B op st b (exec B op st b)"
proof (cases op)
  case (Put c)
  have "occupied (st_slots st ! i) \<Longrightarrow> overwrites (Put c) st" and "i < length (st_slots st)"
    if "put_slot c st = Inr (i, ov, k)" for i ov k
    using that by (auto simp: put_slot_def has_def dest: find_free_slot_SomeD find_slot_SomeD split: option.splits if_splits)
  with ok Put show ?thesis
    by (auto simp: put_def Let_def writes_nothing same_config_def store_ok_id split: sum.split option.split
        intro!: writes_slot)
next
  case (Rename k nm)
  with ok show ?thesis
    by (auto simp: rename_def Let_def writes_nothing same_config_def store_ok_id find_slot_by_id_SomeD nth_list_update_if
        split: option.split if_splits intro!: writes_index)
next
  case (Remove nm)
  with ok show ?thesis
    by (auto simp: remove_def remove_by_id_def Let_def writes_nothing same_config_def store_ok_id nth_list_update_if
        split: option.split if_splits intro!: writes_index)
next
  case (RemoveById k)
  with ok show ?thesis
    by (auto simp: remove_by_id_def Let_def writes_nothing same_config_def store_ok_id nth_list_update_if
        split: option.split if_splits intro!: writes_index)
next
  case ClearAll
  with ok show ?thesis
    by (auto simp: clear_all_def Let_def writes_nothing same_config_def store_ok_id split: option.split intro!: writes_index)
next
  case (RestoreBegin bid n)
  with typed show ?thesis
    by (auto simp: restore_begin_def Let_def writes_nothing same_config_def split: option.split intro!: writes_index)
next
  case (ImportCommand c)
  have "\<not> occupied (st_slots st ! i)" and "i < length (st_slots st)" and "(st_slots st)[i := empty_command] = st_slots st"
    if "find_free_slot st = Some i" for i
    using find_free_slot_SomeD [OF that] ok by (simp_all, metis list_update_id nth_mem store_ok_def)
  with ok ImportCommand show ?thesis
    by (auto simp: import_command_def Let_def writes_nothing same_config_def store_ok_id split: option.split
        intro!: writes_slot)
next
  case (RestoreCommit v)
  have "st\<lparr>st_restore_state := 0, st_revision := w\<rparr>\<lparr>st_restore_state := 1, st_revision := st_revision st\<rparr> = st"
    if "st_restore_state st \<noteq> 0" for w
    using that ok by (cases st) (simp add: store_ok_def)
  with ok RestoreCommit show ?thesis
    by (auto simp: restore_commit_def Let_def writes_nothing same_config_def store_ok_id split: option.split
        intro!: writes_index)
qed (use assms in simp)

text \<open>The waveforms of the registry in memory are on flash, and so is a change that was acknowledged.\<close>

definition settled :: "'b storage \<Rightarrow> command_store \<Rightarrow> store_result \<times> command_store \<times> 'b \<Rightarrow> bool" where
  "settled B st x \<longleftrightarrow>
     payloads B (fst (snd x)) (snd (snd x)) \<and>
     (fst x = OK \<and> fst (snd x) \<noteq> st \<longrightarrow> persisted B (fst (snd x)) (snd (snd x)))"

context storage_backend
begin

lemma settled_index:
  assumes pay: "payloads B st b" "payloads B s b" and "undo s = st" and same: "same_config st s"
    and id: "length (st_bridge_id s) = BRIDGE_ID_BYTES"
  shows "settled B st (persist_index B undo s b)"
proof -
  obtain w b1 where one: "write_index B s b = (w, b1)" by (metis surj_pair)
  show ?thesis
  proof (cases w)
    case True
    obtain s' b' where run: "persist_index B undo s b = (OK, s', b')" using one True by (simp add: persist_index_def)
    with persist_index_done [OF run pay(2) id] show ?thesis by (simp add: settled_def persisted_payloads)
  next
    case False
    note keys = same_config_keys [OF same]
    have "fst (sb_load B (st_payload_key st i) n b1) = fst (sb_load B (st_payload_key st i) n b)" for i n
      using write_index_other [OF one] keys_distinct [of s] keys by metis
    with pay(1) one False assms(3) show ?thesis by (simp add: persist_index_def settled_def payloads_def)
  qed
qed

lemma settled_slot:
  assumes ok: "store_ok st" and pay: "payloads B st b" and "undo s = st" and same: "same_config st s"
    and id: "length (st_bridge_id s) = BRIDGE_ID_BYTES" and i: "i < length (st_slots st)"
    and slots: "st_slots s = (st_slots st)[i := c]"
    and free: "fst (persist_slot B i undo s b) = STORAGE_ERROR \<Longrightarrow> \<not> occupied (st_slots st ! i)"
  shows "settled B st (persist_slot B i undo s b)"
proof -
  have small: "i < 256" "length (st_slots s) \<le> 256" using store_ok_length [OF ok] i slots by simp_all
  note keys = same_config_keys [OF same]
  obtain w b1 where one: "write_payload B s i b = (w, b1)" by (metis surj_pair)
  then have save: "sb_save B (st_payload_key s i) (bytes_of_timings (cmd_timings (st_slots s ! i))) b = (w, b1)"
    by (simp add: write_payload_def)
  show ?thesis
  proof (cases w)
    case False
    with save have refused: "sb_save B (st_payload_key s i) (bytes_of_timings (cmd_timings (st_slots s ! i))) b = (False, b1)"
      by simp
    have "fst (sb_load B k n b1) = fst (sb_load B k n b)" for k n by (rule save_refused [OF refused])
    with pay one False assms(3) show ?thesis by (simp add: persist_slot_def settled_def payloads_def)
  next
    case True
    with one have wrote: "write_payload B s i b = (True, b1)" by simp
    have new: "payloads B s b1"
      using pay keys by (intro write_payload_reads [OF wrote small]) (simp add: slots payloads_def)
    have whole: "persist_slot B i undo s b = persist_index B undo s b1" using one True by (simp add: persist_slot_def)
    show ?thesis
    proof (cases "fst (persist_slot B i undo s b) = STORAGE_ERROR")
      case True
      with free have empty: "\<not> occupied (st_slots st ! i)" .
      have "payloads B st b1"
        unfolding payloads_def
      proof (intro allI impI)
        fix j assume j: "j < length (st_slots st)" "occupied (st_slots st ! j)"
        with empty have "st_slots s ! j = st_slots st ! j" by (cases "i = j") (simp_all add: slots)
        with new j keys slots show "fst (sb_load B (st_payload_key st j) (4 * length (cmd_timings (st_slots st ! j))) b1) =
            Some (bytes_of_timings (cmd_timings (st_slots st ! j)))"
          unfolding payloads_def by (metis length_list_update)
      qed
      then show ?thesis unfolding whole by (rule settled_index [of st b1 s undo, OF _ new assms(3) same id])
    next
      case False
      then obtain s' b' where run: "persist_index B undo s b1 = (OK, s', b')"
        unfolding whole by (auto simp: persist_index_def split: prod.splits if_splits)
      from persist_index_done [OF run new id] run whole show ?thesis by (simp add: settled_def persisted_payloads)
    qed
  qed
qed

lemma exec_settled:
  assumes ok: "store_ok st" and pay: "payloads B st b" and typed: "op_typed op"
    and calm: "\<not> (overwrites op st \<and> fst (exec B op st b) = STORAGE_ERROR)"
  shows "settled B st (exec B op st b)"
proof (cases "resets op")
  case True
  then obtain random where op: "op = FactoryReset random" by (cases op) auto
  obtain r st' b' where run: "factory_reset B random st b = (r, st', b')" by (metis prod_cases3)
  show ?thesis
  proof (cases "r = OK")
    case True
    with factory_reset_done run typed op show ?thesis by (simp add: settled_def persisted_payloads)
  next
    case False
    with run have "b' = b \<and> st' = st \<or> (\<forall>c \<in> set (st_slots st'). \<not> occupied c)"
      by (auto simp: factory_reset_def mint_identity_def Let_def split: if_splits prod.splits)
    with pay run op False show ?thesis by (auto simp: settled_def payloads_def)
  qed
next
  case False
  from exec_writes [OF ok typed False, of B b] show ?thesis
    unfolding writes_def
  proof (elim disjE exE conjE)
    fix r assume "exec B op st b = (r, st, b)"
    with pay show ?thesis by (simp add: settled_def)
  next
    fix undo s assume x: "exec B op st b = persist_index B undo s b" and "undo s = st" and same: "same_config st s"
      and "length (st_bridge_id s) = BRIDGE_ID_BYTES"
      and "\<forall>i < length (st_slots s). occupied (st_slots s ! i) \<longrightarrow> i < length (st_slots st) \<and>
        occupied (st_slots st ! i) \<and> cmd_timings (st_slots s ! i) = cmd_timings (st_slots st ! i)"
    moreover from this have "payloads B s b" by (intro payloads_same [OF pay same]) blast
    ultimately show ?thesis unfolding x using pay by (intro settled_index)
  next
    fix undo s i c assume x: "exec B op st b = persist_slot B i undo s b"
      and "occupied (st_slots st ! i) \<longrightarrow> overwrites op st"
      and s: "undo s = st" "same_config st s" "length (st_bridge_id s) = BRIDGE_ID_BYTES" "i < length (st_slots st)"
        "st_slots s = (st_slots st)[i := c]"
    have "\<not> occupied (st_slots st ! i)" if "fst (persist_slot B i undo s b) = STORAGE_ERROR"
      using calm that x \<open>occupied (st_slots st ! i) \<longrightarrow> overwrites op st\<close> by auto
    then show ?thesis unfolding x by (rule settled_slot [of st b undo s i c, OF ok pay s])
  qed
qed

end

text \<open>A history in which no relearn failed to be stored.\<close>

fun calm :: "'b storage \<Rightarrow> store_op list \<Rightarrow> command_store \<Rightarrow> 'b \<Rightarrow> bool" where
  "calm B [] st b \<longleftrightarrow> True"
| "calm B (op # ops) st b \<longleftrightarrow>
     (let (r, st', b') = exec B op st b in \<not> (overwrites op st \<and> r = STORAGE_ERROR) \<and> calm B ops st' b')"

section \<open>Properties\<close>

lemma intended_service:
  assumes "intended op st = (r, st')" and "st_has_backend st" and "\<not> st_read_only st" and "st_fault st = FAULT_NONE"
  shows "\<not> st_read_only st' \<and> st_fault st' = FAULT_NONE"
  using assms
  by (cases op) (auto simp: intended_def put_def rename_def remove_def remove_by_id_def clear_all_def restore_begin_def
      import_command_def restore_commit_def factory_reset_def mint_identity_def Let_def
      split: if_splits option.splits sum.splits prod.splits)

lemma intended_in_service:
  assumes serve: "in_service st" and run: "intended op st = (r, st')" and typed: "op_typed op"
  shows "in_service st'"
  using intended_service [OF run] intended_ok [OF _ run typed] intended_config [OF run] serve
  by (simp add: in_service_def same_config_def)

lemma exec_intended_OK:
  assumes "store_ok st" and "exec B op st b = (OK, st', b')"
  shows "intended op st = (OK, st')"
proof (cases "resets op")
  case True
  then obtain random where "op = FactoryReset random" by (cases op) auto
  with factory_reset_outcome [of B random st b OK st' b'] assms(2) show ?thesis by simp
next
  case False
  with exec_outcome [OF assms False] show ?thesis by auto
qed

lemma exec_in_service:
  assumes serve: "in_service st" and run: "exec B op st b = (r, st', b')" and typed: "op_typed op"
  shows "in_service st'"
proof -
  have ok: "store_ok st" using serve by (simp add: in_service_def)
  show ?thesis
  proof (cases "(r, st') = intended op st")
    case True
    from intended_in_service [OF serve True [symmetric] typed] show ?thesis .
  next
    case False
    show ?thesis
    proof (cases "resets op")
      case True
      then obtain random where op: "op = FactoryReset random" by (cases op) auto
      with exec_ok [OF ok run typed] run False serve show ?thesis
        by (auto simp: in_service_def intended_def factory_reset_def mint_identity_def Let_def split: if_splits prod.splits)
    next
      case False
      with exec_outcome [OF ok run] \<open>(r, st') \<noteq> intended op st\<close> serve show ?thesis by blast
    qed
  qed
qed

lemma calm_run:
  assumes B: "storage_backend B"
  shows "in_service st \<Longrightarrow> payloads B st b \<Longrightarrow> list_all op_typed ops \<Longrightarrow> calm B ops st b \<Longrightarrow>
    run_ops B ops st b = (st', b') \<Longrightarrow> in_service st' \<and> payloads B st' b'"
proof (induction ops arbitrary: st b)
  case (Cons op ops)
  obtain r s b1 where run: "exec B op st b = (r, s, b1)" by (metis prod_cases3)
  have "settled B st (exec B op st b)"
    using Cons.prems run by (intro storage_backend.exec_settled [OF B]) (simp_all add: in_service_def)
  with run have "payloads B s b1" by (simp add: settled_def)
  moreover have "in_service s" using exec_in_service [OF Cons.prems(1) run] Cons.prems(3) by simp
  ultimately show ?case using Cons run by simp
qed simp


text \<open>The registry of a factory reset on an empty flash.\<close>

definition demo_flash :: fake_flash where
  "demo_flash = snd (snd (factory_reset fake_backend (Some (replicate 16 7)) demo_empty_store fresh_flash))"

lemma demo_reset:
  "factory_reset fake_backend (Some (replicate 16 7)) demo_empty_store fresh_flash = (OK, demo_empty_store, demo_flash)"
proof -
  have "\<exists>f. factory_reset fake_backend (Some (replicate 16 7)) demo_empty_store fresh_flash = (OK, demo_empty_store, f)"
    by (simp add: factory_reset_def Let_def write_index_def fake_backend_def fake_save_def fresh_flash_def
        mint_identity_def demo_empty_store_def store_consts replicate_two)
  then show ?thesis by (auto simp: demo_flash_def)
qed

lemma demo_in_service: "in_service demo_empty_store"
  by (simp add: in_service_def demo_empty_store_ok) (simp add: demo_empty_store_def)

lemma demo_persisted: "persisted fake_backend demo_empty_store demo_flash"
  by (rule fake.factory_reset_done [OF demo_reset]) (simp add: store_consts)

lemma demo_flash_open: "\<not> ff_fail_next_save demo_flash" "ff_fail_after demo_flash = -1"
  by (simp_all add: demo_flash_def factory_reset_def Let_def write_index_def fake_backend_def fake_save_def
      fresh_flash_def mint_identity_def demo_empty_store_def)

lemma demo_put: "\<exists>st' f'. exec fake_backend (Put demo_command_a) demo_empty_store demo_flash = (OK, st', f') \<and> count st' = 1"
  using demo_flash_open
  by (simp add: store_eval demo_empty_store_def demo_command_a_def Let_def persist_slot_def persist_index_def
      write_payload_def write_index_def fake_backend_def fake_save_def)

text \<open>A put that the storage refuses, and then the same put.\<close>

lemma demo_put_refused:
  "exec fake_backend (Put demo_command_a) demo_empty_store (demo_flash\<lparr>ff_fail_next_save := True\<rparr>) =
     (STORAGE_ERROR, demo_empty_store, demo_flash)"
proof -
  have "demo_flash\<lparr>ff_fail_next_save := False\<rparr> = demo_flash" using demo_flash_open by simp
  then show ?thesis
    by (simp add: store_eval demo_empty_store_def demo_command_a_def Let_def persist_slot_def
        write_payload_def fake_backend_def fake_save_def)
qed


text \<open>
  C3: A mutation other than a relearn and a factory reset is atomic when it is cut short. If a
  registry in service is on flash as it is in memory when the call begins, then whichever of its writes reach the
  flash, the next boot reads back, without a fault, the registry from before the call or the one
  the call was to make. (Overwriting a command under its name is not atomic: C4.)
\<close>

theorem cut_short_is_atomic:
  assumes B: "storage_backend B" and serve: "in_service st" and per: "persisted B st b"
    and run: "exec B op st b = (r, st', b')" and typed: "op_typed op"
    and kind: "\<not> resets op" "\<not> overwrites op st"
  shows "\<exists>report st'' b''. reboot B random st b' = (report, st'', b'') \<and> clean_report report \<and>
    (st'' = st \<or> st'' = snd (intended op st))"
proof -
  have ok: "store_ok st" using serve by (simp add: in_service_def)
  have new: "\<And>c. op = Put c \<Longrightarrow> \<not> has (cmd_name c) st" using kind(2) by auto
  let ?s = "snd (intended op st)"
  have int: "intended op st = (fst (intended op st), ?s)" by simp
  have "in_service ?s" by (rule intended_in_service [OF serve int typed])
  moreover have "reboot B random ?s = reboot B random st"
    using intended_config [OF int] by (simp add: reboot_def same_config_def fun_eq_iff)
  moreover from storage_backend.exec_atomic [OF B ok per run typed kind(1) new]
  have "persisted B st b' \<or> persisted B ?s b'" by simp
  ultimately show ?thesis
    using storage_backend.reboot_persisted [OF B serve, of b' random] storage_backend.reboot_persisted [OF B, of ?s b' random]
    by metis
qed

text \<open>A flash that takes one more write and then loses power.\<close>

definition one_write_left :: "fake_flash \<Rightarrow> fake_flash" where
  "one_write_left f = f\<lparr>ff_fail_after := int (ff_writes f) + 1\<rparr>"

lemma one_write_left_reads:
  "fst (sb_load fake_backend k n (one_write_left f)) = fst (sb_load fake_backend k n f)"
  by (simp add: fake_backend_def fst_fake_load one_write_left_def)

lemma cut_short_is_atomic_witness:
  "\<exists>st' f' report st'' f''. exec fake_backend (Put demo_command_a) demo_empty_store (one_write_left demo_flash) =
       (STORAGE_ERROR, st', f') \<and> reboot fake_backend None demo_empty_store f' = (report, st'', f'') \<and> clean_report report"
proof -
  have per: "persisted fake_backend demo_empty_store (one_write_left demo_flash)"
    using demo_persisted fake.persisted_cong [OF one_write_left_reads] by simp
  have new: "\<not> overwrites (Put demo_command_a) demo_empty_store"
    by (simp add: has_iff demo_empty_store_def)
  obtain st' f' where put: "exec fake_backend (Put demo_command_a) demo_empty_store (one_write_left demo_flash) = (STORAGE_ERROR, st', f')"
    using demo_flash_open
    by (simp add: store_eval demo_empty_store_def demo_command_a_def Let_def persist_slot_def persist_index_def
        write_payload_def write_index_def fake_backend_def fake_save_def one_write_left_def)
  from cut_short_is_atomic [OF fake.storage_backend_axioms demo_in_service per put _ _ new, where random = None] put
  show ?thesis by auto
qed

lemma relearn_damage:
  assumes serve: "in_service st" and per: "persisted fake_backend st f" and alive: "\<not> ff_fail_next_save f"
    and slot: "find_slot (cmd_name c) st = Some i"
    and other: "length (cmd_timings c) \<noteq> length (cmd_timings (st_slots st ! i)) \<or>
      timings_crc (cmd_timings c) \<noteq> timings_crc (cmd_timings (st_slots st ! i))"
    and run: "put fake_backend c st (one_write_left f) = (STORAGE_ERROR, st', f')"
  shows "fst (sb_load fake_backend (st_header_key st) SIZEOF_HEADER f') = Some (encode_header (header_record st))"
    and "fst (sb_load fake_backend (st_index_key st) (index_bytes_for (st_max_commands st)) f') = Some (index_record st)"
    and "unreadable fake_backend st i f'"
proof -
  have writable: "writable st \<noteq> STORAGE_ERROR" using serve by (simp add: in_service_def writable_def)
  note at = find_slot_SomeD [OF slot]
  have per': "persisted fake_backend st (one_write_left f)"
    using per fake.persisted_cong [OF one_write_left_reads] by simp
  let ?k = "cmd_id (st_slots st ! i)"
  have "put_slot c st = Inr (i, True, ?k)" using slot by (simp add: put_slot_def)
  with run writable obtain v undo where
    persist: "persist_slot fake_backend i undo (st\<lparr>st_slots := (st_slots st)[i := c\<lparr>cmd_id := ?k\<rparr>], st_revision := v\<rparr>)
      (one_write_left f) = (STORAGE_ERROR, st', f')" (is "persist_slot _ _ _ ?s _ = _")
    by (auto simp: put_def validate_name_def Let_def split: if_splits option.splits)
  obtain f1 where payload: "write_payload fake_backend ?s i (one_write_left f) = (True, f1)"
    and f1: "\<not> ff_fail_next_save f1" "ff_fail_after f1 = int (ff_writes f1)"
    using alive by (auto simp: write_payload_def fake_backend_def fake_save_def one_write_left_def)
  have cut: "sb_save fake_backend (st_index_key ?s) (index_record ?s) f1 = (False, f1)"
    using f1 by (simp add: fake_backend_def fake_save_def)
  have f': "f' = f1" using persist payload cut by (simp add: persist_slot_def persist_index_def write_index_def)
  have "length (cmd_timings (st_slots ?s ! i)) \<noteq> length (cmd_timings (st_slots st ! i)) \<or>
      timings_crc (cmd_timings (st_slots ?s ! i)) \<noteq> timings_crc (cmd_timings (st_slots st ! i))"
    using at other by simp
  moreover have "same_config st ?s" by (simp add: same_config_def)
  ultimately have damage: "fst (sb_load fake_backend (st_header_key st) SIZEOF_HEADER f1) = Some (encode_header (header_record st)) \<and>
      fst (sb_load fake_backend (st_index_key st) (index_bytes_for (st_max_commands st)) f1) = Some (index_record st) \<and>
      unreadable fake_backend st i f1"
    using fake.relearn_cut_short [OF per' _ _ payload cut] by blast
  then show "fst (sb_load fake_backend (st_header_key st) SIZEOF_HEADER f') = Some (encode_header (header_record st))"
    and "fst (sb_load fake_backend (st_index_key st) (index_bytes_for (st_max_commands st)) f') = Some (index_record st)"
    and "unreadable fake_backend st i f'"
    unfolding f' by blast+
qed

text \<open>
  C4: Overwriting a command is not atomic. When, on the storage of the host tests, the new waveform
  of a relearn reaches the flash and its index does not, and the two waveforms differ in their number of pulses or in their checksum, the call
  reports the failure and the registry in memory is as before; but the next boot finds the command's
  waveform unreadable and the whole registry becomes read-only. That is still so when the flash
  works again and a rename has since been acknowledged.
\<close>

theorem relearn_cut_short_locks_registry:
  assumes serve: "in_service st" and per: "persisted fake_backend st f" and alive: "\<not> ff_fail_next_save f"
    and slot: "find_slot (cmd_name c) st = Some i"
    and other: "length (cmd_timings c) \<noteq> length (cmd_timings (st_slots st ! i)) \<or>
      timings_crc (cmd_timings c) \<noteq> timings_crc (cmd_timings (st_slots st ! i))"
    and run: "put fake_backend c st (one_write_left f) = (STORAGE_ERROR, st', f')"
  shows "st' = st \<and>
    (\<forall>report st'' f''. reboot fake_backend random st f' = (report, st'', f'') \<longrightarrow>
       lr_fault report = PAYLOAD_INVALID \<and> st_read_only st'') \<and>
    (\<forall>k nm st1 f1 report st'' f''. rename fake_backend k nm st (f'\<lparr>ff_fail_after := -1\<rparr>) = (OK, st1, f1) \<and> st1 \<noteq> st \<and>
       reboot fake_backend random st1 f1 = (report, st'', f'') \<longrightarrow>
       lr_fault report = PAYLOAD_INVALID \<and> st_read_only st'')"
proof (intro conjI allI impI)
  have ok: "store_ok st" and writable: "writable st \<noteq> STORAGE_ERROR"
    using serve by (simp_all add: in_service_def writable_def)
  have "(exec fake_backend (Put c) st (one_write_left f)) = (STORAGE_ERROR, st', f')" using run by simp
  from revision_is_a_change_token [OF ok this] show "st' = st" by simp
  have i: "i < length (st_slots st)" and occ: "occupied (st_slots st ! i)" using find_slot_SomeD [OF slot] by simp_all
  have healed: "fst (sb_load fake_backend key n (f'\<lparr>ff_fail_after := -1\<rparr>)) = fst (sb_load fake_backend key n f')" for key n
    by (simp add: fake_backend_def fst_fake_load)
  note damage = relearn_damage [OF serve per alive slot other run]
  show "lr_fault report = PAYLOAD_INVALID" and "st_read_only st''"
    if "reboot fake_backend random st f' = (report, st'', f'')" for report st'' f''
    using fake.reboot_damaged [OF serve i occ damage that] by simp_all
  show "lr_fault report = PAYLOAD_INVALID" and "st_read_only st''"
    if again: "rename fake_backend k nm st (f'\<lparr>ff_fail_after := -1\<rparr>) = (OK, st1, f1) \<and> st1 \<noteq> st \<and>
      reboot fake_backend random st1 f1 = (report, st'', f'')" for k nm st1 f1 report st'' f''
  proof -
    from again have ren: "rename fake_backend k nm st (f'\<lparr>ff_fail_after := -1\<rparr>) = (OK, st1, f1)" and "st1 \<noteq> st"
      and boot: "reboot fake_backend random st1 f1 = (report, st'', f'')" by blast+
    note at = fake.rename_written [OF ok ren \<open>st1 \<noteq> st\<close>]
    have "exec fake_backend (Rename k nm) st (f'\<lparr>ff_fail_after := -1\<rparr>) = (OK, st1, f1)" using ren by simp
    then have serve1: "in_service st1"
      by (rule intended_in_service [OF serve exec_intended_OK [OF ok]]) simp
    have "unreadable fake_backend st1 i f1"
      using damage(3) at(4) [of i] at(5) [OF i occ] same_config_keys [OF at(3)] healed
      by (simp add: unreadable_def cong: option.case_cong)
    from fake.reboot_damaged [OF serve1 _ _ at(1,2) this boot] at(5) [OF i occ]
    show "lr_fault report = PAYLOAD_INVALID" and "st_read_only st''" by simp_all
  qed
qed

text \<open>Two waveforms with one number of pulses and two checksums.\<close>

lemma crc_byte_bits:
  "crc_byte b crc = crc_bit (crc_bit (crc_bit (crc_bit (crc_bit (crc_bit (crc_bit (crc_bit (crc XOR push_bit 8 (ucast b)))))))))"
  by (simp add: crc_byte_def numeral_eq_Suc)

lemma bytes32_eval: "bytes32 w = (let v = unat w in
  [word_of_nat v, word_of_nat (v div 256), word_of_nat (v div 256 div 256), word_of_nat (v div 256 div 256 div 256)])"
proof -
  have four: "(4::nat) = Suc (Suc (Suc (Suc 0)))" by simp
  show ?thesis by (simp only: bytes32_def four le_bytes.simps Let_def)
qed

lemma demo_crcs: "timings_crc [400, - 800, 400] \<noteq> timings_crc [350, - 700, 350]"
proof -
  have "bytes_of_timings [400, - 800, 400] = [144, 1, 0, 0, 224, 252, 255, 255, 144, 1, 0, 0]"
    and "bytes_of_timings [350, - 700, 350] = [94, 1, 0, 0, 68, 253, 255, 255, 94, 1, 0, 0]"
    by (simp_all add: bytes_of_timings_def bytes32_eval)
  then show ?thesis
    by (simp add: timings_crc_def crc16_ccitt_def crc_byte_bits) (simp add: crc_bit_def)
qed

lemma relearn_cut_short_locks_registry_witness:
  "\<exists>st f st' f' report st'' f''. has ''gate'' st \<and>
     put fake_backend (demo_command_a\<lparr>cmd_timings := [400, - 800, 400]\<rparr>) st (one_write_left f) = (STORAGE_ERROR, st', f') \<and>
     reboot fake_backend None st f' = (report, st'', f'') \<and> st' = st \<and> lr_fault report = PAYLOAD_INVALID \<and> st_read_only st'' \<and>
     (\<exists>st1 f1 report1 st2 f2. rename fake_backend 1 ''door'' st (f'\<lparr>ff_fail_after := -1\<rparr>) = (OK, st1, f1) \<and>
        reboot fake_backend None st1 f1 = (report1, st2, f2) \<and> st_read_only st2)"
proof -
  let ?c = "demo_command_a\<lparr>cmd_timings := [400, - 800, 400]\<rparr>"
  obtain st f where put: "exec fake_backend (Put demo_command_a) demo_empty_store demo_flash = (OK, st, f)"
    and st: "st = demo_empty_store\<lparr>st_slots := [demo_command_a\<lparr>cmd_id := 1\<rparr>, empty_command], st_next_command_id := 2, st_revision := 2\<rparr>"
    and f: "\<not> ff_fail_next_save f"
    using demo_flash_open
    by (simp add: store_eval demo_empty_store_def demo_command_a_def Let_def persist_slot_def persist_index_def
        write_payload_def write_index_def fake_backend_def fake_save_def)
  have ok: "store_ok demo_empty_store" by (rule demo_empty_store_ok)
  have serve: "in_service st"
    by (rule intended_in_service [OF demo_in_service exec_intended_OK [OF ok put]]) simp
  have per: "persisted fake_backend st f" by (rule fake.exec_done [OF ok demo_persisted put]) simp
  have slot: "find_slot (cmd_name ?c) st = Some 0"
    by (simp add: st find_slot_def occupied_def demo_command_a_def store_consts)
  obtain st' f' where again: "put fake_backend ?c st (one_write_left f) = (STORAGE_ERROR, st', f')"
    and f': "\<not> ff_fail_next_save f'"
    using f
    by (simp add: st store_eval demo_empty_store_def demo_command_a_def Let_def persist_slot_def persist_index_def
        write_payload_def write_index_def fake_backend_def fake_save_def one_write_left_def)
  obtain report st'' f'' where boot: "reboot fake_backend None st f' = (report, st'', f'')" by (metis prod_cases3)
  obtain st1 f1 where ren: "rename fake_backend 1 ''door'' st (f'\<lparr>ff_fail_after := -1\<rparr>) = (OK, st1, f1)"
    and changed: "st_revision st1 = 3"
    using f'
    by (simp add: st store_eval demo_empty_store_def demo_command_a_def Let_def persist_index_def
        write_index_def fake_backend_def fake_save_def)
  obtain report1 st2 f2 where boot1: "reboot fake_backend None st1 f1 = (report1, st2, f2)" by (metis prod_cases3)
  have other: "length (cmd_timings ?c) \<noteq> length (cmd_timings (st_slots st ! 0)) \<or>
      timings_crc (cmd_timings ?c) \<noteq> timings_crc (cmd_timings (st_slots st ! 0))"
    using demo_crcs by (simp add: st demo_command_a_def)
  have "st1 \<noteq> st" using changed by (auto simp: st)
  note all = relearn_cut_short_locks_registry [OF serve per f slot other again, of None]
  have "st' = st" by (rule all [THEN conjunct1])
  moreover from all [THEN conjunct2, THEN conjunct1, rule_format, OF boot]
  have "lr_fault report = PAYLOAD_INVALID" "st_read_only st''" by simp_all
  moreover from all [THEN conjunct2, THEN conjunct2, rule_format, OF conjI [OF ren conjI [OF \<open>st1 \<noteq> st\<close> boot1]]]
  have "st_read_only st2" by simp
  moreover have "has ''gate'' st" using slot by (simp add: has_def demo_command_a_def)
  ultimately show ?thesis using again boot ren boot1 by blast
qed

end
