(* ===== verification/StoreSpec.thy ===== *)
theory StoreSpec
  imports StoreOps
begin

text \<open>
  What the device's registry promises, without slots, searches or storage: an identity, a counter,
  a revision, a restore that is open or not, and a map from ids to commands. The operations are
  the rules of a step relation on it, and the code's operations refine them.
\<close>

section \<open>The abstract registry\<close>

record registry =
  rg_bridge_id :: "byte list"
  rg_next_id :: "32 word"
  rg_revision :: "32 word"
  rg_restoring :: bool
  rg_commands :: "32 word \<Rightarrow> command option"

definition registry_of :: "command_store \<Rightarrow> registry" where
  "registry_of st = \<lparr>rg_bridge_id = st_bridge_id st, rg_next_id = st_next_command_id st,
     rg_revision = st_revision st, rg_restoring = restore_incomplete st,
     rg_commands = (\<lambda>k. get_by_id k st)\<rparr>"

definition name_free :: "string \<Rightarrow> registry \<Rightarrow> bool" where
  "name_free nm R \<longleftrightarrow> (\<forall>k c. rg_commands R k = Some c \<longrightarrow> cmd_name c \<noteq> nm)"

text \<open>The operations that succeed, as steps.\<close>

inductive reg_step :: "store_op \<Rightarrow> registry \<Rightarrow> registry \<Rightarrow> bool" where
  relearned: "\<not> rg_restoring R \<Longrightarrow> rg_commands R k = Some old \<Longrightarrow> cmd_name old = cmd_name c \<Longrightarrow>
    validate_name (cmd_name c) = OK \<Longrightarrow>
    reg_step (Put c) R (R\<lparr>rg_commands := (rg_commands R)(k \<mapsto> c\<lparr>cmd_id := k\<rparr>), rg_revision := rg_revision R + 1\<rparr>)"
| learned: "\<not> rg_restoring R \<Longrightarrow> name_free (cmd_name c) R \<Longrightarrow> rg_next_id R = k \<Longrightarrow>
    rg_commands R k = None \<Longrightarrow> validate_name (cmd_name c) = OK \<Longrightarrow>
    reg_step (Put c) R (R\<lparr>rg_commands := (rg_commands R)(k \<mapsto> c\<lparr>cmd_id := k\<rparr>), rg_next_id := k + 1,
      rg_revision := rg_revision R + 1\<rparr>)"
| renamed: "\<not> rg_restoring R \<Longrightarrow> rg_commands R k = Some c \<Longrightarrow> validate_name nm = OK \<Longrightarrow> name_free nm R \<Longrightarrow>
    reg_step (Rename k nm) R (R\<lparr>rg_commands := (rg_commands R)(k \<mapsto> c\<lparr>cmd_name := nm\<rparr>),
      rg_revision := rg_revision R + 1\<rparr>)"
| unchanged_name: "\<not> rg_restoring R \<Longrightarrow> rg_commands R k = Some c \<Longrightarrow> cmd_name c = nm \<Longrightarrow>
    reg_step (Rename k nm) R R"
| removed: "\<not> rg_restoring R \<Longrightarrow> rg_commands R k = Some c \<Longrightarrow>
    reg_step (RemoveById k) R (R\<lparr>rg_commands := (rg_commands R)(k := None), rg_revision := rg_revision R + 1\<rparr>)"
| removed_named: "\<not> rg_restoring R \<Longrightarrow> rg_commands R k = Some c \<Longrightarrow> cmd_name c = nm \<Longrightarrow>
    reg_step (Remove nm) R (R\<lparr>rg_commands := (rg_commands R)(k := None), rg_revision := rg_revision R + 1\<rparr>)"
| cleared: "reg_step ClearAll R (R\<lparr>rg_commands := (\<lambda>_. None), rg_restoring := False,
      rg_revision := rg_revision R + 1\<rparr>)"
| nothing_to_clear: "\<not> rg_restoring R \<Longrightarrow> rg_commands R = (\<lambda>_. None) \<Longrightarrow> reg_step ClearAll R R"
| restore_opened: "rg_commands R = (\<lambda>_. None) \<Longrightarrow> next_id \<noteq> COMMAND_ID_NONE \<Longrightarrow>
    reg_step (RestoreBegin bridge_id next_id) R (R\<lparr>rg_bridge_id := bridge_id, rg_next_id := next_id,
      rg_restoring := True, rg_revision := rg_revision R + 1\<rparr>)"
| imported: "rg_restoring R \<Longrightarrow> rg_commands R (cmd_id c) = None \<Longrightarrow> name_free (cmd_name c) R \<Longrightarrow>
    validate_name (cmd_name c) = OK \<Longrightarrow> cmd_id c < rg_next_id R \<Longrightarrow>
    reg_step (ImportCommand c) R (R\<lparr>rg_commands := (rg_commands R)(cmd_id c \<mapsto> c),
      rg_revision := rg_revision R + 1\<rparr>)"
| restore_closed: "rg_restoring R \<Longrightarrow>
    reg_step (RestoreCommit v) R (R\<lparr>rg_restoring := False,
      rg_revision := (if v > rg_revision R then v else rg_revision R) + 1\<rparr>)"
| reset: "reg_step (FactoryReset random) R (R\<lparr>rg_bridge_id := (case random of None \<Rightarrow> replicate BRIDGE_ID_BYTES 0 | Some bytes \<Rightarrow> bytes),
      rg_next_id := COMMAND_ID_FIRST, rg_revision := REVISION_INITIAL, rg_restoring := False, rg_commands := (\<lambda>_. None)\<rparr>)"

section \<open>Lemmas: looking commands up\<close>

lemma registry_of_simps [simp]:
  "rg_bridge_id (registry_of st) = st_bridge_id st" "rg_next_id (registry_of st) = st_next_command_id st"
  "rg_revision (registry_of st) = st_revision st" "rg_restoring (registry_of st) = restore_incomplete st"
  "rg_commands (registry_of st) = (\<lambda>k. get_by_id k st)"
  by (simp_all add: registry_of_def)

lemma get_by_id_Some:
  assumes "store_ok st"
  shows "get_by_id k st = Some c \<longleftrightarrow> c \<in> set (st_slots st) \<and> occupied c \<and> cmd_id c = k"
proof
  assume "get_by_id k st = Some c"
  then obtain i where "find_slot_by_id k st = Some i" "c = st_slots st ! i" by (auto simp: get_by_id_def)
  with find_slot_by_id_SomeD [of k st i] show "c \<in> set (st_slots st) \<and> occupied c \<and> cmd_id c = k" by auto
next
  assume c: "c \<in> set (st_slots st) \<and> occupied c \<and> cmd_id c = k"
  then obtain j where j: "j < length (st_slots st)" "st_slots st ! j = c" by (auto simp: in_set_conv_nth)
  have "has_id k st" using c by (auto simp: has_id_iff)
  then obtain i where i: "find_slot_by_id k st = Some i" by (auto simp: has_id_def)
  with find_slot_by_id_SomeD [OF i] store_ok_same_id [OF assms, of i j] c j
  show "get_by_id k st = Some c" by (auto simp: get_by_id_def)
qed

lemma get_by_id_nth:
  "store_ok st \<Longrightarrow> i < length (st_slots st) \<Longrightarrow> occupied (st_slots st ! i) \<Longrightarrow>
     get_by_id (cmd_id (st_slots st ! i)) st = Some (st_slots st ! i)"
  by (simp add: get_by_id_Some)

lemma get_by_id_None: "get_by_id k st = None \<longleftrightarrow> \<not> has_id k st"
  by (simp add: get_by_id_def has_id_def)

lemma get_by_id_slots: "st_slots st' = st_slots st \<Longrightarrow> get_by_id k st' = get_by_id k st"
  by (simp add: get_by_id_def find_slot_by_id_def)

lemma no_commands: "store_ok st \<Longrightarrow> count st = 0 \<longleftrightarrow> (\<lambda>k. get_by_id k st) = (\<lambda>_. None)"
  by (auto simp: count_0 fun_eq_iff get_by_id_None has_id_iff)

lemma name_free_iff: "store_ok st \<Longrightarrow> name_free nm (registry_of st) \<longleftrightarrow> \<not> has nm st"
  by (auto simp: name_free_def get_by_id_Some has_iff)

text \<open>One slot replaced, in a registry that is well-formed before and after.\<close>

lemma get_by_id_update:
  assumes ok: "store_ok st" and ok': "store_ok st'" and i: "i < length (st_slots st)"
    and upd: "st_slots st' = (st_slots st)[i := x]"
    and was: "occupied (st_slots st ! i) \<Longrightarrow> cmd_id (st_slots st ! i) = k"
    and fits: "occupied x \<Longrightarrow> cmd_id x = k" and either: "occupied (st_slots st ! i) \<or> occupied x"
  shows "(\<lambda>j. get_by_id j st') = (\<lambda>j. get_by_id j st)(k := if occupied x then Some x else None)"
proof
  fix j
  have new: "get_by_id j st' = Some c \<longleftrightarrow>
      occupied c \<and> cmd_id c = j \<and> (c = x \<or> (\<exists>m. m \<noteq> i \<and> m < length (st_slots st) \<and> c = st_slots st ! m))" for c
    using i unfolding get_by_id_Some [OF ok'] upd by (auto simp: in_set_conv_nth nth_list_update)
  have old: "get_by_id j st = Some c \<longleftrightarrow>
      occupied c \<and> cmd_id c = j \<and> (c = st_slots st ! i \<or> (\<exists>m. m \<noteq> i \<and> m < length (st_slots st) \<and> c = st_slots st ! m))" for c
    using i unfolding get_by_id_Some [OF ok] by (auto simp: in_set_conv_nth)
  have other: "cmd_id (st_slots st ! m) \<noteq> k"
    if m: "m \<noteq> i" "m < length (st_slots st)" "occupied (st_slots st ! m)" for m
  proof (cases "occupied x")
    case True
    then have "cmd_id (st_slots st ! m) \<noteq> cmd_id x"
      using m i upd store_ok_same_id [OF ok', of m i] by auto
    with fits True show ?thesis by simp
  next
    case False
    with either was m i store_ok_same_id [OF ok, of m i] show ?thesis by metis
  qed
  have "get_by_id j st' = Some c \<longleftrightarrow>
      ((\<lambda>j. get_by_id j st)(k := if occupied x then Some x else None)) j = Some c" for c
  proof (cases "j = k")
    case True
    with new [of c] other fits show ?thesis by auto
  next
    case False
    with new [of c] old [of c] was fits show ?thesis by auto
  qed
  then show "get_by_id j st' = ((\<lambda>j. get_by_id j st)(k := if occupied x then Some x else None)) j"
    by (metis not_None_eq)
qed

section \<open>Lemmas: each operation\<close>

lemma registry_of_slot:
  assumes "store_ok st" and "store_ok st'" and "i < length (st_slots st)"
    and "st_slots st' = (st_slots st)[i := x]"
    and "occupied (st_slots st ! i) \<Longrightarrow> cmd_id (st_slots st ! i) = k"
    and "occupied x \<Longrightarrow> cmd_id x = k" and "occupied (st_slots st ! i) \<or> occupied x"
    and "st_bridge_id st' = st_bridge_id st" and "st_restore_state st' = st_restore_state st"
  shows "registry_of st' = (registry_of st)\<lparr>rg_commands := (\<lambda>j. get_by_id j st)(k := if occupied x then Some x else None),
    rg_next_id := st_next_command_id st', rg_revision := st_revision st'\<rparr>"
  using get_by_id_update [OF assms(1-7)] assms(8,9) by (simp add: registry_of_def restore_incomplete_def)

lemma writable_OK: "writable st = OK \<longleftrightarrow> st_has_backend st \<and> \<not> st_read_only st \<and> \<not> restore_incomplete st"
  by (simp add: writable_def restore_incomplete_def)

lemma put_slot_not_OK: "put_slot c st \<noteq> Inl OK"
  by (simp add: put_slot_def split: option.split)

lemma put_step:
  assumes ok: "store_ok st" and run: "put perfect_storage c st () = (OK, st', u)"
  shows "reg_step (Put c) (registry_of st) (registry_of st')"
proof -
  have ok': "store_ok st'" by (rule intended_put_ok [OF ok run])
  have w: "writable st = OK" by (rule ccontr) (use run in \<open>simp add: put_def\<close>)
  have valid: "validate_name (cmd_name c) = OK" by (rule ccontr) (use run w in \<open>simp add: put_def\<close>)
  have sized: "cmd_timings c \<noteq> []" "\<not> length (cmd_timings c) > unat (st_max_pulses st)"
    using run w valid by (auto simp: put_def split: if_splits)
  obtain slot ov k where slot: "put_slot c st = Inr (slot, ov, k)"
    using run w valid sized by (cases "put_slot c st") (auto simp: put_def put_slot_not_OK)
  from run w valid sized slot obtain v where v: "next_revision (st_revision st) = Some v"
    and st': "st' = st\<lparr>st_slots := (st_slots st)[slot := c\<lparr>cmd_id := k\<rparr>],
        st_next_command_id := (if ov then st_next_command_id st else k + 1), st_revision := v\<rparr>"
    by (cases "next_revision (st_revision st)") (auto simp: put_def Let_def split: if_splits)
  note spec = put_slot_spec [OF ok slot] and v = next_revision_SomeD(3) [OF v]
  have open_reg: "\<not> rg_restoring (registry_of st)" using w by (simp add: writable_OK)
  have occ: "occupied (c\<lparr>cmd_id := k\<rparr>)" using spec(2) by (simp add: occupied_def)
  have R: "registry_of st' = (registry_of st)\<lparr>rg_commands := (\<lambda>j. get_by_id j st)(k \<mapsto> c\<lparr>cmd_id := k\<rparr>),
      rg_next_id := (if ov then st_next_command_id st else k + 1), rg_revision := st_revision st + 1\<rparr>"
  proof -
    have "registry_of st' = (registry_of st)\<lparr>rg_commands := (\<lambda>j. get_by_id j st)(k := if occupied (c\<lparr>cmd_id := k\<rparr>)
        then Some (c\<lparr>cmd_id := k\<rparr>) else None), rg_next_id := st_next_command_id st', rg_revision := st_revision st'\<rparr>"
    proof (rule registry_of_slot [OF ok ok' spec(1)])
      show "cmd_id (st_slots st ! slot) = k" if "occupied (st_slots st ! slot)" using that spec(3,4) by blast
    qed (simp_all add: st' occ spec(2))
    then show ?thesis by (simp add: st' v spec(2))
  qed
  show ?thesis
  proof (cases ov)
    case True
    with spec(1,3) get_by_id_nth [OF ok spec(1)]
    have old: "rg_commands (registry_of st) k = Some (st_slots st ! slot)" "cmd_name (st_slots st ! slot) = cmd_name c"
      by auto
    have "registry_of st' = (registry_of st)\<lparr>rg_commands := (rg_commands (registry_of st))(k \<mapsto> c\<lparr>cmd_id := k\<rparr>),
        rg_revision := rg_revision (registry_of st) + 1\<rparr>"
      using R True by (simp add: registry_of_def)
    with reg_step.relearned [OF open_reg old valid] show ?thesis by metis
  next
    case False
    have "\<not> has_id k st"
      using False spec(4) ok by (auto simp: has_id_iff store_ok_def command_ok_def)
    then have fresh: "rg_commands (registry_of st) k = None" by (simp add: get_by_id_None)
    have "registry_of st' = (registry_of st)\<lparr>rg_commands := (rg_commands (registry_of st))(k \<mapsto> c\<lparr>cmd_id := k\<rparr>),
        rg_next_id := k + 1, rg_revision := rg_revision (registry_of st) + 1\<rparr>"
      using R False by (simp add: registry_of_def)
    moreover have "rg_next_id (registry_of st) = k" using False spec(4) by simp
    moreover have "name_free (cmd_name c) (registry_of st)" using False spec(4) by (simp add: name_free_iff [OF ok])
    ultimately show ?thesis using reg_step.learned [OF open_reg _ _ fresh valid] by metis
  qed
qed

lemma rename_step:
  assumes ok: "store_ok st" and run: "rename perfect_storage k nm st () = (OK, st', u)" and ok': "store_ok st'"
  shows "reg_step (Rename k nm) (registry_of st) (registry_of st')"
proof -
  from run have "writable st = OK" and valid: "validate_name nm = OK"
    by (auto simp: rename_def split: if_splits)
  then have open_reg: "\<not> rg_restoring (registry_of st)" by (simp add: writable_OK)
  from run \<open>writable st = OK\<close> valid obtain slot where slot: "find_slot_by_id k st = Some slot"
    by (auto simp: rename_def split: option.splits)
  note at = find_slot_by_id_SomeD [OF slot]
  have here: "rg_commands (registry_of st) k = Some (st_slots st ! slot)"
    using get_by_id_nth [OF ok, of slot] at by simp
  show ?thesis
  proof (cases "cmd_name (st_slots st ! slot) = nm")
    case True
    with run slot have "st' = st" by (auto simp: rename_def split: if_splits)
    with reg_step.unchanged_name [OF open_reg here True] show ?thesis by simp
  next
    case False
    with run slot \<open>writable st = OK\<close> valid obtain v where free: "find_slot nm st = None"
      and v: "next_revision (st_revision st) = Some v"
      and st': "st' = st\<lparr>st_slots := (st_slots st)[slot := (st_slots st ! slot)\<lparr>cmd_name := nm\<rparr>], st_revision := v\<rparr>"
      by (auto simp: rename_def Let_def split: if_splits option.splits)
    have "registry_of st' = (registry_of st)\<lparr>rg_commands := (rg_commands (registry_of st))(k \<mapsto> (st_slots st ! slot)\<lparr>cmd_name := nm\<rparr>),
        rg_revision := rg_revision (registry_of st) + 1\<rparr>"
      using registry_of_slot [OF ok ok', of slot "(st_slots st ! slot)\<lparr>cmd_name := nm\<rparr>" k] at st' next_revision_SomeD(3) [OF v]
      by (simp add: registry_of_def)
    moreover have "name_free nm (registry_of st)" using free by (simp add: name_free_iff [OF ok] has_def)
    ultimately show ?thesis using reg_step.renamed [OF open_reg here valid] by metis
  qed
qed

lemma remove_by_id_changes:
  assumes ok: "store_ok st" and run: "remove_by_id perfect_storage k st () = (OK, st', u)" and ok': "store_ok st'"
  shows "\<not> rg_restoring (registry_of st)" and "\<exists>c. rg_commands (registry_of st) k = Some c"
    and "registry_of st' = (registry_of st)\<lparr>rg_commands := (rg_commands (registry_of st))(k := None),
      rg_revision := rg_revision (registry_of st) + 1\<rparr>"
proof -
  from run obtain slot v where "writable st = OK" and slot: "find_slot_by_id k st = Some slot"
    and v: "next_revision (st_revision st) = Some v"
    and st': "st' = st\<lparr>st_slots := (st_slots st)[slot := empty_command], st_revision := v\<rparr>"
    by (auto simp: remove_by_id_def Let_def split: if_splits option.splits)
  note at = find_slot_by_id_SomeD [OF slot]
  show "\<not> rg_restoring (registry_of st)" using \<open>writable st = OK\<close> by (simp add: writable_OK)
  show "\<exists>c. rg_commands (registry_of st) k = Some c" using get_by_id_nth [OF ok, of slot] at by auto
  show "registry_of st' = (registry_of st)\<lparr>rg_commands := (rg_commands (registry_of st))(k := None),
      rg_revision := rg_revision (registry_of st) + 1\<rparr>"
    using registry_of_slot [OF ok ok', of slot empty_command k] at st' next_revision_SomeD(3) [OF v]
    by (simp add: registry_of_def)
qed

lemma import_step:
  assumes ok: "store_ok st" and run: "import_command perfect_storage c st () = (OK, st', u)" and ok': "store_ok st'"
  shows "reg_step (ImportCommand c) (registry_of st) (registry_of st')"
proof -
  from run obtain slot v where facts: "restore_incomplete st" "validate_name (cmd_name c) = OK"
      "cmd_id c < st_next_command_id st" "\<not> has_id (cmd_id c) st" "\<not> has (cmd_name c) st" "cmd_id c \<noteq> COMMAND_ID_NONE"
    and slot: "find_free_slot st = Some slot" and v: "next_revision (st_revision st) = Some v"
    and st': "st' = st\<lparr>st_slots := (st_slots st)[slot := c], st_revision := v\<rparr>"
    by (auto simp: import_command_def Let_def not_le restore_incomplete_def split: if_splits option.splits)
  note at = find_free_slot_SomeD [OF slot]
  have "registry_of st' = (registry_of st)\<lparr>rg_commands := (rg_commands (registry_of st))(cmd_id c \<mapsto> c),
      rg_revision := rg_revision (registry_of st) + 1\<rparr>"
    using registry_of_slot [OF ok ok', of slot c "cmd_id c"] at st' next_revision_SomeD(3) [OF v] facts
    by (simp add: registry_of_def occupied_def)
  moreover have "reg_step (ImportCommand c) (registry_of st) ((registry_of st)\<lparr>rg_commands :=
      (rg_commands (registry_of st))(cmd_id c \<mapsto> c), rg_revision := rg_revision (registry_of st) + 1\<rparr>)"
    using facts by (intro reg_step.imported) (simp_all add: get_by_id_None name_free_iff [OF ok])
  ultimately show ?thesis by metis
qed

lemma clear_all_step:
  assumes ok: "store_ok st" and run: "clear_all perfect_storage st () = (OK, st', u)"
  shows "reg_step ClearAll (registry_of st) (registry_of st')"
proof (cases "count st = 0 \<and> st_restore_state st = 0")
  case True
  with run have "st' = st" by (auto simp: clear_all_def split: if_splits)
  with True show ?thesis
    using reg_step.nothing_to_clear [of "registry_of st"] no_commands [OF ok] by (simp add: restore_incomplete_def)
next
  case False
  from run [unfolded clear_all_def if_not_P [OF False]] obtain v where v: "next_revision (st_revision st) = Some v"
    and st': "st' = st\<lparr>st_slots := replicate (unat (st_max_commands st)) empty_command, st_restore_state := 0, st_revision := v\<rparr>"
    by (auto simp: Let_def split: if_splits option.splits)
  have "get_by_id k st' = None" for k by (auto simp: st' get_by_id_None has_id_iff)
  then have "registry_of st' = (registry_of st)\<lparr>rg_commands := (\<lambda>_. None), rg_restoring := False,
      rg_revision := rg_revision (registry_of st) + 1\<rparr>"
    using next_revision_SomeD(3) [OF v] by (simp add: registry_of_def st' restore_incomplete_def)
  then show ?thesis using reg_step.cleared by metis
qed

lemma restore_begin_step:
  assumes ok: "store_ok st" and run: "restore_begin perfect_storage bid n st () = (OK, st', u)"
  shows "reg_step (RestoreBegin bid n) (registry_of st) (registry_of st')"
proof -
  from run obtain v where empty: "count st = 0" and n: "n \<ge> COMMAND_ID_FIRST"
    and v: "next_revision (st_revision st) = Some v"
    and st': "st' = st\<lparr>st_bridge_id := bid, st_next_command_id := n, st_restore_state := 1, st_revision := v\<rparr>"
    by (auto simp: restore_begin_def Let_def not_less split: if_splits option.splits)
  have "n \<noteq> COMMAND_ID_NONE" using n by (auto simp: store_consts)
  moreover have "registry_of st' = (registry_of st)\<lparr>rg_bridge_id := bid, rg_next_id := n, rg_restoring := True,
      rg_revision := rg_revision (registry_of st) + 1\<rparr>"
    using next_revision_SomeD(3) [OF v] get_by_id_slots [of st' st]
    by (simp add: registry_of_def st' restore_incomplete_def)
  moreover have "rg_commands (registry_of st) = (\<lambda>_. None)" using empty no_commands [OF ok] by simp
  ultimately show ?thesis using reg_step.restore_opened by metis
qed

lemma restore_commit_step:
  assumes run: "restore_commit perfect_storage w st () = (OK, st', u)"
  shows "reg_step (RestoreCommit w) (registry_of st) (registry_of st')"
proof -
  from run obtain v where busy: "restore_incomplete st"
    and v: "next_revision (if w > st_revision st then w else st_revision st) = Some v"
    and st': "st' = st\<lparr>st_restore_state := 0, st_revision := v\<rparr>"
    by (auto simp: restore_commit_def Let_def restore_incomplete_def split: if_splits option.splits)
  have "registry_of st' = (registry_of st)\<lparr>rg_restoring := False,
      rg_revision := (if w > rg_revision (registry_of st) then w else rg_revision (registry_of st)) + 1\<rparr>"
    using next_revision_SomeD(3) [OF v] get_by_id_slots [of st' st]
    by (simp add: registry_of_def st' restore_incomplete_def)
  with reg_step.restore_closed [of "registry_of st" w] busy show ?thesis by (metis registry_of_simps(4))
qed

lemma factory_reset_step:
  assumes "factory_reset B random st b = (OK, st', b')"
  shows "reg_step (FactoryReset random) (registry_of st) (registry_of st')"
proof -
  let ?id = "case random of None \<Rightarrow> replicate BRIDGE_ID_BYTES 0 | Some bytes \<Rightarrow> bytes"
  from assms have st': "st_slots st' = replicate (unat (st_max_commands st)) empty_command"
      "st_bridge_id st' = ?id" "st_next_command_id st' = COMMAND_ID_FIRST" "st_revision st' = REVISION_INITIAL"
      "st_restore_state st' = 0"
    by (auto simp: factory_reset_def mint_identity_def Let_def split: if_splits prod.splits)
  then have "get_by_id k st' = None" for k by (auto simp: get_by_id_None has_id_iff)
  with st' have "registry_of st' = (registry_of st)\<lparr>rg_bridge_id := ?id, rg_next_id := COMMAND_ID_FIRST,
      rg_revision := REVISION_INITIAL, rg_restoring := False, rg_commands := (\<lambda>_. None)\<rparr>"
    by (simp add: registry_of_def restore_incomplete_def)
  then show ?thesis using reg_step.reset [of random "registry_of st"] by metis
qed

lemma intended_step:
  assumes ok: "store_ok st" and typed: "op_typed op" and run: "exec perfect_storage op st () = (OK, st', u)"
  shows "reg_step op (registry_of st) (registry_of st')"
proof -
  have ok': "store_ok st'"
    by (rule intended_ok [OF ok _ typed]) (simp add: intended_def run)
  show ?thesis
  proof (cases op)
    case (Remove nm)
    with run obtain slot where slot: "find_slot nm st = Some slot"
      and gone: "remove_by_id perfect_storage (cmd_id (st_slots st ! slot)) st () = (OK, st', u)"
      by (auto simp: remove_def split: if_splits option.splits)
    note at = find_slot_SomeD [OF slot]
    have "rg_commands (registry_of st) (cmd_id (st_slots st ! slot)) = Some (st_slots st ! slot)"
      using get_by_id_nth [OF ok, of slot] at by simp
    with remove_by_id_changes [OF ok gone ok'] reg_step.removed_named at Remove show ?thesis by metis
  next
    case (RemoveById k)
    with run have gone: "remove_by_id perfect_storage k st () = (OK, st', u)" by simp
    from remove_by_id_changes [OF ok gone ok'] reg_step.removed RemoveById show ?thesis by metis
  qed (use run ok ok' put_step rename_step clear_all_step restore_begin_step import_step restore_commit_step
      factory_reset_step in auto)
qed

section \<open>Properties\<close>

text \<open>
  C6: The code's registry refines the abstract one: whatever the storage does, an operation that
  reports success is a step of the specification on the identity, the counter, the revision and
  the map from ids to commands, and one that reports an error is no step at all. Slots, searches
  and writes do not show.
\<close>

theorem operations_refine_registry:
  assumes "store_ok st" and "op_typed op" and "exec B op st b = (r, st', b')"
  shows "(r = OK \<longrightarrow> reg_step op (registry_of st) (registry_of st')) \<and>
    (r \<noteq> OK \<and> \<not> resets op \<longrightarrow> registry_of st' = registry_of st)"
proof (cases "resets op")
  case True
  then obtain random where "op = FactoryReset random" by (cases op) auto
  with assms(3) factory_reset_step [of B random st b st' b'] True show ?thesis by auto
next
  case False
  from exec_outcome [OF assms(1,3) False] show ?thesis
  proof
    assume i: "(r, st') = intended op st"
    then have run: "exec perfect_storage op st () = (r, st', ())" by (simp add: intended_def split: prod.splits)
    show ?thesis
    proof (cases "r = OK")
      case True
      with intended_step [OF assms(1,2)] run show ?thesis by simp
    next
      case False
      with intended_cases [OF i [symmetric] \<open>\<not> resets op\<close>] show ?thesis by auto
    qed
  qed simp
qed

lemma operations_refine_registry_witness:
  "\<exists>st'. exec perfect_storage (Put demo_command_a) demo_empty_store () = (OK, st', ()) \<and>
     reg_step (Put demo_command_a) (registry_of demo_empty_store) (registry_of st')"
proof -
  let ?run = "exec perfect_storage (Put demo_command_a) demo_empty_store ()"
  have "fst ?run = OK" by (simp add: store_eval demo_empty_store_def demo_command_a_def)
  then obtain st' where run: "?run = (OK, st', ())" by (metis prod.collapse unit_eq)
  have "op_typed (Put demo_command_a)" by simp
  from operations_refine_registry [OF demo_empty_store_ok this run] run show ?thesis by auto
qed

end
