(* ===== verification/CaptureValidator.thy ===== *)
theory CaptureValidator
  imports Bytes
begin

text \<open>
  \<open>components/rf_cloner/capture_validator.cpp\<close> and \<open>capture_validator.h\<close>: the checks on a received
  waveform, the splitting of a receive window into its repeats, and the estimate of the gap between
  them. A pulse is a signed 32-bit number of microseconds, a mark when positive and a space when
  negative; the intermediate widths of the code are kept.
\<close>

section \<open>Verdicts and limits\<close>

datatype frame_verdict = FRAME_OK | FRAME_TOO_FEW_PULSES | FRAME_TOO_MANY_PULSES | FRAME_PULSE_OUT_OF_RANGE

fun frame_verdict_to_string :: "frame_verdict \<Rightarrow> string" where
  "frame_verdict_to_string FRAME_OK = ''ok''"
| "frame_verdict_to_string FRAME_TOO_FEW_PULSES = ''too_few_pulses''"
| "frame_verdict_to_string FRAME_TOO_MANY_PULSES = ''too_many_pulses''"
| "frame_verdict_to_string FRAME_PULSE_OUT_OF_RANGE = ''pulse_out_of_range''"

record capture_limits =
  cl_min_pulses :: "16 word"
  cl_max_pulses :: "16 word"
  cl_min_pulse_us :: "32 word"
  cl_max_pulse_us :: "32 word"
  cl_tolerance_percent :: "8 word"

definition default_limits :: capture_limits where
  "default_limits = \<lparr>cl_min_pulses = 8, cl_max_pulses = 128, cl_min_pulse_us = 100,
     cl_max_pulse_us = 100000, cl_tolerance_percent = 25\<rparr>"

section \<open>One frame\<close>

definition strip_terminator :: "32 word list \<Rightarrow> 32 word list" where
  "strip_terminator timings = (if timings \<noteq> [] then butlast timings else timings)"

definition is_space :: "32 word \<Rightarrow> bool" where
  "is_space timing \<longleftrightarrow> sint timing < 0"

definition magnitude :: "32 word \<Rightarrow> 32 word" where
  "magnitude timing = (if is_space timing then word_of_int (- sint timing) else timing)"

definition pulse_in_range :: "capture_limits \<Rightarrow> 32 word \<Rightarrow> bool" where
  "pulse_in_range limits timing \<longleftrightarrow>
     timing \<noteq> 0 \<and> \<not> (magnitude timing < cl_min_pulse_us limits \<or> magnitude timing > cl_max_pulse_us limits)"

definition validate_frame :: "32 word list \<Rightarrow> capture_limits \<Rightarrow> frame_verdict" where
  "validate_frame timings limits =
     (if length timings < unat (cl_min_pulses limits) then FRAME_TOO_FEW_PULSES
      else if length timings > unat (cl_max_pulses limits) then FRAME_TOO_MANY_PULSES
      else if \<not> list_all (pulse_in_range limits) timings then FRAME_PULSE_OUT_OF_RANGE
      else FRAME_OK)"

text \<open>The bounds of an agreement, computed in 64 bits and cut to 32.\<close>

definition tolerance_lower :: "8 word \<Rightarrow> 32 word \<Rightarrow> 32 word" where
  "tolerance_lower tolerance_percent reference =
     ucast (ucast (100 - ucast tolerance_percent :: 32 word) * ucast reference div (100 :: 64 word))"

definition tolerance_upper :: "8 word \<Rightarrow> 32 word \<Rightarrow> 32 word" where
  "tolerance_upper tolerance_percent reference =
     ucast (ucast (100 + ucast tolerance_percent :: 32 word) * ucast reference div (100 :: 64 word))"

definition pulses_agree :: "8 word \<Rightarrow> 32 word \<Rightarrow> 32 word \<Rightarrow> bool" where
  "pulses_agree tolerance_percent a b \<longleftrightarrow>
     is_space a = is_space b \<and>
     \<not> (magnitude b < tolerance_lower tolerance_percent (magnitude a) \<or>
        magnitude b > tolerance_upper tolerance_percent (magnitude a))"

definition frames_agree :: "32 word list \<Rightarrow> 32 word list \<Rightarrow> 8 word \<Rightarrow> bool" where
  "frames_agree a b tolerance_percent \<longleftrightarrow>
     length a = length b \<and> a \<noteq> [] \<and> list_all2 (pulses_agree tolerance_percent) a b"

definition frame_duration_us :: "32 word list \<Rightarrow> 32 word" where
  "frame_duration_us timings =
     (let total = fold (\<lambda>timing total. total + ucast (magnitude timing)) timings (0 :: 64 word)
      in if total > 0xFFFFFFFF then 0xFFFFFFFF else ucast total)"

section \<open>Windows of several frames\<close>

record split_window =
  sw_frames :: "32 word list list"
  sw_gaps :: "32 word list"

definition is_frame_gap :: "32 word \<Rightarrow> 32 word \<Rightarrow> bool" where
  "is_frame_gap frame_gap_min_us timing \<longleftrightarrow> is_space timing \<and> magnitude timing \<ge> frame_gap_min_us"

text \<open>One round of the loop over the window, and the loop that drops gaps nothing follows.\<close>

definition split_step ::
  "32 word \<Rightarrow> 32 word \<Rightarrow> split_window \<times> 32 word list \<Rightarrow> split_window \<times> 32 word list" where
  "split_step frame_gap_min_us timing rc =
     (let (result, current) = rc
      in if is_frame_gap frame_gap_min_us timing
         then if current \<noteq> []
              then (\<lparr>sw_frames = sw_frames result @ [current], sw_gaps = sw_gaps result @ [magnitude timing]\<rparr>, [])
              else (result, current)
         else (result, current @ [timing]))"

function trim_gaps :: "nat \<Rightarrow> 32 word list \<Rightarrow> 32 word list" where
  "trim_gaps frames gaps = (if length gaps \<ge> frames \<and> gaps \<noteq> [] then trim_gaps frames (butlast gaps) else gaps)"
  by pat_completeness auto
termination by (relation "measure (\<lambda>(frames, gaps). length gaps)") auto

declare trim_gaps.simps [simp del]

definition split_frames :: "32 word list \<Rightarrow> 32 word \<Rightarrow> split_window" where
  "split_frames timings frame_gap_min_us =
     (let (result, current) = fold (split_step frame_gap_min_us) timings (\<lparr>sw_frames = [], sw_gaps = []\<rparr>, []);
          frames = (if current \<noteq> [] then sw_frames result @ [current] else sw_frames result)
      in \<lparr>sw_frames = frames, sw_gaps = trim_gaps (length frames) (sw_gaps result)\<rparr>)"

definition estimate_gap_us ::
  "32 word \<Rightarrow> 32 word \<Rightarrow> 32 word \<Rightarrow> 32 word \<Rightarrow> 32 word \<Rightarrow> 32 word \<Rightarrow> 32 word" where
  "estimate_gap_us span_us intervals frame_us min_gap_us max_gap_us min_intervals =
     (if intervals < min_intervals \<or> intervals = 0 then 0
      else
        let period_us = span_us div intervals
        in if period_us \<le> frame_us then 0
           else
             let gap = period_us - frame_us
             in if gap < min_gap_us \<or> gap > max_gap_us then 0 else gap)"

section \<open>Lemmas: magnitudes\<close>

lemma sint_range: "- 2147483648 \<le> sint (t :: 32 word)" "sint (t :: 32 word) < 2147483648"
  using sint_ge [of t] sint_lt [of t] by simp_all

lemma unat_magnitude: "unat (magnitude t) = nat \<bar>sint t\<bar>"
proof (cases "is_space t")
  case True
  have "uint (word_of_int (- sint t) :: 32 word) = - sint t"
    unfolding uint_word_of_int by (rule mod_pos_pos_trivial) (use True sint_range [of t] in \<open>simp_all add: is_space_def\<close>)
  with True show ?thesis by (simp add: magnitude_def unat_eq_nat_uint is_space_def)
next
  case False
  then have "0 \<le> sint t" by (simp add: is_space_def)
  have "uint (word_of_int (sint t) :: 32 word) = sint t"
    unfolding uint_word_of_int by (rule mod_pos_pos_trivial) (use \<open>0 \<le> sint t\<close> sint_range [of t] in simp_all)
  then have "uint t = sint t" by simp
  with False \<open>0 \<le> sint t\<close> show ?thesis by (simp add: magnitude_def unat_eq_nat_uint)
qed

lemma magnitude_le: "unat (magnitude t) \<le> 2147483648"
  using sint_range [of t] by (simp add: unat_magnitude)

lemma magnitude_space:
  assumes "0 < unat x" and "unat x \<le> 2147483648"
  shows "is_space (- x)" and "magnitude (- x) = x"
proof -
  have u: "int (unat x) = uint x" by simp
  have x: "0 < uint x" "uint x \<le> 2147483648" using assms u by linarith+
  have same: "nat (uint x) = unat x" using u by linarith
  have "sint (- x) = - uint x"
  proof -
    have "- x = word_of_int (- uint x)" by simp
    moreover have "sint (word_of_int (- uint x) :: 32 word) = - uint x"
      using x by (intro signed_take_bit_int_eq_self [THEN trans [OF sint_sbintrunc']]) simp_all
    ultimately show ?thesis by metis
  qed
  then show "is_space (- x)" and "magnitude (- x) = x"
    using x same by (simp_all add: is_space_def word_unat_eq_iff unat_magnitude)
qed

section \<open>Lemmas: splitting\<close>

lemma trim_gaps_take: "trim_gaps n gaps = take (n - 1) gaps"
proof (induction n gaps rule: trim_gaps.induct)
  case (1 n gaps)
  show ?case
  proof (cases "n \<le> length gaps \<and> gaps \<noteq> []")
    case True
    then have "trim_gaps n gaps = take (n - 1) (butlast gaps)"
      using 1 by (subst trim_gaps.simps) simp
    also have "\<dots> = take (n - 1) gaps"
      using True by (simp add: butlast_conv_take min_def) arith
    finally show ?thesis .
  next
    case False
    then show ?thesis by (subst trim_gaps.simps) auto
  qed
qed

definition frame_like :: "32 word \<Rightarrow> 32 word list \<Rightarrow> bool" where
  "frame_like frame_gap_min_us f \<longleftrightarrow> f \<noteq> [] \<and> \<not> list_ex (is_frame_gap frame_gap_min_us) f"

lemma split_fold_frame:
  "\<not> list_ex (is_frame_gap g) f \<Longrightarrow> fold (split_step g) f (result, current) = (result, current @ f)"
  by (induction f arbitrary: current) (simp_all add: split_step_def)

text \<open>What holds of the loop's state after the part of the window it has seen.\<close>

definition split_inv :: "32 word \<Rightarrow> 32 word list \<Rightarrow> split_window \<times> 32 word list \<Rightarrow> bool" where
  "split_inv g seen rc \<longleftrightarrow>
     (let (result, current) = rc
      in concat (sw_frames result) @ current = filter (\<lambda>t. \<not> is_frame_gap g t) seen \<and>
         length (sw_gaps result) = length (sw_frames result) \<and>
         list_all (frame_like g) (sw_frames result) \<and> \<not> list_ex (is_frame_gap g) current \<and>
         list_all (\<lambda>x. g \<le> x) (sw_gaps result))"

lemma split_step_inv: "split_inv g seen rc \<Longrightarrow> split_inv g (seen @ [t]) (split_step g t rc)"
  by (cases rc) (auto simp: split_inv_def split_step_def frame_like_def is_frame_gap_def Let_def)

lemma split_fold_inv: "split_inv g seen rc \<Longrightarrow> split_inv g (seen @ ts) (fold (split_step g) ts rc)"
proof (induction ts arbitrary: seen rc)
  case (Cons t ts)
  from Cons.IH [OF split_step_inv [OF Cons.prems]] show ?case by simp
qed simp

lemma split_facts:
  "concat (sw_frames (split_frames ts g)) = filter (\<lambda>t. \<not> is_frame_gap g t) ts \<and>
   list_all (frame_like g) (sw_frames (split_frames ts g)) \<and>
   length (sw_gaps (split_frames ts g)) = length (sw_frames (split_frames ts g)) - 1 \<and>
   list_all (\<lambda>x. g \<le> x) (sw_gaps (split_frames ts g))"
proof -
  obtain result current where run: "fold (split_step g) ts (\<lparr>sw_frames = [], sw_gaps = []\<rparr>, []) = (result, current)"
    by (metis surj_pair)
  have "split_inv g ts (result, current)"
    using split_fold_inv [of g "[]" "(\<lparr>sw_frames = [], sw_gaps = []\<rparr>, [])" ts] run by (simp add: split_inv_def)
  then show ?thesis
    by (auto simp: split_inv_def split_frames_def Let_def run trim_gaps_take frame_like_def list_all_iff dest: in_set_takeD)
qed

text \<open>A window as a held remote makes it: a frame, then a space and a frame, over and over.\<close>

definition held_window :: "32 word list \<Rightarrow> (32 word \<times> 32 word list) list \<Rightarrow> 32 word list" where
  "held_window first rest = first @ concat (map (\<lambda>(gap, f). - gap # f) rest)"

lemma split_fold_rest:
  assumes "0 < unat g" and "list_all (\<lambda>(gap, f). g \<le> gap \<and> unat gap \<le> 2147483648 \<and> frame_like g f) rest"
    and "current \<noteq> []"
  shows "fold (split_step g) (concat (map (\<lambda>(gap, f). - gap # f) rest)) (\<lparr>sw_frames = F, sw_gaps = G\<rparr>, current) =
    (\<lparr>sw_frames = F @ butlast (current # map snd rest), sw_gaps = G @ map fst rest\<rparr>, last (current # map snd rest))"
  using assms(2,3)
proof (induction rest arbitrary: F G current)
  case (Cons x rest)
  obtain gap f where x: "x = (gap, f)" by force
  with Cons.prems have gap: "g \<le> gap" "unat gap \<le> 2147483648" and f: "f \<noteq> []" "\<not> list_ex (is_frame_gap g) f"
    by (auto simp: frame_like_def)
  have "0 < unat gap" using gap(1) assms(1) by (simp add: word_le_nat_alt)
  with gap have step: "split_step g (- gap) (\<lparr>sw_frames = F, sw_gaps = G\<rparr>, current) =
      (\<lparr>sw_frames = F @ [current], sw_gaps = G @ [gap]\<rparr>, [])"
    using Cons.prems by (simp add: split_step_def is_frame_gap_def magnitude_space)
  show ?case
    using Cons.IH [of f] Cons.prems f by (simp add: x step split_fold_frame)
qed simp

lemma split_held:
  assumes "0 < unat g" and "frame_like g first"
    and "list_all (\<lambda>(gap, f). g \<le> gap \<and> unat gap \<le> 2147483648 \<and> frame_like g f) rest"
  shows "split_frames (held_window first rest) g = \<lparr>sw_frames = first # map snd rest, sw_gaps = map fst rest\<rparr>"
proof -
  have first: "first \<noteq> []" "\<not> list_ex (is_frame_gap g) first" using assms(2) by (auto simp: frame_like_def)
  let ?all = "first # map snd rest"
  have "fold (split_step g) (held_window first rest) (\<lparr>sw_frames = [], sw_gaps = []\<rparr>, []) =
      (\<lparr>sw_frames = butlast ?all, sw_gaps = map fst rest\<rparr>, last ?all)"
    using split_fold_rest [OF assms(1,3), of first "[]" "[]"] first by (simp add: held_window_def split_fold_frame)
  moreover have "last ?all \<noteq> []"
    using assms(3) first last_in_set [of ?all] by (auto simp: list_all_iff frame_like_def split: if_splits)
  moreover have "butlast ?all @ [last ?all] = ?all" by (rule append_butlast_last_id) simp
  ultimately show ?thesis by (simp only: split_frames_def Let_def prod.case if_True split_window.simps) (simp add: trim_gaps_take)
qed

section \<open>Properties: splitting\<close>

text \<open>
  Splitting loses nothing and invents nothing: the frames of a window, put together, are its
  pulses without the gaps, in order; no frame is empty or contains a gap; there is one gap less
  than there are frames, and each is as long as the threshold.
\<close>

theorem split_frames_spec:
  "concat (sw_frames (split_frames ts g)) = filter (\<lambda>t. \<not> is_frame_gap g t) ts \<and>
   list_all (frame_like g) (sw_frames (split_frames ts g)) \<and>
   length (sw_gaps (split_frames ts g)) = length (sw_frames (split_frames ts g)) - 1 \<and>
   list_all (\<lambda>x. g \<le> x) (sw_gaps (split_frames ts g))"
  by (rule split_facts)

text \<open>
  C28: What a held remote sends is taken apart into what it sent: every repeat, in order, and every
  gap between two of them to the microsecond, whatever the repeats are, as long as the threshold
  lies above the spaces inside a frame and below the gaps between frames.
\<close>

theorem held_window_split:
  assumes "0 < unat g" and "frame_like g first"
    and "list_all (\<lambda>(gap, f). g \<le> gap \<and> unat gap \<le> 2147483648 \<and> frame_like g f) rest"
  shows "split_frames (held_window first rest) g = \<lparr>sw_frames = first # map snd rest, sw_gaps = map fst rest\<rparr>"
  using assms by (rule split_held)

lemma held_window_split_witness:
  "split_frames (held_window [350, - 700, 350] [(9000, [360, - 690, 340]), (9100, [350, - 700])]) 3000 =
     \<lparr>sw_frames = [[350, - 700, 350], [360, - 690, 340], [350, - 700]], sw_gaps = [9000, 9100]\<rparr>"
  by (subst held_window_split)
    (simp_all add: frame_like_def is_frame_gap_def is_space_def magnitude_def word_le_nat_alt)

section \<open>Lemmas: tolerances\<close>

lemma unat_ucast_64 [simp]: "unat (ucast (x :: 32 word) :: 64 word) = unat x"
  using unsigned_less [of x, where ?'a = nat] by (simp add: unsigned_ucast_eq take_bit_nat_eq_self)

lemma unat_percent:
  assumes "unat (tol :: 8 word) \<le> 100"
  shows "unat (100 - ucast tol :: 32 word) = 100 - unat tol" and "unat (100 + ucast tol :: 32 word) = 100 + unat tol"
proof -
  have u: "unat (ucast tol :: 32 word) = unat tol"
    using unsigned_less [of tol, where ?'a = nat] by (simp add: unsigned_ucast_eq take_bit_nat_eq_self)
  then show "unat (100 - ucast tol :: 32 word) = 100 - unat tol"
    using assms by (subst unat_sub) (simp_all add: word_le_nat_alt)
  show "unat (100 + ucast tol :: 32 word) = 100 + unat tol"
    using assms u by (simp add: unat_word_ariths)
qed

lemma unat_scaled:
  assumes "p \<le> 200" and "unat (r :: 32 word) < 2147483648" and "unat (q :: 32 word) = p"
  shows "unat (ucast (ucast q * ucast r div (100 :: 64 word)) :: 32 word) = p * unat r div 100"
proof -
  have small: "p * unat r \<le> 200 * 2147483648" using assms(1,2) by (intro mult_le_mono) auto
  then have "unat (ucast q * ucast r :: 64 word) = p * unat r" using assms(3) by (simp add: unat_word_ariths)
  then have "unat (ucast q * ucast r div (100 :: 64 word)) = p * unat r div 100" by (simp add: unat_div_distrib)
  moreover have "p * unat r \<le> 200 * unat r" using assms(1) by simp
  then have "p * unat r < 429496729600" using assms(2) by linarith
  then have "p * unat r div 100 < 2 ^ 32" by (simp add: div_less_iff_less_mult)
  ultimately show ?thesis by (simp add: unsigned_ucast_eq take_bit_nat_eq_self)
qed

lemma unat_tolerances:
  assumes "unat tol \<le> 100" and "unat r < 2147483648"
  shows "unat (tolerance_lower tol r) = (100 - unat tol) * unat r div 100"
    and "unat (tolerance_upper tol r) = (100 + unat tol) * unat r div 100"
  unfolding tolerance_lower_def tolerance_upper_def
  using assms unat_percent [OF assms(1)] by (simp_all add: unat_scaled)

section \<open>Properties: agreement and estimate\<close>



text \<open>
  C30: The estimate from arrival times is as good as it claims: when the arrivals span so many true
  periods up to an error of at most a loop tick, an estimate that is given differs from the true
  gap by at most the tick divided by the number of intervals, rounded up; and it is always within
  the configured range.
\<close>

theorem estimate_gap_error:
  assumes est: "estimate_gap_us span intervals frame min_gap max_gap min_intervals = est" and "est \<noteq> 0"
    and span: "int (unat span) = int (unat intervals) * (int (unat frame) + gap) + jitter"
    and tick: "\<bar>jitter\<bar> \<le> int tick"
  shows "\<bar>int (unat est) - gap\<bar> \<le> int tick div int (unat intervals) + 1 \<and>
    min_gap \<le> est \<and> est \<le> max_gap \<and> min_intervals \<le> intervals"
proof -
  have n: "\<not> intervals < min_intervals" "intervals \<noteq> 0" and gap_range: "\<not> est < min_gap" "\<not> est > max_gap"
    and period: "\<not> span div intervals \<le> frame" and est': "est = span div intervals - frame"
    using est assms(2) by (auto simp: estimate_gap_us_def Let_def split: if_splits)
  let ?n = "int (unat intervals)"
  have "unat intervals \<noteq> 0" using n(2) by (simp add: unat_eq_0)
  then have pos: "0 < ?n" by linarith
  have "int (unat est) = int (unat span) div ?n - int (unat frame)"
    using period by (simp add: est' unat_sub unat_div_distrib word_le_nat_alt not_le of_nat_diff zdiv_int
        del: of_nat_unat)
  also have "int (unat span) div ?n = int (unat frame) + gap + jitter div ?n"
    unfolding span by (subst div_mult_self4) (use pos in simp_all)
  finally have diff: "int (unat est) - gap = jitter div ?n" by simp
  have "jitter div ?n \<le> int tick div ?n" by (rule zdiv_mono1) (use tick pos in auto)
  moreover have "- (int tick div ?n) - 1 \<le> jitter div ?n"
  proof -
    have "- (int tick div ?n) - 1 \<le> (- int tick) div ?n"
      using pos by (simp add: zdiv_zminus1_eq_if)
    also have "\<dots> \<le> jitter div ?n" by (rule zdiv_mono1) (use tick pos in auto)
    finally show ?thesis .
  qed
  moreover have "0 \<le> int tick div ?n" using pos by (simp add: pos_imp_zdiv_nonneg_iff)
  ultimately have "\<bar>int (unat est) - gap\<bar> \<le> int tick div ?n + 1" unfolding diff by linarith
  then show ?thesis using n gap_range by auto
qed

lemma estimate_gap_error_witness:
  "estimate_gap_us 480010 24 10000 1000 200000 3 = 10000 \<and>
   \<bar>int (unat (10000 :: 32 word)) - 10000\<bar> \<le> int 16000 div int (unat (24 :: 32 word)) + 1"
proof
  show run: "estimate_gap_us 480010 24 10000 1000 200000 3 = 10000" by (simp add: estimate_gap_us_def)
  show "\<bar>int (unat (10000 :: 32 word)) - 10000\<bar> \<le> int 16000 div int (unat (24 :: 32 word)) + 1"
    using estimate_gap_error [OF run, of 10000 10 16000] by simp
qed

end
