(* ===== verification/RfCloner.thy ===== *)
theory RfCloner
  imports StoreSpec CaptureValidator
begin

text \<open>
  \<open>components/rf_cloner/rf_cloner.cpp\<close> and \<open>rf_cloner.h\<close>: the component that learns commands from
  the receiver and replays them. Its state is one record: the registry and the storage behind it,
  the configuration, and the state of the learn in progress. A handler takes the clock readings
  it makes, of which there is at most one per clock in any run through the code, as arguments in
  the width of the clock, so subtraction wraps as it does there. What it publishes, calls back and
  transmits is appended to a list of effects. Log messages are left out.
\<close>

section \<open>States, failures and effects\<close>

datatype learn_state = LEARN_IDLE | LEARN_ARMED | LEARN_CAPTURED | LEARN_FAILED

fun learn_state_to_string :: "learn_state \<Rightarrow> string" where
  "learn_state_to_string LEARN_IDLE = ''idle''"
| "learn_state_to_string LEARN_ARMED = ''armed''"
| "learn_state_to_string LEARN_CAPTURED = ''captured''"
| "learn_state_to_string LEARN_FAILED = ''failed''"

datatype learn_failure =
    FAILURE_NONE | FAILURE_TIMEOUT | FAILURE_NO_REPEAT_AGREEMENT | FAILURE_TOO_FEW_PULSES
  | FAILURE_TOO_MANY_PULSES | FAILURE_PULSE_OUT_OF_RANGE | FAILURE_CANCELLED
  | FAILURE_NAME_REJECTED | FAILURE_STORE_ERROR

fun learn_failure_to_string :: "learn_failure \<Rightarrow> string" where
  "learn_failure_to_string FAILURE_NONE = ''none''"
| "learn_failure_to_string FAILURE_TIMEOUT = ''timeout''"
| "learn_failure_to_string FAILURE_NO_REPEAT_AGREEMENT = ''no_repeat_agreement''"
| "learn_failure_to_string FAILURE_TOO_FEW_PULSES = ''too_few_pulses''"
| "learn_failure_to_string FAILURE_TOO_MANY_PULSES = ''too_many_pulses''"
| "learn_failure_to_string FAILURE_PULSE_OUT_OF_RANGE = ''pulse_out_of_range''"
| "learn_failure_to_string FAILURE_CANCELLED = ''cancelled''"
| "learn_failure_to_string FAILURE_NAME_REJECTED = ''name_rejected''"
| "learn_failure_to_string FAILURE_STORE_ERROR = ''store_error''"

datatype node_effect =
    PublishedState string string
  | PublishedStats nat "32 word"
  | LearnStarted string
  | LearnSucceeded string
  | LearnFailedWith string
  | Transmitted "32 word list" "16 word" "32 word"
  | SentCommand string

definition GAP_INTERVAL_TARGET :: "32 word" where "GAP_INTERVAL_TARGET = 24"
definition GAP_MIN_INTERVALS :: "32 word" where "GAP_MIN_INTERVALS = 3"

record node_config =
  nc_has_transmitter :: bool
  nc_max_commands :: "8 word"
  nc_max_storage_bytes :: "32 word"
  nc_limits :: capture_limits
  nc_min_repeats :: "8 word"
  nc_frame_gap_min_us :: "32 word"
  nc_settle_ms :: "32 word"
  nc_learn_timeout_ms :: "32 word"
  nc_default_repeat_times :: "16 word"
  nc_default_gap_us :: "32 word"
  nc_min_gap_us :: "32 word"
  nc_max_gap_us :: "32 word"
  nc_frequency_hz :: "32 word"
  nc_key_salt :: "32 word"

definition default_node_config :: node_config where
  "default_node_config = \<lparr>nc_has_transmitter = False, nc_max_commands = 16, nc_max_storage_bytes = 12288,
     nc_limits = default_limits, nc_min_repeats = 3, nc_frame_gap_min_us = 3000, nc_settle_ms = 800,
     nc_learn_timeout_ms = 15000, nc_default_repeat_times = 20, nc_default_gap_us = 10000,
     nc_min_gap_us = 1000, nc_max_gap_us = 200000, nc_frequency_hz = 433920000, nc_key_salt = 0\<rparr>"

record 'b rf_cloner =
  rf_config :: node_config
  rf_store :: command_store
  rf_backend :: 'b
  rf_state :: learn_state
  rf_pending_name :: string
  rf_last_result :: string
  rf_candidate :: "32 word list"
  rf_agreements :: "32 word"
  rf_first_frame_us :: "32 word"
  rf_interval_count :: "32 word"
  rf_physical_gaps :: "32 word list"
  rf_armed_since_ms :: "32 word"
  rf_deadline_ms :: "32 word"
  rf_ready_since_ms :: "32 word"
  rf_last_frame_us :: "32 word"
  rf_ready :: bool
  rf_saw_frame :: bool
  rf_last_reject :: frame_verdict
  rf_looping :: bool
  rf_effects :: "node_effect list"

definition new_rf_cloner :: "node_config \<Rightarrow> 'b \<Rightarrow> 'b rf_cloner" where
  "new_rf_cloner config b = \<lparr>rf_config = config, rf_store = new_store, rf_backend = b,
     rf_state = LEARN_IDLE, rf_pending_name = '''', rf_last_result = '''', rf_candidate = [],
     rf_agreements = 0, rf_first_frame_us = 0, rf_interval_count = 0, rf_physical_gaps = [],
     rf_armed_since_ms = 0, rf_deadline_ms = 0, rf_ready_since_ms = 0, rf_last_frame_us = 0,
     rf_ready = False, rf_saw_frame = False, rf_last_reject = FRAME_OK, rf_looping = True, rf_effects = []\<rparr>"

section \<open>Publishing\<close>

definition emit :: "node_effect \<Rightarrow> 'b rf_cloner \<Rightarrow> 'b rf_cloner" where
  "emit e n = n\<lparr>rf_effects := rf_effects n @ [e]\<rparr>"

definition publish_state :: "'b rf_cloner \<Rightarrow> 'b rf_cloner" where
  "publish_state n = emit (PublishedState (learn_state_to_string (rf_state n)) (rf_last_result n)) n"

definition set_learn_state :: "learn_state \<Rightarrow> 'b rf_cloner \<Rightarrow> 'b rf_cloner" where
  "set_learn_state s n = publish_state (n\<lparr>rf_state := s\<rparr>)"

definition publish_store_stats :: "'b rf_cloner \<Rightarrow> 'b rf_cloner" where
  "publish_store_stats n = emit (PublishedStats (count (rf_store n)) (used_bytes (rf_store n))) n"

definition publish_result :: "string \<Rightarrow> 'b rf_cloner \<Rightarrow> 'b rf_cloner" where
  "publish_result result n = publish_state (n\<lparr>rf_last_result := result\<rparr>)"

text \<open>\<open>setup\<close>: the store is configured and loaded, and the loop is off until a learn arms it.\<close>

definition node_setup :: "'b storage \<Rightarrow> byte list option \<Rightarrow> 'b rf_cloner \<Rightarrow> 'b rf_cloner" where
  "node_setup B random n =
     (let config = rf_config n;
          st = configure True (nc_max_commands config) (cl_max_pulses (nc_limits config))
            (nc_max_storage_bytes config) (nc_key_salt config) (rf_store n);
          (report, st1, b1) = store_begin B random st (rf_backend n)
      in (publish_store_stats (publish_state (n\<lparr>rf_store := st1, rf_backend := b1\<rparr>)))\<lparr>rf_looping := False\<rparr>)"

section \<open>Learning\<close>

definition fail_learn :: "learn_failure \<Rightarrow> 'b rf_cloner \<Rightarrow> 'b rf_cloner" where
  "fail_learn failure n =
     emit (LearnFailedWith (learn_failure_to_string failure))
       (set_learn_state LEARN_FAILED
         (n\<lparr>rf_candidate := [], rf_physical_gaps := [], rf_agreements := 0, rf_ready := False,
           rf_last_result := learn_failure_to_string failure\<rparr>))"

text \<open>A learn that is refused before it is armed: the state passes through failed back to idle.\<close>

definition refuse_learn :: "string \<Rightarrow> string \<Rightarrow> 'b rf_cloner \<Rightarrow> 'b rf_cloner" where
  "refuse_learn nm result n =
     set_learn_state LEARN_IDLE
       (emit (LearnFailedWith result)
         (set_learn_state LEARN_FAILED (n\<lparr>rf_pending_name := nm, rf_last_result := result\<rparr>)))"

definition node_learn :: "string \<Rightarrow> 32 word \<Rightarrow> 32 word \<Rightarrow> 'b rf_cloner \<Rightarrow> 'b rf_cloner" where
  "node_learn nm timeout_ms now_ms n0 =
     (let n = (if rf_state n0 = LEARN_ARMED then fail_learn FAILURE_CANCELLED n0 else n0);
          name_check = validate_name nm
      in if name_check \<noteq> OK
         then refuse_learn nm (''name_rejected:'' @ store_result_to_string name_check) n
         else if \<not> has nm (rf_store n) \<and> count (rf_store n) \<ge> unat (st_max_commands (rf_store n))
         then refuse_learn nm ''store_full'' n
         else emit (LearnStarted nm)
           ((set_learn_state LEARN_ARMED
             (n\<lparr>rf_pending_name := nm, rf_candidate := [], rf_physical_gaps := [], rf_agreements := 0,
               rf_ready := False, rf_saw_frame := False, rf_last_reject := FRAME_OK,
               rf_armed_since_ms := now_ms,
               rf_deadline_ms := now_ms + (if timeout_ms > 0 then timeout_ms else nc_learn_timeout_ms (rf_config n)),
               rf_last_result := ''''\<rparr>))\<lparr>rf_looping := True\<rparr>))"

definition node_cancel :: "'b rf_cloner \<Rightarrow> 'b rf_cloner" where
  "node_cancel n = (if rf_state n \<noteq> LEARN_ARMED then n else fail_learn FAILURE_CANCELLED n)"

text \<open>The gap a capture is stored with: the median of the measured ones, an estimate, or the default.\<close>

definition resolve_gap_us :: "'b rf_cloner \<Rightarrow> 32 word" where
  "resolve_gap_us n =
     (let config = rf_config n;
          sorted = sort (rf_physical_gaps n);
          gap = sorted ! (length sorted div 2);
          estimated = estimate_gap_us (rf_last_frame_us n - rf_first_frame_us n) (rf_interval_count n)
            (frame_duration_us (rf_candidate n)) (nc_min_gap_us config) (nc_max_gap_us config) GAP_MIN_INTERVALS
      in if rf_physical_gaps n \<noteq> [] \<and> gap \<ge> nc_min_gap_us config \<and> gap \<le> nc_max_gap_us config then gap
         else if estimated \<noteq> 0 then estimated
         else nc_default_gap_us config)"

definition captured_command :: "'b rf_cloner \<Rightarrow> command" where
  "captured_command n = \<lparr>cmd_id = COMMAND_ID_NONE, cmd_name = rf_pending_name n,
     cmd_timings = rf_candidate n, cmd_gap_us = resolve_gap_us n,
     cmd_repeat_times = nc_default_repeat_times (rf_config n),
     cmd_frequency_hz = nc_frequency_hz (rf_config n), cmd_modulation = 0\<rparr>"

definition commit_capture :: "'b storage \<Rightarrow> 'b rf_cloner \<Rightarrow> 'b rf_cloner" where
  "commit_capture B n0 =
     (let c = captured_command n0;
          (result, st, b) = put B c (rf_store n0) (rf_backend n0);
          n = n0\<lparr>rf_store := st, rf_backend := b\<rparr>
      in if result \<noteq> OK
         then
           let last_result = ''store_error:'' @ store_result_to_string result
           in set_learn_state LEARN_IDLE
                (emit (LearnFailedWith last_result)
                  (set_learn_state LEARN_FAILED (n\<lparr>rf_last_result := last_result\<rparr>)))
         else
           emit (LearnSucceeded (cmd_name c))
             (publish_store_stats
               (set_learn_state LEARN_CAPTURED (n\<lparr>rf_last_result := cmd_name c\<rparr>))))"

section \<open>Receiving\<close>

text \<open>One round of the loop over the neighbouring frames of a window, with the flag \<open>consumed\<close>.\<close>

definition consume_pair ::
  "32 word list \<times> 32 word list \<times> 32 word \<Rightarrow> bool \<times> 'b rf_cloner \<Rightarrow> bool \<times> 'b rf_cloner" where
  "consume_pair x cn =
     (let (first, second, gap) = x;
          (consumed, n) = cn;
          limits = nc_limits (rf_config n);
          tolerance = cl_tolerance_percent limits
      in if validate_frame first limits \<noteq> FRAME_OK \<or> validate_frame second limits \<noteq> FRAME_OK
         then (consumed, n)
         else if \<not> frames_agree first second tolerance then (consumed, n)
         else
           let n1 = (if rf_candidate n = [] \<or> \<not> frames_agree (rf_candidate n) first tolerance
                     then n\<lparr>rf_candidate := first, rf_agreements := 1, rf_physical_gaps := [], rf_ready := False\<rparr>
                     else n)
           in (True, n1\<lparr>rf_agreements := rf_agreements n1 + 1,
                rf_physical_gaps := rf_physical_gaps n1 @ [gap], rf_saw_frame := True\<rparr>))"

definition frame_pairs :: "split_window \<Rightarrow> (32 word list \<times> 32 word list \<times> 32 word) list" where
  "frame_pairs split = zip (sw_frames split) (zip (tl (sw_frames split)) (sw_gaps split))"

text \<open>A capture that has been seen often enough is ready, and the settle time starts.\<close>

definition note_ready :: "32 word \<Rightarrow> 'b rf_cloner \<Rightarrow> 'b rf_cloner" where
  "note_ready now_ms n =
     (if rf_agreements n \<ge> ucast (nc_min_repeats (rf_config n)) \<and> \<not> rf_ready n
      then n\<lparr>rf_ready := True, rf_ready_since_ms := now_ms\<rparr> else n)"

definition consume_multi_frame ::
  "'b storage \<Rightarrow> 32 word list \<Rightarrow> 32 word \<Rightarrow> 'b rf_cloner \<Rightarrow> bool \<times> 'b rf_cloner" where
  "consume_multi_frame B blob now_ms n =
     (let split = split_frames blob (nc_frame_gap_min_us (rf_config n))
      in if length (sw_frames split) < 2 then (False, n)
         else
           let (consumed, n1) = fold consume_pair (frame_pairs split) (False, n)
           in if \<not> consumed then (False, n1)
              else
                let n2 = note_ready now_ms n1
                in (True, if rf_ready n2 \<and> length (rf_physical_gaps n2) \<ge> 2 then commit_capture B n2 else n2))"

text \<open>
  \<open>on_receive\<close>, which leaves every window to the other listeners: it always returns false, so the
  model returns the new state only.
\<close>

definition on_receive :: "'b storage \<Rightarrow> 32 word list \<Rightarrow> 32 word \<Rightarrow> 32 word \<Rightarrow> 'b rf_cloner \<Rightarrow> 'b rf_cloner" where
  "on_receive B raw_data now_us now_ms n0 =
     (if rf_state n0 \<noteq> LEARN_ARMED then n0
      else
        let frame = strip_terminator raw_data;
            (consumed, n) = consume_multi_frame B frame now_ms n0;
            limits = nc_limits (rf_config n);
            verdict = validate_frame frame limits
        in if consumed then n
           else if verdict \<noteq> FRAME_OK then n\<lparr>rf_last_reject := verdict\<rparr>
           else if rf_candidate n = [] \<or> \<not> frames_agree (rf_candidate n) frame (cl_tolerance_percent limits)
           then n\<lparr>rf_saw_frame := True, rf_candidate := frame, rf_agreements := 1, rf_ready := False,
                  rf_first_frame_us := now_us, rf_last_frame_us := now_us, rf_interval_count := 0\<rparr>
           else
             let delta_us = now_us - rf_last_frame_us n;
                 n1 = n\<lparr>rf_saw_frame := True, rf_agreements := rf_agreements n + 1, rf_last_frame_us := now_us\<rparr>;
                 n2 = (if delta_us > frame_duration_us frame + nc_max_gap_us (rf_config n)
                       then n1\<lparr>rf_first_frame_us := now_us, rf_interval_count := 0\<rparr>
                       else n1\<lparr>rf_interval_count := rf_interval_count n1 + 1\<rparr>);
                 n3 = note_ready now_ms n2
             in if rf_ready n3 \<and> rf_interval_count n3 \<ge> GAP_INTERVAL_TARGET then commit_capture B n3 else n3)"

text \<open>Why a learn that has run out of time failed.\<close>

definition timeout_failure :: "'b rf_cloner \<Rightarrow> learn_failure" where
  "timeout_failure n =
     (if rf_saw_frame n then FAILURE_NO_REPEAT_AGREEMENT
      else case rf_last_reject n of
        FRAME_OK \<Rightarrow> FAILURE_TIMEOUT
      | FRAME_TOO_FEW_PULSES \<Rightarrow> FAILURE_TOO_FEW_PULSES
      | FRAME_TOO_MANY_PULSES \<Rightarrow> FAILURE_TOO_MANY_PULSES
      | FRAME_PULSE_OUT_OF_RANGE \<Rightarrow> FAILURE_PULSE_OUT_OF_RANGE)"

definition node_loop :: "'b storage \<Rightarrow> 32 word \<Rightarrow> 'b rf_cloner \<Rightarrow> 'b rf_cloner" where
  "node_loop B now n =
     (if rf_state n \<noteq> LEARN_ARMED then n\<lparr>rf_looping := False\<rparr>
      else if rf_ready n \<and> now - rf_ready_since_ms n \<ge> nc_settle_ms (rf_config n) then commit_capture B n
      else if \<not> rf_ready n \<and> sint (now - rf_deadline_ms n) \<ge> 0 then fail_learn (timeout_failure n) n
      else n)"

section \<open>Sending\<close>

definition transmit_command :: "command \<Rightarrow> 16 word \<Rightarrow> 32 word \<Rightarrow> 'b rf_cloner \<Rightarrow> 'b rf_cloner" where
  "transmit_command c repeat_override gap_override n =
     emit (SentCommand (cmd_name c))
       (emit (Transmitted (cmd_timings c)
           (if repeat_override > 0 then repeat_override else cmd_repeat_times c)
           (if gap_override > 0 then gap_override else cmd_gap_us c)) n)"

definition node_send :: "string \<Rightarrow> 16 word \<Rightarrow> 32 word \<Rightarrow> 'b rf_cloner \<Rightarrow> bool \<times> 'b rf_cloner" where
  "node_send nm repeat_override gap_override n =
     (if \<not> nc_has_transmitter (rf_config n) then (False, n)
      else case get nm (rf_store n) of
        None \<Rightarrow> (False, publish_result (''not_found:'' @ nm) n)
      | Some c \<Rightarrow> (True, transmit_command c repeat_override gap_override n))"

definition uint_to_string :: "32 word \<Rightarrow> string" where
  "uint_to_string w = py_str_int (uint w)"

definition node_send_by_id :: "32 word \<Rightarrow> 16 word \<Rightarrow> 32 word \<Rightarrow> 'b rf_cloner \<Rightarrow> bool \<times> 'b rf_cloner" where
  "node_send_by_id command_id repeat_override gap_override n =
     (if \<not> nc_has_transmitter (rf_config n) then (False, n)
      else case get_by_id command_id (rf_store n) of
        None \<Rightarrow> (False, publish_result (''not_found:#'' @ uint_to_string command_id) n)
      | Some c \<Rightarrow> (True, transmit_command c repeat_override gap_override n))"

section \<open>Changing the registry\<close>

text \<open>What every wrapper of a store operation does on failure, and the state it works on.\<close>

definition with_store :: "command_store \<Rightarrow> 'b \<Rightarrow> 'b rf_cloner \<Rightarrow> 'b rf_cloner" where
  "with_store st b n = n\<lparr>rf_store := st, rf_backend := b\<rparr>"

definition node_rename :: "'b storage \<Rightarrow> 32 word \<Rightarrow> string \<Rightarrow> 'b rf_cloner \<Rightarrow> bool \<times> 'b rf_cloner" where
  "node_rename B command_id new_name n =
     (let (result, st, b) = rename B command_id new_name (rf_store n) (rf_backend n)
      in if result \<noteq> OK
         then (False, publish_result (''rename_failed:'' @ store_result_to_string result) (with_store st b n))
         else (True, publish_result (''renamed:'' @ new_name) (with_store st b n)))"

definition node_erase :: "'b storage \<Rightarrow> string \<Rightarrow> 'b rf_cloner \<Rightarrow> bool \<times> 'b rf_cloner" where
  "node_erase B nm n =
     (let (result, st, b) = remove B nm (rf_store n) (rf_backend n)
      in if result \<noteq> OK
         then (False, publish_result (''delete_failed:'' @ store_result_to_string result) (with_store st b n))
         else (True, publish_store_stats (publish_result (''deleted:'' @ nm) (with_store st b n))))"

definition node_erase_by_id :: "'b storage \<Rightarrow> 32 word \<Rightarrow> 'b rf_cloner \<Rightarrow> bool \<times> 'b rf_cloner" where
  "node_erase_by_id B command_id n =
     (let known = get_by_id command_id (rf_store n);
          (result, st, b) = remove_by_id B command_id (rf_store n) (rf_backend n)
      in if result \<noteq> OK
         then (False, publish_result (''delete_failed:'' @ store_result_to_string result) (with_store st b n))
         else (True, publish_store_stats (publish_result
           (''deleted:'' @ (case known of Some c \<Rightarrow> cmd_name c | None \<Rightarrow> ''#'' @ uint_to_string command_id))
           (with_store st b n))))"

definition node_clear_all :: "'b storage \<Rightarrow> 'b rf_cloner \<Rightarrow> 'b rf_cloner" where
  "node_clear_all B n =
     (let (result, st, b) = clear_all B (rf_store n) (rf_backend n)
      in if result \<noteq> OK
         then publish_result (''clear_failed:'' @ store_result_to_string result) (with_store st b n)
         else publish_store_stats (publish_result ''cleared'' (with_store st b n)))"

definition node_factory_reset :: "'b storage \<Rightarrow> byte list option \<Rightarrow> 'b rf_cloner \<Rightarrow> bool \<times> 'b rf_cloner" where
  "node_factory_reset B random n =
     (let (result, st, b) = factory_reset B random (rf_store n) (rf_backend n)
      in if result \<noteq> OK
         then (False, publish_result (''factory_reset_failed:'' @ store_result_to_string result) (with_store st b n))
         else (True, publish_store_stats (publish_result ''factory_reset'' (with_store st b n))))"

section \<open>Restoring\<close>

definition hex_value :: "char \<Rightarrow> nat option" where
  "hex_value c =
     (let n = (of_char c :: nat)
      in if 48 \<le> n \<and> n \<le> 57 then Some (n - 48)
         else if 97 \<le> n \<and> n \<le> 102 then Some (n - 97 + 10)
         else if 65 \<le> n \<and> n \<le> 70 then Some (n - 65 + 10)
         else None)"

fun hex_bytes :: "string \<Rightarrow> byte list option" where
  "hex_bytes [] = Some []"
| "hex_bytes [c] = None"
| "hex_bytes (c # d # cs) =
     (case (hex_value c, hex_value d, hex_bytes cs) of
        (Some x, Some y, Some bytes) \<Rightarrow> Some (word_of_nat (16 * x + y) # bytes)
      | _ \<Rightarrow> None)"

definition parse_bridge_id :: "string \<Rightarrow> byte list option" where
  "parse_bridge_id s = (if length s \<noteq> BRIDGE_ID_BYTES * 2 then None else hex_bytes s)"

definition node_restore_begin ::
  "'b storage \<Rightarrow> string \<Rightarrow> 32 word \<Rightarrow> 'b rf_cloner \<Rightarrow> bool \<times> 'b rf_cloner" where
  "node_restore_begin B hex_id next_command_id n =
     (case parse_bridge_id hex_id of
        None \<Rightarrow> (False, publish_result ''restore_failed:bad_bridge_id'' n)
      | Some bridge_id \<Rightarrow>
          let (result, st, b) = restore_begin B bridge_id next_command_id (rf_store n) (rf_backend n)
          in if result \<noteq> OK
             then (False, publish_result (''restore_failed:'' @ store_result_to_string result) (with_store st b n))
             else (True, publish_result ''restore_started'' (with_store st b n)))"

definition node_import_command ::
  "'b storage \<Rightarrow> 32 word \<Rightarrow> string \<Rightarrow> 32 word list \<Rightarrow> 32 word \<Rightarrow> 16 word \<Rightarrow> 32 word \<Rightarrow> 8 word \<Rightarrow>
     'b rf_cloner \<Rightarrow> bool \<times> 'b rf_cloner" where
  "node_import_command B command_id nm timings gap_us repeat_times frequency_hz modulation n =
     (let c = \<lparr>cmd_id = command_id, cmd_name = nm, cmd_timings = timings, cmd_gap_us = gap_us,
            cmd_repeat_times = repeat_times, cmd_frequency_hz = frequency_hz, cmd_modulation = modulation\<rparr>;
          (result, st, b) = import_command B c (rf_store n) (rf_backend n)
      in if result \<noteq> OK
         then (False, publish_result (''import_failed:'' @ store_result_to_string result) (with_store st b n))
         else (True, publish_store_stats (publish_result (''imported:'' @ nm) (with_store st b n))))"

text \<open>\<open>source_revision\<close> is signed, as the action delivers it.\<close>

definition node_restore_commit :: "'b storage \<Rightarrow> 32 word \<Rightarrow> 'b rf_cloner \<Rightarrow> bool \<times> 'b rf_cloner" where
  "node_restore_commit B source_revision n =
     (if sint source_revision < 0
      then (False, publish_result ''restore_commit_failed:bad_source_revision'' n)
      else
        let (result, st, b) = restore_commit B source_revision (rf_store n) (rf_backend n)
        in if result \<noteq> OK
           then (False, publish_result (''restore_commit_failed:'' @ store_result_to_string result) (with_store st b n))
           else (True, publish_store_stats (publish_result ''restore_committed'' (with_store st b n))))"

section \<open>The component as a machine\<close>

text \<open>Everything that can happen to the component, as data, and the step it makes.\<close>

datatype rf_input =
    Learn string "32 word" "32 word"
  | Cancel
  | Receive "32 word list" "32 word" "32 word"
  | Tick "32 word"
  | Send string "16 word" "32 word"
  | SendById "32 word" "16 word" "32 word"
  | RenameCommand "32 word" string
  | Erase string
  | EraseById "32 word"
  | ClearCommands
  | ResetNode "byte list option"
  | BeginRestore string "32 word"
  | Import "32 word" string "32 word list" "32 word" "16 word" "32 word" "8 word"
  | CommitRestore "32 word"

fun node_step :: "'b storage \<Rightarrow> rf_input \<Rightarrow> 'b rf_cloner \<Rightarrow> 'b rf_cloner" where
  "node_step B (Learn nm timeout_ms now_ms) n = node_learn nm timeout_ms now_ms n"
| "node_step B Cancel n = node_cancel n"
| "node_step B (Receive raw_data now_us now_ms) n = on_receive B raw_data now_us now_ms n"
| "node_step B (Tick now_ms) n = (if rf_looping n then node_loop B now_ms n else n)"
| "node_step B (Send nm repeats gap) n = snd (node_send nm repeats gap n)"
| "node_step B (SendById command_id repeats gap) n = snd (node_send_by_id command_id repeats gap n)"
| "node_step B (RenameCommand command_id nm) n = snd (node_rename B command_id nm n)"
| "node_step B (Erase nm) n = snd (node_erase B nm n)"
| "node_step B (EraseById command_id) n = snd (node_erase_by_id B command_id n)"
| "node_step B ClearCommands n = node_clear_all B n"
| "node_step B (ResetNode random) n = snd (node_factory_reset B random n)"
| "node_step B (BeginRestore hex_id next_id) n = snd (node_restore_begin B hex_id next_id n)"
| "node_step B (Import command_id nm timings gap repeats frequency modulation) n =
     snd (node_import_command B command_id nm timings gap repeats frequency modulation n)"
| "node_step B (CommitRestore source_revision) n = snd (node_restore_commit B source_revision n)"

definition run_node :: "'b storage \<Rightarrow> rf_input list \<Rightarrow> 'b rf_cloner \<Rightarrow> 'b rf_cloner" where
  "run_node B inputs n = fold (node_step B) inputs n"

end
