(* ===== verification/Learning.thy ===== *)
theory Learning
  imports RfCloner
begin

text \<open>
  What holds of the component over everything that can happen to it: which captures it accepts,
  what it stores them with, how a learn ends, and that every change of the registry goes through
  one of the registry's own operations.
\<close>

lemmas publish_defs = emit_def publish_state_def set_learn_state_def publish_store_stats_def
  publish_result_def with_store_def

section \<open>Invariant\<close>

definition capture_ok :: "'b rf_cloner \<Rightarrow> bool" where
  "capture_ok n \<longleftrightarrow>
     (rf_candidate n \<noteq> [] \<longrightarrow> validate_frame (rf_candidate n) (nc_limits (rf_config n)) = FRAME_OK) \<and>
     (rf_ready n \<longrightarrow> rf_candidate n \<noteq> []) \<and>
     list_all (\<lambda>gap. nc_frame_gap_min_us (rf_config n) \<le> gap) (rf_physical_gaps n)"

definition node_ok :: "'b rf_cloner \<Rightarrow> bool" where
  "node_ok n \<longleftrightarrow>
     store_ok (rf_store n) \<and> capture_ok n \<and>
     (rf_state n = LEARN_ARMED \<longrightarrow> rf_looping n \<and> validate_name (rf_pending_name n) = OK)"

text \<open>A command as a learn stores it: a checked waveform, a gap in range or the default one.\<close>

definition gap_configured :: "node_config \<Rightarrow> 32 word \<Rightarrow> bool" where
  "gap_configured config gap \<longleftrightarrow>
     nc_min_gap_us config \<le> gap \<and> gap \<le> nc_max_gap_us config \<or> gap = nc_default_gap_us config"

definition vouched :: "node_config \<Rightarrow> command \<Rightarrow> bool" where
  "vouched config c \<longleftrightarrow>
     validate_frame (cmd_timings c) (nc_limits config) = FRAME_OK \<and> gap_configured config (cmd_gap_us c) \<and>
     cmd_repeat_times c = nc_default_repeat_times config \<and> cmd_frequency_hz c = nc_frequency_hz config \<and>
     cmd_modulation c = 0"

section \<open>Lemmas: a capture\<close>

lemma estimate_range:
  "estimate_gap_us x y z lo hi k \<noteq> 0 \<Longrightarrow>
   lo \<le> estimate_gap_us x y z lo hi k \<and> estimate_gap_us x y z lo hi k \<le> hi"
  by (auto simp: estimate_gap_us_def Let_def not_less split: if_splits)

lemma resolve_gap_configured: "gap_configured (rf_config n) (resolve_gap_us n)"
  unfolding resolve_gap_us_def gap_configured_def Let_def by (auto dest: estimate_range)

lemma captured_vouched:
  "capture_ok n \<Longrightarrow> rf_ready n \<Longrightarrow> vouched (rf_config n) (captured_command n)"
  by (simp add: vouched_def captured_command_def resolve_gap_configured capture_ok_def)

text \<open>Two states that differ at most in the capture and the effects.\<close>

definition same_node :: "'b rf_cloner \<Rightarrow> 'b rf_cloner \<Rightarrow> bool" where
  "same_node n n' \<longleftrightarrow>
     rf_config n' = rf_config n \<and> rf_store n' = rf_store n \<and> rf_backend n' = rf_backend n \<and>
     rf_state n' = rf_state n \<and> rf_pending_name n' = rf_pending_name n \<and> rf_looping n' = rf_looping n"

lemma same_node_refl [simp]: "same_node n n"
  by (simp add: same_node_def)

lemma same_node_trans: "same_node n n' \<Longrightarrow> same_node n' n'' \<Longrightarrow> same_node n n''"
  by (simp add: same_node_def)

lemma note_ready_ok:
  assumes "capture_ok n" and "rf_candidate n \<noteq> []"
  shows "capture_ok (note_ready now n)" and "same_node n (note_ready now n)"
  using assms by (simp_all add: note_ready_def capture_ok_def same_node_def)

lemma consume_pair_ok:
  assumes "capture_ok n" and "nc_frame_gap_min_us (rf_config n) \<le> gap"
    and "consume_pair (f1, f2, gap) (cons, n) = (cons', n')" and "cons \<longrightarrow> rf_candidate n \<noteq> []"
  shows "capture_ok n' \<and> same_node n n' \<and> (cons' \<longrightarrow> rf_candidate n' \<noteq> []) \<and> (\<not> cons' \<longrightarrow> n' = n)"
  using assms
  by (auto simp: consume_pair_def capture_ok_def same_node_def Let_def frames_agree_def split: if_splits)

lemma consume_pairs_ok:
  assumes "capture_ok n" and "\<forall>(f1, f2, gap) \<in> set pairs. nc_frame_gap_min_us (rf_config n) \<le> gap"
    and "fold consume_pair pairs (cons, n) = (cons', n')" and "cons \<longrightarrow> rf_candidate n \<noteq> []"
  shows "capture_ok n' \<and> same_node n n' \<and> (cons' \<longrightarrow> rf_candidate n' \<noteq> []) \<and> (\<not> cons' \<longrightarrow> n' = n)"
  using assms
proof (induction pairs arbitrary: cons n)
  case (Cons x pairs)
  obtain f1 f2 gap where x: "x = (f1, f2, gap)" by (cases x) auto
  obtain c1 n1 where step: "consume_pair x (cons, n) = (c1, n1)" by force
  have "nc_frame_gap_min_us (rf_config n) \<le> gap" using Cons.prems(2) x by simp
  from consume_pair_ok [OF Cons.prems(1) this step [unfolded x] Cons.prems(4)]
  have one: "capture_ok n1" "same_node n n1" "c1 \<longrightarrow> rf_candidate n1 \<noteq> []" "\<not> c1 \<longrightarrow> n1 = n" by blast+
  have "rf_config n1 = rf_config n" using one(2) by (simp add: same_node_def)
  with Cons.IH [OF one(1) _ _ one(3)] Cons.prems(2,3) step
  have rest: "capture_ok n' \<and> same_node n1 n' \<and> (cons' \<longrightarrow> rf_candidate n' \<noteq> []) \<and> (\<not> cons' \<longrightarrow> n' = n1)"
    by simp
  have "c1 \<longrightarrow> cons'"
  proof -
    have mono: "fst (fold consume_pair ps (True, m))" for ps and m :: "'b rf_cloner"
      by (induction ps arbitrary: m) (auto simp: consume_pair_def Let_def)
    show ?thesis using mono [of pairs n1] Cons.prems(3) step by auto
  qed
  with rest one show ?case using same_node_trans by blast
qed auto

lemma frame_pairs_gaps:
  "(f1, f2, gap) \<in> set (frame_pairs (split_frames blob g)) \<Longrightarrow> g \<le> gap"
  using split_facts [of blob g]
  by (auto simp: frame_pairs_def list_all_iff dest!: set_zip_rightD)

section \<open>Lemmas: what a step does to the registry\<close>

text \<open>
  The registry of \<open>n'\<close> is the one of \<open>n\<close>, or one of the registry's own operations satisfying
  \<open>P\<close> has been carried out on it; the configuration is the same.
\<close>

definition store_move ::
  "'b storage \<Rightarrow> (store_op \<Rightarrow> bool) \<Rightarrow> 'b rf_cloner \<Rightarrow> 'b rf_cloner \<Rightarrow> bool" where
  "store_move B P n n' \<longleftrightarrow> rf_config n' = rf_config n \<and>
     (rf_store n' = rf_store n \<and> rf_backend n' = rf_backend n \<or>
      (\<exists>op r. P op \<and> exec B op (rf_store n) (rf_backend n) = (r, rf_store n', rf_backend n')))"

lemma store_move_same: "same_node n n' \<Longrightarrow> store_move B P n n'"
  by (simp add: store_move_def same_node_def)

lemma store_move_still:
  "rf_config n' = rf_config n \<Longrightarrow> rf_store n' = rf_store n \<Longrightarrow> rf_backend n' = rf_backend n \<Longrightarrow> store_move B P n n'"
  by (simp add: store_move_def)

lemma store_move_exec:
  "exec B op (rf_store n) (rf_backend n) = (r, rf_store n', rf_backend n') \<Longrightarrow> P op \<Longrightarrow>
   rf_config n' = rf_config n \<Longrightarrow> store_move B P n n'"
  by (auto simp: store_move_def)

lemma store_move_ok:
  assumes "store_ok (rf_store n)" and "store_move B P n n'" and "\<And>op. P op \<Longrightarrow> op_typed op"
  shows "store_ok (rf_store n')"
  using assms exec_ok unfolding store_move_def by metis

text \<open>Storing a capture.\<close>

definition captures :: "'b rf_cloner \<Rightarrow> store_op \<Rightarrow> bool" where
  "captures n op \<longleftrightarrow> (\<exists>c. op = Put c \<and> cmd_name c = rf_pending_name n \<and> vouched (rf_config n) c)"

lemma commit_capture_move:
  assumes "capture_ok n" and "rf_ready n"
  shows "store_move B (captures n) n (commit_capture B n)"
proof -
  obtain r st b where run: "put B (captured_command n) (rf_store n) (rf_backend n) = (r, st, b)"
    by (metis prod_cases3)
  have "captures n (Put (captured_command n))"
    using captured_vouched [OF assms] by (auto simp: captures_def captured_command_def)
  then show ?thesis
    by (rule store_move_exec [rotated]) (auto simp: run commit_capture_def publish_defs Let_def)
qed

lemma commit_capture_keeps:
  "rf_config (commit_capture B n) = rf_config n" "rf_candidate (commit_capture B n) = rf_candidate n"
  "rf_ready (commit_capture B n) = rf_ready n" "rf_physical_gaps (commit_capture B n) = rf_physical_gaps n"
  "rf_state (commit_capture B n) \<noteq> LEARN_ARMED"
  by (auto simp: commit_capture_def publish_defs Let_def split: prod.split)

lemma commit_capture_ok: "capture_ok n \<Longrightarrow> capture_ok (commit_capture B n)"
  by (simp add: capture_ok_def commit_capture_keeps)

lemma fail_learn_ok: "capture_ok (fail_learn failure n)" "store_move B P n (fail_learn failure n)"
  by (simp_all add: fail_learn_def publish_defs capture_ok_def store_move_def)

text \<open>Where a received window leads: a capture that is kept on, or one that is stored.\<close>

definition receives :: "'b storage \<Rightarrow> 'b rf_cloner \<Rightarrow> 'b rf_cloner \<Rightarrow> bool" where
  "receives B n n' \<longleftrightarrow>
     capture_ok n' \<and> (same_node n n' \<or>
       (\<exists>m. same_node n m \<and> capture_ok m \<and> rf_ready m \<and> n' = commit_capture B m))"

lemma receives_kept: "capture_ok n' \<Longrightarrow> same_node n n' \<Longrightarrow> receives B n n'"
  by (simp add: receives_def)

lemma receives_committed: "same_node n m \<Longrightarrow> capture_ok m \<Longrightarrow> rf_ready m \<Longrightarrow> receives B n (commit_capture B m)"
  unfolding receives_def using commit_capture_ok by blast

lemma consume_multi_frame_ok:
  assumes "capture_ok n" and "consume_multi_frame B blob now_ms n = (consumed, n')"
  shows "receives B n n' \<and> (\<not> consumed \<longrightarrow> n' = n)"
proof (cases "length (sw_frames (split_frames blob (nc_frame_gap_min_us (rf_config n)))) < 2")
  case True
  with assms show ?thesis by (auto simp: consume_multi_frame_def receives_kept Let_def)
next
  case False
  let ?pairs = "frame_pairs (split_frames blob (nc_frame_gap_min_us (rf_config n)))"
  obtain c n1 where run: "fold consume_pair ?pairs (False, n) = (c, n1)" by force
  have "\<forall>(f1, f2, gap) \<in> set ?pairs. nc_frame_gap_min_us (rf_config n) \<le> gap" using frame_pairs_gaps by blast
  from consume_pairs_ok [OF assms(1) this run]
  have n1: "capture_ok n1" "same_node n n1" "c \<longrightarrow> rf_candidate n1 \<noteq> []" "\<not> c \<longrightarrow> n1 = n" by blast+
  show ?thesis
  proof (cases c)
    case True
    note ready = note_ready_ok [OF n1(1), of now_ms]
    from True n1 ready have m: "capture_ok (note_ready now_ms n1)" "same_node n (note_ready now_ms n1)"
      using same_node_trans by blast+
    from assms(2) run True False have
      "consumed" "n' = commit_capture B (note_ready now_ms n1) \<and> rf_ready (note_ready now_ms n1) \<or> n' = note_ready now_ms n1"
      by (auto simp: consume_multi_frame_def Let_def split: if_splits)
    with m receives_kept receives_committed show ?thesis by blast
  next
    case False
    with assms run n1 \<open>\<not> length _ < 2\<close> show ?thesis
      by (auto simp: consume_multi_frame_def Let_def receives_kept)
  qed
qed

lemma on_receive_ok:
  assumes "capture_ok n"
  shows "receives B n (on_receive B raw now_us now_ms n)"
proof (cases "rf_state n = LEARN_ARMED")
  case True
  let ?frame = "strip_terminator raw" and ?lim = "nc_limits (rf_config n)"
  obtain consumed n1 where multi: "consume_multi_frame B ?frame now_ms n = (consumed, n1)" by force
  from consume_multi_frame_ok [OF assms this] have one: "receives B n n1" "\<not> consumed \<longrightarrow> n1 = n" by blast+
  consider "consumed" | "\<not> consumed" "validate_frame ?frame ?lim \<noteq> FRAME_OK"
    | "\<not> consumed" "validate_frame ?frame ?lim = FRAME_OK"
        "rf_candidate n = [] \<or> \<not> frames_agree (rf_candidate n) ?frame (cl_tolerance_percent ?lim)"
    | "\<not> consumed" "validate_frame ?frame ?lim = FRAME_OK"
        "rf_candidate n \<noteq> []" "frames_agree (rf_candidate n) ?frame (cl_tolerance_percent ?lim)" by blast
  then show ?thesis
  proof cases
    case 1
    with multi one True show ?thesis by (simp add: on_receive_def Let_def)
  next
    case 2
    with multi one True assms show ?thesis
      by (auto simp: on_receive_def Let_def intro!: receives_kept) (simp_all add: capture_ok_def same_node_def)
  next
    case 3
    with multi one True assms show ?thesis
      by (auto simp: on_receive_def Let_def intro!: receives_kept) (simp_all add: capture_ok_def same_node_def)
  next
    case 4
    let ?n1 = "n\<lparr>rf_saw_frame := True, rf_agreements := rf_agreements n + 1, rf_last_frame_us := now_us\<rparr>"
    let ?n2 = "if now_us - rf_last_frame_us n > frame_duration_us ?frame + nc_max_gap_us (rf_config n)
        then ?n1\<lparr>rf_first_frame_us := now_us, rf_interval_count := 0\<rparr>
        else ?n1\<lparr>rf_interval_count := rf_interval_count ?n1 + 1\<rparr>"
    have n2: "capture_ok ?n2" "same_node n ?n2" "rf_candidate ?n2 \<noteq> []"
      using assms 4 by (simp_all add: capture_ok_def same_node_def)
    note ready = note_ready_ok [OF n2(1,3), of now_ms]
    have m: "same_node n (note_ready now_ms ?n2)" using same_node_trans [OF n2(2) ready(2)] .
    have "on_receive B raw now_us now_ms n =
        (if rf_ready (note_ready now_ms ?n2) \<and> rf_interval_count (note_ready now_ms ?n2) \<ge> GAP_INTERVAL_TARGET
         then commit_capture B (note_ready now_ms ?n2) else note_ready now_ms ?n2)"
      using multi one(2) True 4 by (simp add: on_receive_def Let_def)
    with receives_kept [OF ready(1) m] receives_committed [OF m ready(1)] show ?thesis by (simp split: if_split)
  qed
qed (use assms in \<open>simp add: on_receive_def receives_kept\<close>)

text \<open>The operation of the registry an input may lead to.\<close>

fun intends :: "rf_input \<Rightarrow> 'b rf_cloner \<Rightarrow> store_op \<Rightarrow> bool" where
  "intends (Receive raw_data now_us now_ms) n op = captures n op"
| "intends (Tick now_ms) n op = captures n op"
| "intends (RenameCommand command_id nm) n op = (op = Rename command_id nm)"
| "intends (Erase nm) n op = (op = Remove nm)"
| "intends (EraseById command_id) n op = (op = RemoveById command_id)"
| "intends ClearCommands n op = (op = ClearAll)"
| "intends (ResetNode random) n op = (op = FactoryReset random)"
| "intends (BeginRestore hex_id next_id) n op =
     (\<exists>bridge_id. parse_bridge_id hex_id = Some bridge_id \<and> op = RestoreBegin bridge_id next_id)"
| "intends (Import command_id nm timings gap_us repeat_times frequency_hz modulation) n op =
     (op = ImportCommand \<lparr>cmd_id = command_id, cmd_name = nm, cmd_timings = timings, cmd_gap_us = gap_us,
        cmd_repeat_times = repeat_times, cmd_frequency_hz = frequency_hz, cmd_modulation = modulation\<rparr>)"
| "intends (CommitRestore source_revision) n op = (op = RestoreCommit source_revision)"
| "intends _ n op = False"

lemma captures_same: "same_node n m \<Longrightarrow> captures m = captures n"
  by (simp add: captures_def same_node_def fun_eq_iff)

lemma receives_move:
  assumes "receives B n n'"
  shows "store_move B (captures n) n n'"
proof -
  from assms consider "same_node n n'"
    | m where "same_node n m" "capture_ok m" "rf_ready m" "n' = commit_capture B m"
    unfolding receives_def by blast
  then show ?thesis
  proof cases
    case 1 then show ?thesis by (rule store_move_same)
  next
    case 2
    with commit_capture_move [of m B] captures_same [of n m]
    have "store_move B (captures n) m n'" by simp
    with 2(1) show ?thesis by (simp add: store_move_def same_node_def)
  qed
qed

lemma node_loop_ok:
  assumes "capture_ok n"
  shows "capture_ok (node_loop B now n)" and "store_move B (captures n) n (node_loop B now n)"
proof -
  have idle: "capture_ok (n\<lparr>rf_looping := False\<rparr>)" "store_move B (captures n) n (n\<lparr>rf_looping := False\<rparr>)"
    using assms by (simp_all add: capture_ok_def store_move_def)
  show "capture_ok (node_loop B now n)"
    using assms idle by (simp add: node_loop_def fail_learn_ok(1) commit_capture_ok)
  show "store_move B (captures n) n (node_loop B now n)"
    using assms idle by (simp add: node_loop_def fail_learn_ok(2) commit_capture_move store_move_still [of n n])
qed

lemma node_learn_still:
  "rf_store (node_learn nm t now n) = rf_store n" "rf_backend (node_learn nm t now n) = rf_backend n"
  "rf_config (node_learn nm t now n) = rf_config n"
  by (simp_all add: node_learn_def refuse_learn_def fail_learn_def publish_defs Let_def)

lemma node_sends_still:
  "same_node n (snd (node_send nm repeats gap n))" "same_node n (snd (node_send_by_id k repeats gap n))"
  by (simp_all add: node_send_def node_send_by_id_def transmit_command_def publish_defs same_node_def
      split: option.split)

lemma node_step_move:
  assumes "node_ok n"
  shows "store_move B (intends i n) n (node_step B i n)"
proof (cases i)
  case (Receive raw now_us now_ms)
  then have "intends i n = captures n" by (simp add: fun_eq_iff)
  with assms Receive show ?thesis by (simp add: node_ok_def receives_move [OF on_receive_ok])
next
  case (Tick now)
  then have "intends i n = captures n" by (simp add: fun_eq_iff)
  with assms Tick show ?thesis by (simp add: node_ok_def node_loop_ok(2) store_move_still [of n n])
next
  case (BeginRestore hex_id next_id)
  show ?thesis
  proof (cases "parse_bridge_id hex_id")
    case None
    with BeginRestore show ?thesis by (simp add: node_restore_begin_def publish_defs store_move_def)
  next
    case (Some bid)
    obtain r st b where "restore_begin B bid next_id (rf_store n) (rf_backend n) = (r, st, b)" by (metis prod_cases3)
    with Some BeginRestore show ?thesis
      by (intro store_move_exec [where op = "RestoreBegin bid next_id" and r = r])
        (auto simp: node_restore_begin_def publish_defs)
  qed
next
  case (CommitRestore v)
  show ?thesis
  proof (cases "sint v < 0")
    case True
    with CommitRestore show ?thesis by (simp add: node_restore_commit_def publish_defs store_move_def)
  next
    case False
    obtain r st b where "restore_commit B v (rf_store n) (rf_backend n) = (r, st, b)" by (metis prod_cases3)
    with False CommitRestore show ?thesis
      by (intro store_move_exec [where op = "RestoreCommit v" and r = r])
        (auto simp: node_restore_commit_def publish_defs)
  qed
qed (auto simp: node_learn_still store_move_same [OF node_sends_still(1)] store_move_same [OF node_sends_still(2)]
    store_move_def node_cancel_def fail_learn_def node_rename_def node_erase_def node_erase_by_id_def
    node_clear_all_def node_factory_reset_def node_import_command_def node_send_def node_send_by_id_def
    transmit_command_def publish_defs Let_def split: prod.splits option.splits if_splits)

section \<open>Lemmas: every step keeps the invariant\<close>

fun input_typed :: "rf_input \<Rightarrow> bool" where
  "input_typed (ResetNode (Some bytes)) \<longleftrightarrow> length bytes = BRIDGE_ID_BYTES"
| "input_typed _ \<longleftrightarrow> True"

lemma length_hex_bytes: "hex_bytes s = Some bytes \<Longrightarrow> length s = 2 * length bytes"
  by (induction s arbitrary: bytes rule: hex_bytes.induct) (auto split: option.splits)

lemma length_bridge_id: "parse_bridge_id s = Some bytes \<Longrightarrow> length bytes = BRIDGE_ID_BYTES"
  by (auto simp: parse_bridge_id_def dest!: length_hex_bytes split: if_splits)

lemma intends_typed: "intends i n op \<Longrightarrow> input_typed i \<Longrightarrow> op_typed op"
  by (cases i) (auto simp: captures_def dest: length_bridge_id elim!: input_typed.elims)

text \<open>While a learn is armed it is under an acceptable name, and the loop runs.\<close>

definition armed_ok :: "'b rf_cloner \<Rightarrow> bool" where
  "armed_ok n \<longleftrightarrow> rf_state n = LEARN_ARMED \<longrightarrow> rf_looping n \<and> validate_name (rf_pending_name n) = OK"

lemma node_ok_alt: "node_ok n \<longleftrightarrow> store_ok (rf_store n) \<and> capture_ok n \<and> armed_ok n"
  by (simp add: node_ok_def armed_ok_def)

lemma receives_armed: "receives B n n' \<Longrightarrow> armed_ok n \<Longrightarrow> armed_ok n'"
  using commit_capture_keeps(5) by (fastforce simp: receives_def armed_ok_def same_node_def)

lemma node_learn_ok: "capture_ok n \<Longrightarrow> capture_ok (node_learn nm t now n) \<and> armed_ok (node_learn nm t now n)"
  by (auto simp: node_learn_def refuse_learn_def fail_learn_def publish_defs capture_ok_def armed_ok_def Let_def)

lemma node_loop_armed: "armed_ok n \<Longrightarrow> armed_ok (node_loop B now n)"
  using commit_capture_keeps(5) by (auto simp: node_loop_def armed_ok_def fail_learn_def publish_defs)

lemma node_step_capture:
  assumes "capture_ok n" and "armed_ok n"
  shows "capture_ok (node_step B i n) \<and> armed_ok (node_step B i n)"
proof (cases i)
  case (Learn nm t now) with assms show ?thesis by (simp add: node_learn_ok)
next
  case (Receive raw now_us now_ms)
  note r = on_receive_ok [OF assms(1), of B raw now_us now_ms]
  from r have "capture_ok (on_receive B raw now_us now_ms n)" by (simp add: receives_def)
  with Receive receives_armed [OF r assms(2)] show ?thesis by simp
next
  case (Tick now) with assms show ?thesis by (simp add: node_loop_ok(1) node_loop_armed)
qed (use assms in \<open>auto simp: node_cancel_def fail_learn_def node_rename_def node_erase_def node_erase_by_id_def
     node_clear_all_def node_factory_reset_def node_import_command_def node_restore_begin_def node_restore_commit_def
     node_send_def node_send_by_id_def transmit_command_def publish_defs Let_def capture_ok_def armed_ok_def
     split: prod.split option.split\<close>)

lemma node_step_ok:
  assumes "node_ok n" and "input_typed i"
  shows "node_ok (node_step B i n)"
proof -
  have "store_ok (rf_store (node_step B i n))"
    by (rule store_move_ok [OF _ node_step_move [OF assms(1)] intends_typed [OF _ assms(2)]])
      (use assms(1) in \<open>simp_all add: node_ok_def\<close>)
  with assms(1) node_step_capture [of n B i] show ?thesis by (simp add: node_ok_alt)
qed

lemma run_node_ok: "node_ok n \<Longrightarrow> list_all input_typed inputs \<Longrightarrow> node_ok (run_node B inputs n)"
  unfolding run_node_def by (induction inputs arbitrary: n) (simp_all add: node_step_ok)

section \<open>Lemmas: what a step of the registry keeps of its commands\<close>

lemma reg_step_commands:
  assumes "reg_step op R R'" and "\<And>k c. rg_commands R k = Some c \<Longrightarrow> P c"
    and "\<And>c k. op = Put c \<Longrightarrow> P (c\<lparr>cmd_id := k\<rparr>)" and "\<And>c. op = ImportCommand c \<Longrightarrow> P c"
    and "\<And>c nm. P c \<Longrightarrow> P (c\<lparr>cmd_name := nm\<rparr>)"
  shows "rg_commands R' k = Some c \<Longrightarrow> P c"
  using assms by (induction rule: reg_step.induct) (auto split: if_splits)

lemma store_step:
  assumes ok: "store_ok st" and typed: "op_typed op" and run: "exec B op st b = (r, st', b')" and "\<not> resets op"
  shows "registry_of st' = registry_of st \<or> reg_step op (registry_of st) (registry_of st')"
proof (cases "r = OK")
  case True
  from exec_outcome [OF ok run assms(4)] show ?thesis
  proof
    assume "(r, st') = intended op st"
    then have "exec perfect_storage op st () = (OK, st', ())" using True by (simp add: intended_def split: prod.splits)
    with intended_step [OF ok typed] show ?thesis by blast
  qed simp
next
  case False
  from exec_outcome [OF ok run assms(4)] show ?thesis
    using intended_cases [of op st r st'] assms(4) False by auto
qed

lemma reset_commands:
  assumes "factory_reset B random st b = (r, st', b')"
  shows "get_by_id k st' = None \<or> st' = st"
  using assms by (auto simp: factory_reset_def mint_identity_def Let_def get_by_id_None has_id_iff split: if_splits prod.splits)

definition all_stored :: "(command \<Rightarrow> bool) \<Rightarrow> command_store \<Rightarrow> bool" where
  "all_stored P st \<longleftrightarrow> (\<forall>k c. get_by_id k st = Some c \<longrightarrow> P c)"

lemma exec_all_stored:
  assumes ok: "store_ok st" and typed: "op_typed op" and run: "exec B op st b = (r, st', b')"
    and "all_stored P st" and "\<And>c k. op = Put c \<Longrightarrow> P (c\<lparr>cmd_id := k\<rparr>)" and "\<And>c. op = ImportCommand c \<Longrightarrow> P c"
    and "\<And>c nm. P c \<Longrightarrow> P (c\<lparr>cmd_name := nm\<rparr>)"
  shows "all_stored P st'"
proof (cases "resets op")
  case True
  then obtain random where "op = FactoryReset random" by (cases op) auto
  with run have "get_by_id k st' = None \<or> st' = st" for k using reset_commands by simp
  with assms(4) show ?thesis unfolding all_stored_def by (metis option.discI)
next
  case False
  from store_step [OF ok typed run False] show ?thesis
  proof
    assume "registry_of st' = registry_of st"
    then have "(\<lambda>k. get_by_id k st') = (\<lambda>k. get_by_id k st)" by (metis registry_of_simps(5))
    with assms(4) show ?thesis by (simp add: all_stored_def fun_eq_iff)
  next
    assume step: "reg_step op (registry_of st) (registry_of st')"
    have "P c" if "get_by_id k st' = Some c" for k c
      by (rule reg_step_commands [OF step, of P k])
        (use assms(4-7) that in \<open>auto simp: all_stored_def\<close>)
    then show ?thesis by (simp add: all_stored_def)
  qed
qed

fun is_import :: "rf_input \<Rightarrow> bool" where
  "is_import (Import _ _ _ _ _ _ _) = True"
| "is_import _ = False"

lemma vouched_renamed [simp]: "vouched config (c\<lparr>cmd_name := nm\<rparr>) = vouched config c"
  "vouched config (c\<lparr>cmd_id := k\<rparr>) = vouched config c"
  by (simp_all add: vouched_def)

lemma node_step_vouched:
  assumes "node_ok n" and "input_typed i" and "\<not> is_import i" and "all_stored (vouched (rf_config n)) (rf_store n)"
  shows "all_stored (vouched (rf_config n)) (rf_store (node_step B i n)) \<and> rf_config (node_step B i n) = rf_config n"
proof -
  note move = node_step_move [OF assms(1), of B i, unfolded store_move_def]
  from move consider "rf_store (node_step B i n) = rf_store n"
    | op r where "intends i n op"
        "exec B op (rf_store n) (rf_backend n) = (r, rf_store (node_step B i n), rf_backend (node_step B i n))" by blast
  then have "all_stored (vouched (rf_config n)) (rf_store (node_step B i n))"
  proof cases
    case 1 with assms(4) show ?thesis by simp
  next
    case 2
    show ?thesis
    proof (rule exec_all_stored [OF _ intends_typed [OF 2(1) assms(2)] 2(2) assms(4)])
      show "store_ok (rf_store n)" using assms(1) by (simp add: node_ok_def)
      show "vouched (rf_config n) (c\<lparr>cmd_id := k\<rparr>)" if "op = Put c" for c k
        using 2(1) that by (cases i) (auto simp: captures_def)
      show "vouched (rf_config n) c" if "op = ImportCommand c" for c
        using 2(1) that assms(3) by (cases i) (auto simp: captures_def)
    qed simp
  qed
  with move show ?thesis by blast
qed

section \<open>Properties: what is stored\<close>

text \<open>
  C10: Only a checked capture is ever stored: over everything that can happen to the component short
  of an import, whatever is received and in whatever order, each command of the registry has a
  waveform within the configured limits and a gap within the configured range or the default
  one, as long as those it started with have.
\<close>

theorem only_checked_captures_are_stored:
  assumes "node_ok n" and "list_all input_typed inputs" and "\<not> list_ex is_import inputs"
    and "all_stored (vouched (rf_config n)) (rf_store n)"
  shows "all_stored (vouched (rf_config n)) (rf_store (run_node B inputs n)) \<and>
    rf_config (run_node B inputs n) = rf_config n"
  using assms
proof (induction inputs arbitrary: n)
  case (Cons i inputs)
  from Cons.prems have i: "input_typed i" "\<not> is_import i" and inputs: "list_all input_typed inputs" "\<not> list_ex is_import inputs"
    by auto
  note step = node_step_vouched [OF Cons.prems(1) i Cons.prems(4), of B]
  from Cons.IH [OF node_step_ok [OF Cons.prems(1) i(1), of B] inputs] step
  show ?case by (simp add: run_node_def)
qed (simp add: run_node_def)

end
