(* ===== verification/Machines.thy ===== *)
theory Machines
  imports Main
begin

text \<open>
  Interfaces for components that are driven by a sequence of inputs: an invariant the inputs keep, and
  an abstract specification each input's step is a step of, or leaves alone.
\<close>

locale machine =
  fixes step :: "'i \<Rightarrow> 's \<Rightarrow> 's" and inv :: "'s \<Rightarrow> bool" and allowed :: "'i \<Rightarrow> bool"
  assumes preserved: "inv s \<Longrightarrow> allowed i \<Longrightarrow> inv (step i s)"
begin

lemma run_inv: "inv s \<Longrightarrow> list_all allowed inputs \<Longrightarrow> inv (fold step inputs s)"
  by (induction inputs arbitrary: s) (simp_all add: preserved)

lemma run_still:
  assumes "\<And>i s. inv s \<Longrightarrow> allowed i \<Longrightarrow> quiet i \<Longrightarrow> f (step i s) = f s"
    and "inv s" and "list_all allowed inputs" and "list_all quiet inputs"
  shows "f (fold step inputs s) = f s"
  using assms(2-4)
proof (induction inputs arbitrary: s)
  case (Cons i inputs)
  then show ?case using assms(1) [of s i] preserved [of s i] by simp
qed simp

end

text \<open>A run of a specification, in which an input may be one that changes nothing.\<close>

inductive spec_run :: "('i \<Rightarrow> 'a \<Rightarrow> 'a \<Rightarrow> bool) \<Rightarrow> 'i list \<Rightarrow> 'a \<Rightarrow> 'a \<Rightarrow> bool" for spec where
  ended: "spec_run spec [] a a"
| stays: "spec_run spec inputs a b \<Longrightarrow> spec_run spec (i # inputs) a b"
| moves: "spec i a b \<Longrightarrow> spec_run spec inputs b c \<Longrightarrow> spec_run spec (i # inputs) a c"

inductive_cases spec_run_NilE: "spec_run spec [] a b"
inductive_cases spec_run_ConsE: "spec_run spec (i # inputs) a c"

lemma spec_run_keeps:
  assumes "spec_run spec inputs a b" and "\<And>i x y. i \<in> set inputs \<Longrightarrow> spec i x y \<Longrightarrow> f y = f x"
  shows "f b = f a"
  using assms
proof (induction rule: spec_run.induct)
  case (stays inputs a b i)
  then show ?case by (meson list.set_intros(2))
next
  case (moves i a b inputs c)
  have "f b = f a" by (rule moves.prems [OF list.set_intros(1) moves.hyps(1)])
  with moves.IH moves.prems show ?case by (metis list.set_intros(2))
qed simp

lemma spec_run_append:
  "spec_run spec xs a b \<Longrightarrow> spec_run spec ys b c \<Longrightarrow> spec_run spec (xs @ ys) a c"
  by (induction rule: spec_run.induct) (auto intro: spec_run.intros)

locale simulation = machine step inv allowed
  for step :: "'i \<Rightarrow> 's \<Rightarrow> 's" and inv :: "'s \<Rightarrow> bool" and allowed :: "'i \<Rightarrow> bool" +
  fixes abs :: "'s \<Rightarrow> 'a" and spec :: "'i \<Rightarrow> 'a \<Rightarrow> 'a \<Rightarrow> bool"
  assumes simulated: "inv s \<Longrightarrow> allowed i \<Longrightarrow> abs (step i s) = abs s \<or> spec i (abs s) (abs (step i s))"
begin

lemma run_simulated:
  "inv s \<Longrightarrow> list_all allowed inputs \<Longrightarrow> spec_run spec inputs (abs s) (abs (fold step inputs s))"
proof (induction inputs arbitrary: s)
  case (Cons i inputs)
  from Cons.prems have run: "spec_run spec inputs (abs (step i s)) (abs (fold step inputs (step i s)))"
    by (intro Cons.IH) (simp_all add: preserved)
  from Cons.prems simulated [of s i] show ?case
    using spec_run.stays [OF run] spec_run.moves [OF _ run] by auto
qed (simp add: spec_run.ended)

end

end
