(* ===== verification/Automation.thy ===== *)
theory Automation
  imports Learning Machines
begin

text \<open>
  \<open>components/rf_cloner/automation.h\<close>: the actions and triggers through which a configuration's
  automations use the component. An action carries a function of the automation's variables for
  each of its values; the optional ones default to zero. A trigger fires from within the call that
  notifies its listeners, and the actions of its automation run there and then; \<open>node_learn_calling\<close>
  is \<open>learn\<close> with such a listener.
\<close>

section \<open>Actions\<close>

datatype 'x automation_action =
    LearnAction "'x \<Rightarrow> string" "('x \<Rightarrow> 32 word) option"
  | CancelAction
  | SendAction "'x \<Rightarrow> string" "('x \<Rightarrow> 16 word) option" "('x \<Rightarrow> 32 word) option"
  | SendByIdAction "'x \<Rightarrow> 32 word" "('x \<Rightarrow> 16 word) option" "('x \<Rightarrow> 32 word) option"
  | RenameAction "'x \<Rightarrow> 32 word" "'x \<Rightarrow> string"
  | DeleteAction "'x \<Rightarrow> string"
  | DeleteByIdAction "'x \<Rightarrow> 32 word"
  | ClearAllAction
  | FactoryResetAction

fun value_or :: "('x \<Rightarrow> 'a) option \<Rightarrow> 'x \<Rightarrow> 'a \<Rightarrow> 'a" where
  "value_or None x d = d"
| "value_or (Some f) x d = f x"

fun play :: "'b storage \<Rightarrow> 32 word \<Rightarrow> byte list option \<Rightarrow> 'x \<Rightarrow> 'x automation_action \<Rightarrow> 'b rf_cloner \<Rightarrow> 'b rf_cloner" where
  "play B now_ms random x (LearnAction nm timeout) n = node_learn (nm x) (value_or timeout x 0) now_ms n"
| "play B now_ms random x CancelAction n = node_cancel n"
| "play B now_ms random x (SendAction nm repeats gap) n =
     snd (node_send (nm x) (value_or repeats x 0) (value_or gap x 0) n)"
| "play B now_ms random x (SendByIdAction command_id repeats gap) n =
     snd (node_send_by_id (command_id x) (value_or repeats x 0) (value_or gap x 0) n)"
| "play B now_ms random x (RenameAction command_id nm) n = snd (node_rename B (command_id x) (nm x) n)"
| "play B now_ms random x (DeleteAction nm) n = snd (node_erase B (nm x) n)"
| "play B now_ms random x (DeleteByIdAction command_id) n = snd (node_erase_by_id B (command_id x) n)"
| "play B now_ms random x ClearAllAction n = node_clear_all B n"
| "play B now_ms random x FactoryResetAction n = snd (node_factory_reset B random n)"

text \<open>Playing an action is a step of the component, so what holds of its runs holds of automations.\<close>

fun played :: "32 word \<Rightarrow> byte list option \<Rightarrow> 'x \<Rightarrow> 'x automation_action \<Rightarrow> rf_input" where
  "played now_ms random x (LearnAction nm timeout) = Learn (nm x) (value_or timeout x 0) now_ms"
| "played now_ms random x CancelAction = Cancel"
| "played now_ms random x (SendAction nm repeats gap) = Send (nm x) (value_or repeats x 0) (value_or gap x 0)"
| "played now_ms random x (SendByIdAction command_id repeats gap) =
     SendById (command_id x) (value_or repeats x 0) (value_or gap x 0)"
| "played now_ms random x (RenameAction command_id nm) = RenameCommand (command_id x) (nm x)"
| "played now_ms random x (DeleteAction nm) = Erase (nm x)"
| "played now_ms random x (DeleteByIdAction command_id) = EraseById (command_id x)"
| "played now_ms random x ClearAllAction = ClearCommands"
| "played now_ms random x FactoryResetAction = ResetNode random"

lemma play_is_step: "play B now_ms random x a n = node_step B (played now_ms random x a) n"
  by (cases a) simp_all

section \<open>Triggers\<close>

datatype trigger = LearnStartedTrigger string | LearnSuccessTrigger string | LearnFailedTrigger string | SendTrigger string

fun fires :: "node_effect \<Rightarrow> trigger option" where
  "fires (LearnStarted nm) = Some (LearnStartedTrigger nm)"
| "fires (LearnSucceeded nm) = Some (LearnSuccessTrigger nm)"
| "fires (LearnFailedWith reason) = Some (LearnFailedTrigger reason)"
| "fires (SentCommand nm) = Some (SendTrigger nm)"
| "fires _ = None"

definition fired :: "'b rf_cloner \<Rightarrow> trigger list" where
  "fired n = List.map_filter fires (rf_effects n)"

text \<open>
  The order an automation may count on: a learn that has started ends with one success or failure
  before another starts, and only a learn that has started succeeds. A failure alone is a learn that
  was refused. The state says whether a learn is open; \<open>None\<close> is a breach.
\<close>

fun session :: "trigger \<Rightarrow> bool option \<Rightarrow> bool option" where
  "session (LearnStartedTrigger _) (Some False) = Some True"
| "session (LearnSuccessTrigger _) (Some True) = Some False"
| "session (LearnFailedTrigger _) (Some _) = Some False"
| "session (SendTrigger _) s = s"
| "session _ _ = None"

definition sessions :: "trigger list \<Rightarrow> bool option" where
  "sessions ts = fold session ts (Some False)"

section \<open>Lemmas: order of the triggers\<close>

definition orderly :: "'b rf_cloner \<Rightarrow> bool" where
  "orderly n \<longleftrightarrow> sessions (fired n) = Some (rf_state n = LEARN_ARMED)"

lemma fired_emit [simp]: "fired (emit e n) = fired n @ (case fires e of None \<Rightarrow> [] | Some t \<Rightarrow> [t])"
  by (simp add: fired_def emit_def map_filter_def split: option.split)

lemma fired_same: "rf_effects n' = rf_effects n \<Longrightarrow> fired n' = fired n"
  by (simp add: fired_def)

lemma sessions_snoc [simp]: "sessions (ts @ us) = fold session us (sessions ts)"
  by (simp add: sessions_def)

lemma state_emit [simp]: "rf_state (emit e n) = rf_state n"
  by (simp add: emit_def)

lemma fired_publish [simp]:
  "fired (publish_state n) = fired n" "fired (publish_store_stats n) = fired n"
  "fired (set_learn_state s n) = fired n" "fired (publish_result result n) = fired n"
  "fired (with_store st b n) = fired n"
  by (simp_all add: publish_state_def publish_store_stats_def set_learn_state_def publish_result_def with_store_def)
    (simp_all add: fired_def)

lemma state_publish [simp]:
  "rf_state (publish_state n) = rf_state n" "rf_state (publish_store_stats n) = rf_state n"
  "rf_state (set_learn_state s n) = s" "rf_state (publish_result result n) = rf_state n"
  "rf_state (with_store st b n) = rf_state n"
  by (simp_all add: publish_defs)

lemma orderly_same: "orderly n \<Longrightarrow> rf_effects n' = rf_effects n \<Longrightarrow> rf_state n' = rf_state n \<Longrightarrow> orderly n'"
  by (simp add: orderly_def fired_same [of n' n])

lemma orderly_fail: "orderly n \<Longrightarrow> orderly (fail_learn failure n)"
  by (simp add: orderly_def fail_learn_def) (simp add: fired_def)

lemma fail_not_armed: "rf_state (fail_learn failure n) = LEARN_FAILED"
  by (simp add: fail_learn_def)

lemma orderly_refuse: "orderly n \<Longrightarrow> orderly (refuse_learn nm result n)"
  by (simp add: orderly_def refuse_learn_def) (simp add: fired_def)

lemma orderly_started:
  assumes "orderly n" and "rf_state n \<noteq> LEARN_ARMED" and "rf_effects n' = rf_effects n"
  shows "orderly (emit (LearnStarted nm) ((set_learn_state LEARN_ARMED n')\<lparr>rf_looping := True\<rparr>))"
proof -
  have "fired ((set_learn_state LEARN_ARMED n')\<lparr>rf_looping := True\<rparr>) = fired n"
    using fired_same [OF assms(3)] fired_same [of "(set_learn_state LEARN_ARMED n')\<lparr>rf_looping := True\<rparr>" "set_learn_state LEARN_ARMED n'"]
    by simp
  with assms(1,2) show ?thesis by (simp add: orderly_def)
qed

lemma orderly_learn:
  assumes "orderly n"
  shows "orderly (node_learn nm timeout_ms now_ms n)"
proof -
  define m where "m = (if rf_state n = LEARN_ARMED then fail_learn FAILURE_CANCELLED n else n)"
  have m: "orderly m" "rf_state m \<noteq> LEARN_ARMED"
    using assms orderly_fail [of n] by (auto simp: m_def fail_not_armed)
  show ?thesis
    unfolding node_learn_def Let_def m_def [symmetric]
    by (simp add: orderly_refuse [OF m(1)] orderly_started [OF m])
qed

lemma orderly_commit:
  assumes "orderly n" and "rf_state n = LEARN_ARMED"
  shows "orderly (commit_capture B n)"
proof -
  obtain result st b where put: "put B (captured_command n) (rf_store n) (rf_backend n) = (result, st, b)"
    by (metis prod_cases3)
  have same: "fired (n\<lparr>rf_store := st, rf_backend := b, rf_last_result := r\<rparr>) = fired n" for r by (simp add: fired_def)
  show ?thesis
    using assms unfolding commit_capture_def Let_def put by (simp add: orderly_def same)
qed

lemma effects_note_ready [simp]: "rf_effects (note_ready now_ms n) = rf_effects n"
  by (simp add: note_ready_def)

lemma orderly_consume:
  assumes "orderly n" and "rf_state n = LEARN_ARMED"
  shows "orderly (snd (consume_multi_frame B blob now_ms n))"
proof -
  have pairs: "rf_effects (snd (fold consume_pair pairs (c, m))) = rf_effects m \<and>
      rf_state (snd (fold consume_pair pairs (c, m))) = rf_state m" for pairs c and m :: "'a rf_cloner"
  proof (induction pairs arbitrary: c m)
    case (Cons x pairs)
    obtain c' m' where step: "consume_pair x (c, m) = (c', m')" by (cases "consume_pair x (c, m)")
    then have "rf_effects m' = rf_effects m \<and> rf_state m' = rf_state m"
      by (auto simp: consume_pair_def Let_def split: prod.splits if_splits)
    with Cons.IH [of c' m'] step show ?case by simp
  qed simp
  let ?split = "split_frames blob (nc_frame_gap_min_us (rf_config n))"
  obtain c m where fold: "fold consume_pair (frame_pairs ?split) (False, n) = (c, m)"
    by (cases "fold consume_pair (frame_pairs ?split) (False, n)")
  have m: "rf_effects m = rf_effects n" "rf_state m = rf_state n"
    using pairs [of "frame_pairs ?split" False n] by (simp_all add: fold)
  have "rf_state (note_ready now_ms m) = LEARN_ARMED" using assms(2) m by (simp add: note_ready_def)
  moreover from this have "orderly (note_ready now_ms m)" using orderly_same [OF assms(1), of "note_ready now_ms m"] assms(2) m by simp
  moreover have "orderly m" by (rule orderly_same [OF assms(1) m])
  ultimately show ?thesis
    using assms(1) orderly_commit [of "note_ready now_ms m" B] by (simp add: consume_multi_frame_def Let_def fold)
qed

lemma effects_consume:
  assumes "consume_multi_frame B blob now_ms n = (False, n')" and "capture_ok n"
  shows "n' = n"
  using consume_multi_frame_ok [OF assms(2,1)] by simp

lemma orderly_receive:
  assumes "orderly n" and "capture_ok n"
  shows "orderly (on_receive B raw now_us now_ms n)"
proof (cases "rf_state n = LEARN_ARMED")
  case True
  obtain consumed n1 where multi: "consume_multi_frame B (strip_terminator raw) now_ms n = (consumed, n1)" by force
  show ?thesis
  proof (cases consumed)
    case True
    with orderly_consume [OF assms(1) \<open>rf_state n = LEARN_ARMED\<close>, of B "strip_terminator raw" now_ms] multi
    show ?thesis by (simp add: on_receive_def \<open>rf_state n = LEARN_ARMED\<close>)
  next
    case False
    then have n1: "n1 = n" using multi assms(2) by (auto dest: effects_consume)
    have same: "orderly m" if "rf_effects m = rf_effects n" "rf_state m = rf_state n" for m :: "'a rf_cloner"
      by (rule orderly_same [OF assms(1) that])
    have commit: "orderly (commit_capture B m)" if "rf_effects m = rf_effects n" "rf_state m = rf_state n" for m :: "'a rf_cloner"
      using orderly_commit [OF same [OF that]] that(2) \<open>rf_state n = LEARN_ARMED\<close> by simp
    show ?thesis
      using True False unfolding on_receive_def Let_def multi n1
      by (simp add: same commit note_ready_def)
  qed
next
  case False
  with assms(1) show ?thesis by (simp add: on_receive_def)
qed

lemma orderly_loop: "orderly n \<Longrightarrow> orderly (node_loop B now_ms n)"
  using orderly_same [of n "n\<lparr>rf_looping := False\<rparr>"]
  by (simp add: node_loop_def orderly_fail orderly_commit)

lemma orderly_cancel: "orderly n \<Longrightarrow> orderly (node_cancel n)"
  by (simp add: node_cancel_def orderly_fail)

lemma orderly_quiet: "orderly n \<Longrightarrow> fired n' = fired n \<Longrightarrow> rf_state n' = rf_state n \<Longrightarrow> orderly n'"
  by (simp add: orderly_def)

lemma orderly_transmit: "orderly n \<Longrightarrow> orderly (transmit_command c repeats gap n)"
  by (simp add: orderly_def transmit_command_def)

lemma orderly_send:
  assumes "orderly n"
  shows "orderly (snd (node_send nm repeats gap n))" and "orderly (snd (node_send_by_id command_id repeats gap n))"
  using assms orderly_transmit [OF assms]
  by (auto simp: node_send_def node_send_by_id_def orderly_quiet split: option.split)

lemma orderly_wrappers:
  assumes "orderly n"
  shows "orderly (snd (node_rename B command_id nm n))" and "orderly (snd (node_erase B nm n))"
    and "orderly (snd (node_erase_by_id B command_id n))" and "orderly (node_clear_all B n)"
    and "orderly (snd (node_factory_reset B random n))" and "orderly (snd (node_restore_begin B hex_id next_id n))"
    and "orderly (snd (node_import_command B command_id nm timings gap_us repeat_times frequency_hz modulation n))"
    and "orderly (snd (node_restore_commit B source_revision n))"
proof -
  note defs = node_rename_def node_erase_def node_erase_by_id_def node_clear_all_def node_factory_reset_def
    node_restore_begin_def node_import_command_def node_restore_commit_def
  show "orderly (snd (node_rename B command_id nm n))" "orderly (snd (node_erase B nm n))"
    "orderly (snd (node_erase_by_id B command_id n))" "orderly (node_clear_all B n)"
    "orderly (snd (node_factory_reset B random n))" "orderly (snd (node_restore_begin B hex_id next_id n))"
    "orderly (snd (node_import_command B command_id nm timings gap_us repeat_times frequency_hz modulation n))"
    "orderly (snd (node_restore_commit B source_revision n))"
    unfolding defs Let_def
    by (auto split: prod.splits option.splits intro!: orderly_quiet [OF assms])
qed

lemma orderly_step:
  assumes "orderly n" and "node_ok n"
  shows "orderly (node_step B i n)"
  using assms by (cases i) (simp_all add: orderly_learn orderly_cancel orderly_receive node_ok_def orderly_loop orderly_send orderly_wrappers)

interpretation triggers: machine "node_step B" "\<lambda>n. node_ok n \<and> orderly n" input_typed for B
  by unfold_locales (simp add: node_step_ok orderly_step)

lemma orderly_run:
  assumes "orderly n" and "node_ok n" and "list_all input_typed inputs"
  shows "orderly (run_node B inputs n)"
  unfolding run_node_def using triggers.run_inv [of n inputs B] assms by blast

section \<open>A listener that acts\<close>

text \<open>
  The code notifies the listeners of a failure in the middle of a handler, between setting the state
  to failed and setting it to idle. These are the handlers with the listener's reaction in that place.
\<close>

definition refuse_learn_calling ::
  "(string \<Rightarrow> 'b rf_cloner \<Rightarrow> 'b rf_cloner) \<Rightarrow> string \<Rightarrow> string \<Rightarrow> 'b rf_cloner \<Rightarrow> 'b rf_cloner" where
  "refuse_learn_calling on_failed nm result n =
     set_learn_state LEARN_IDLE
       (on_failed result
         (emit (LearnFailedWith result)
           (set_learn_state LEARN_FAILED (n\<lparr>rf_pending_name := nm, rf_last_result := result\<rparr>))))"

definition commit_capture_calling ::
  "'b storage \<Rightarrow> (string \<Rightarrow> 'b rf_cloner \<Rightarrow> 'b rf_cloner) \<Rightarrow> 'b rf_cloner \<Rightarrow> 'b rf_cloner" where
  "commit_capture_calling B on_failed n0 =
     (let c = captured_command n0;
          (result, st, b) = put B c (rf_store n0) (rf_backend n0);
          n = n0\<lparr>rf_store := st, rf_backend := b\<rparr>
      in if result \<noteq> OK
         then
           let last_result = ''store_error:'' @ store_result_to_string result
           in set_learn_state LEARN_IDLE
                (on_failed last_result
                  (emit (LearnFailedWith last_result)
                    (set_learn_state LEARN_FAILED (n\<lparr>rf_last_result := last_result\<rparr>))))
         else
           emit (LearnSucceeded (cmd_name c))
             (publish_store_stats
               (set_learn_state LEARN_CAPTURED (n\<lparr>rf_last_result := cmd_name c\<rparr>))))"

text \<open>A listener that does not act on the component is the one the rest of the model has.\<close>

lemma refuse_learn_calling_idle: "refuse_learn_calling (\<lambda>_ n. n) = refuse_learn"
  by (simp add: fun_eq_iff refuse_learn_calling_def refuse_learn_def)

lemma commit_capture_calling_idle: "commit_capture_calling B (\<lambda>_ n. n) = commit_capture B"
  by (simp add: fun_eq_iff commit_capture_calling_def commit_capture_def)

lemma learn_arms:
  assumes "validate_name nm = OK" and "has nm (rf_store n) \<or> count (rf_store n) < unat (st_max_commands (rf_store n))"
    and "rf_state n \<noteq> LEARN_ARMED"
  shows "rf_pending_name (node_learn nm timeout_ms now_ms n) = nm \<and>
    fired (node_learn nm timeout_ms now_ms n) = fired n @ [LearnStartedTrigger nm]"
  using assms by (auto simp: node_learn_def publish_defs fired_def map_filter_def not_le)

lemma still_idle: "rf_state n = LEARN_IDLE \<Longrightarrow> on_receive B raw now_us now_ms n = n"
  "rf_state n = LEARN_IDLE \<Longrightarrow> node_loop B now_ms n = n\<lparr>rf_looping := False\<rparr>"
  by (simp_all add: on_receive_def node_loop_def)

section \<open>Properties\<close>

text \<open>
  C26: Automations see the learns of a device in order, as long as none acts on the component from
  within a notification (C27 is such a one). Over everything that can happen to a component that
  starts unarmed, after a learn has started exactly one success or failure fires before another starts, nothing
  succeeds that has not started, and a learn is open exactly while the component is armed.
\<close>

theorem learn_triggers_alternate:
  assumes "node_ok n" and "list_all input_typed inputs" and "fired n = []" and "rf_state n \<noteq> LEARN_ARMED"
  shows "sessions (fired (run_node B inputs n)) = Some (rf_state (run_node B inputs n) = LEARN_ARMED)"
proof -
  have "orderly n" using assms(3,4) by (simp add: orderly_def sessions_def)
  from orderly_run [OF this assms(1,2), of B] show ?thesis by (simp add: orderly_def)
qed

text \<open>
  C27: A failed learn that an automation retries is lost: when storing a capture fails and the automation
  of \<open>on_learn_failed\<close> arms the next learn, the handler goes on to set the state to idle. The learn
  has been announced as started, but the component ignores what it receives, stops its loop, and never
  reports an end.
\<close>

theorem retried_learn_is_lost:
  assumes "rf_state n = LEARN_ARMED" and "sessions (fired n) = Some True"
    and "put B (captured_command n) (rf_store n) (rf_backend n) = (result, st, b)" and "result \<noteq> OK"
    and "validate_name nm = OK" and "has nm st \<or> count st < unat (st_max_commands st)"
    and "n' = commit_capture_calling B (\<lambda>reason. play B now_ms random reason (LearnAction (\<lambda>_. nm) timeout)) n"
  shows "rf_pending_name n' = nm \<and> last (fired n') = LearnStartedTrigger nm \<and> sessions (fired n') = Some True \<and>
    rf_state n' = LEARN_IDLE \<and> on_receive B raw now_us later n' = n' \<and> node_loop B later n' = n'\<lparr>rf_looping := False\<rparr>"
proof -
  let ?reason = "''store_error:'' @ store_result_to_string result"
  define m where "m = emit (LearnFailedWith ?reason) (set_learn_state LEARN_FAILED
      (n\<lparr>rf_store := st, rf_backend := b, rf_last_result := ?reason\<rparr>))"
  have "fired m = fired n @ [LearnFailedTrigger ?reason]" by (simp add: m_def) (simp add: fired_def)
  moreover have "rf_state m \<noteq> LEARN_ARMED" "rf_store m = st" by (simp_all add: m_def publish_defs)
  moreover define k where "k = node_learn nm (value_or timeout ?reason 0) now_ms m"
  ultimately have k: "rf_pending_name k = nm" "fired k = fired n @ [LearnFailedTrigger ?reason, LearnStartedTrigger nm]"
    using learn_arms [of nm m] assms(5,6) by simp_all
  have n': "n' = set_learn_state LEARN_IDLE k"
    using assms(4) unfolding assms(7) commit_capture_calling_def Let_def assms(3) by (simp add: k_def m_def)
  then have "rf_state n' = LEARN_IDLE" "rf_pending_name n' = nm"
    "fired n' = fired n @ [LearnFailedTrigger ?reason, LearnStartedTrigger nm]"
    using k by (simp_all add: publish_defs) (simp add: fired_def map_filter_def)
  then show ?thesis using assms(2) by (simp add: still_idle)
qed

end
