(* ===== verification/LearnRuns.thy ===== *)
theory LearnRuns
  imports Automation
begin

text \<open>
  How learns go: a button that is held is learned, a quiet learn ends at its deadline and not
  before, and a capture that changes its waveform on the way keeps the gaps of the old one.
\<close>

section \<open>Lemmas: the clock\<close>

lemma sint_nonneg_iff: "0 \<le> sint (x :: 32 word) \<longleftrightarrow> unat x < 2147483648"
proof -
  have u: "int (unat x) = sint x mod 4294967296"
    using uint_word_of_int [of "sint x", where ?'a = 32] by simp
  show ?thesis
  proof (cases "0 \<le> sint x")
    case True
    with sint_range [of x] have "sint x mod 4294967296 = sint x" by (intro mod_pos_pos_trivial) auto
    with u True sint_range [of x] show ?thesis by linarith
  next
    case False
    with sint_range [of x] have "(sint x + 4294967296) mod 4294967296 = sint x + 4294967296"
      by (intro mod_pos_pos_trivial) auto
    then have "sint x mod 4294967296 = sint x + 4294967296" by simp
    with u False sint_range [of x] show ?thesis by linarith
  qed
qed

text \<open>A deadline less than 2 ^ 31 ms away is compared correctly across the wrap of the clock.\<close>

lemma deadline_passed:
  assumes "unat timeout < 2147483648" and "unat (now - start :: 32 word) < unat timeout + 2147483648"
  shows "sint (now - (start + timeout)) \<ge> 0 \<longleftrightarrow> unat timeout \<le> unat (now - start)"
proof -
  have eq: "now - (start + timeout) = (now - start) - timeout" by simp
  show ?thesis
  proof (cases "unat timeout \<le> unat (now - start)")
    case True
    then have "unat (now - start - timeout) = unat (now - start) - unat timeout"
      by (intro unat_sub) (simp add: word_le_nat_alt)
    with True assms(2) show ?thesis unfolding eq sint_nonneg_iff by linarith
  next
    case False
    then have "unat (timeout - (now - start)) = unat timeout - unat (now - start)"
      by (intro unat_sub) (simp add: word_le_nat_alt)
    then have small: "0 < unat (timeout - (now - start))" "unat (timeout - (now - start)) < 2147483648"
      using False assms(1) by linarith+
    have "sint (- (timeout - (now - start))) < 0"
      using magnitude_space(1) [OF small(1) less_imp_le [OF small(2)]] by (simp only: is_space_def)
    then have "\<not> 0 \<le> sint (now - start - timeout)" by (simp only: minus_diff_eq not_le)
    with False show ?thesis unfolding eq by blast
  qed
qed

section \<open>A quiet learn\<close>

text \<open>A window that is of no use: no two neighbouring frames agree, and it is no frame itself.\<close>

definition is_noise :: "node_config \<Rightarrow> 32 word list \<Rightarrow> bool" where
  "is_noise config raw \<longleftrightarrow>
     validate_frame (strip_terminator raw) (nc_limits config) \<noteq> FRAME_OK \<and>
     (\<forall>(f1, f2, gap) \<in> set (frame_pairs (split_frames (strip_terminator raw) (nc_frame_gap_min_us config))).
        validate_frame f1 (nc_limits config) \<noteq> FRAME_OK \<or> validate_frame f2 (nc_limits config) \<noteq> FRAME_OK \<or>
        \<not> frames_agree f1 f2 (cl_tolerance_percent (nc_limits config)))"

text \<open>Inputs of a learn nobody answers, and the tick that ends it.\<close>

fun quiet :: "node_config \<Rightarrow> 32 word \<Rightarrow> 32 word \<Rightarrow> rf_input \<Rightarrow> bool" where
  "quiet config start timeout (Receive raw now_us now_ms) = is_noise config raw"
| "quiet config start timeout (Tick now) = (unat (now - start) < unat timeout + 2147483648)"
| "quiet config start timeout _ = False"

fun due :: "32 word \<Rightarrow> 32 word \<Rightarrow> rf_input \<Rightarrow> bool" where
  "due start timeout (Tick now) = (unat timeout \<le> unat (now - start))"
| "due start timeout _ = False"

definition waiting :: "node_config \<Rightarrow> 32 word \<Rightarrow> 'b rf_cloner \<Rightarrow> bool" where
  "waiting config deadline n \<longleftrightarrow>
     rf_config n = config \<and> rf_state n = LEARN_ARMED \<and> \<not> rf_ready n \<and> \<not> rf_saw_frame n \<and> rf_looping n \<and>
     rf_deadline_ms n = deadline"

definition unheard :: "learn_failure set" where
  "unheard = {FAILURE_TIMEOUT, FAILURE_TOO_FEW_PULSES, FAILURE_TOO_MANY_PULSES, FAILURE_PULSE_OUT_OF_RANGE}"

definition given_up :: "'b rf_cloner \<Rightarrow> bool" where
  "given_up n \<longleftrightarrow> rf_state n = LEARN_FAILED \<and> (\<exists>f \<in> unheard. rf_last_result n = learn_failure_to_string f)"

lemma noise_not_consumed:
  assumes "is_noise (rf_config n) raw"
  shows "consume_multi_frame B (strip_terminator raw) now_ms n = (False, n)"
proof -
  let ?pairs = "frame_pairs (split_frames (strip_terminator raw) (nc_frame_gap_min_us (rf_config n)))"
  have "fold consume_pair ps (False, n) = (False, n)" if "set ps \<subseteq> set ?pairs" for ps
    using that assms
  proof (induction ps)
    case (Cons p ps)
    obtain f1 f2 gap where p: "p = (f1, f2, gap)" by (cases p) auto
    with Cons.prems have "consume_pair p (False, n) = (False, n)"
      by (auto simp: is_noise_def consume_pair_def Let_def)
    with Cons show ?case by simp
  qed simp
  then show ?thesis by (simp add: consume_multi_frame_def Let_def)
qed

lemma waiting_noise:
  assumes "waiting config deadline n" and "is_noise config raw"
  shows "waiting config deadline (on_receive B raw now_us now_ms n) \<and>
    rf_store (on_receive B raw now_us now_ms n) = rf_store n"
proof -
  have noise: "is_noise (rf_config n) raw" using assms by (simp add: waiting_def)
  with assms noise_not_consumed [OF noise, of B now_ms] show ?thesis
    by (simp add: on_receive_def Let_def is_noise_def waiting_def)
qed

lemma given_up_stays:
  assumes "given_up n"
  shows "given_up (on_receive B raw now_us now_ms n) \<and> rf_store (on_receive B raw now_us now_ms n) = rf_store n"
    and "given_up (node_step B (Tick now) n) \<and> rf_store (node_step B (Tick now) n) = rf_store n"
  using assms by (simp_all add: given_up_def on_receive_def node_loop_def)

lemma waiting_tick:
  assumes "waiting config (start + timeout) n" and "unat timeout < 2147483648"
    and "unat (now - start) < unat timeout + 2147483648"
  shows "(if unat timeout \<le> unat (now - start) then given_up (node_step B (Tick now) n)
    else node_step B (Tick now) n = n) \<and> rf_store (node_step B (Tick now) n) = rf_store n"
proof -
  have "timeout_failure n \<in> unheard"
    using assms(1) by (simp add: waiting_def timeout_failure_def unheard_def split: frame_verdict.split)
  then have "given_up (fail_learn (timeout_failure n) n)" "rf_store (fail_learn (timeout_failure n) n) = rf_store n"
    by (auto simp: given_up_def fail_learn_def publish_defs)
  with assms(1) deadline_passed [OF assms(2,3)] show ?thesis
    by (simp add: waiting_def node_loop_def)
qed

lemma quiet_run:
  assumes "waiting config (start + timeout) n \<or> given_up n" and "unat timeout < 2147483648"
    and "list_all (quiet config start timeout) inputs"
  shows "(if given_up n \<or> list_ex (due start timeout) inputs then given_up (run_node B inputs n)
    else waiting config (start + timeout) (run_node B inputs n)) \<and> rf_store (run_node B inputs n) = rf_store n"
  using assms(1,3)
proof (induction inputs arbitrary: n)
  case Nil then show ?case by (auto simp: run_node_def)
next
  case (Cons i inputs)
  have disjoint: "waiting config d m \<Longrightarrow> \<not> given_up m" for m d by (simp add: waiting_def given_up_def)
  let ?m = "node_step B i n"
  have step: "(if given_up n \<or> due start timeout i then given_up ?m else waiting config (start + timeout) ?m) \<and>
      rf_store ?m = rf_store n"
  proof (cases i)
    case (Receive raw now_us now_ms)
    with Cons.prems have "is_noise config raw" by simp
    with Receive Cons.prems(1) waiting_noise [of config _ n raw B now_us now_ms] given_up_stays(1) [of n B raw now_us now_ms]
      disjoint show ?thesis by auto
  next
    case (Tick now)
    then have "unat (now - start) < unat timeout + 2147483648" using Cons.prems by simp
    with Tick Cons.prems waiting_tick [of config start timeout n now B] given_up_stays(2) [of n B now] assms(2) disjoint
    show ?thesis by (auto split: if_splits)
  qed (use Cons.prems in simp_all)
  then have "waiting config (start + timeout) ?m \<or> given_up ?m" by (auto split: if_splits)
  with Cons.IH [of ?m] Cons.prems step disjoint show ?case
    by (auto simp: run_node_def split: if_splits)
qed

lemma learn_waits:
  assumes "rf_state (node_learn nm timeout_ms start n) = LEARN_ARMED"
  shows "waiting (rf_config n) (start + (if timeout_ms > 0 then timeout_ms else nc_learn_timeout_ms (rf_config n)))
    (node_learn nm timeout_ms start n)"
  using assms
  by (auto simp: node_learn_def refuse_learn_def fail_learn_def publish_defs waiting_def Let_def split: if_splits)

section \<open>A held button\<close>

text \<open>What the window of a held button adds to a capture it agrees with.\<close>

definition heard_more :: "32 word list \<Rightarrow> 'b rf_cloner \<Rightarrow> 'b rf_cloner" where
  "heard_more gaps n = n\<lparr>rf_agreements := rf_agreements n + of_nat (length gaps),
     rf_physical_gaps := rf_physical_gaps n @ gaps, rf_saw_frame := True\<rparr>"

definition good_frames :: "node_config \<Rightarrow> 32 word list list \<Rightarrow> bool" where
  "good_frames config frames \<longleftrightarrow>
     (\<forall>f \<in> set frames. validate_frame f (nc_limits config) = FRAME_OK \<and>
        (\<forall>g \<in> set frames. frames_agree f g (cl_tolerance_percent (nc_limits config))))"

lemma good_frames_tl: "good_frames config (f # frames) \<Longrightarrow> good_frames config frames"
  by (simp add: good_frames_def)

lemma consume_held:
  assumes "good_frames (rf_config n) (rf_candidate n # first # map snd rest)" and "rf_candidate n \<noteq> []"
    and "rf_saw_frame n"
  shows "fold consume_pair (zip (first # map snd rest) (zip (map snd rest) (map fst rest))) (True, n) =
    (True, heard_more (map fst rest) n)"
  using assms
proof (induction rest arbitrary: first n)
  case Nil
  then show ?case by (simp add: heard_more_def)
next
  case (Cons x rest)
  obtain gap f where x: "x = (gap, f)" by force
  let ?n1 = "n\<lparr>rf_agreements := rf_agreements n + 1, rf_physical_gaps := rf_physical_gaps n @ [gap], rf_saw_frame := True\<rparr>"
  have "consume_pair (first, f, gap) (True, n) = (True, ?n1)"
    using Cons.prems x by (simp add: consume_pair_def good_frames_def Let_def)
  moreover have "good_frames (rf_config ?n1) (rf_candidate ?n1 # f # map snd rest)"
    using Cons.prems(1) x by (simp add: good_frames_def)
  then have "fold consume_pair (zip (f # map snd rest) (zip (map snd rest) (map fst rest))) (True, ?n1) =
      (True, heard_more (map fst rest) ?n1)"
    using Cons.prems(2) by (intro Cons.IH) simp_all
  ultimately show ?case by (simp add: x heard_more_def ac_simps)
qed

lemma consume_window:
  assumes "good_frames (rf_config n) (first # map snd rest)" and "rf_candidate n = []" and "first \<noteq> []"
    and "rest \<noteq> []"
  shows "fold consume_pair (frame_pairs \<lparr>sw_frames = first # map snd rest, sw_gaps = map fst rest\<rparr>) (False, n) =
    (True, n\<lparr>rf_candidate := first, rf_agreements := 1 + of_nat (length rest), rf_physical_gaps := map fst rest,
       rf_saw_frame := True, rf_ready := False\<rparr>)"
proof -
  obtain gap f rest' where rest: "rest = (gap, f) # rest'" using assms(4) by (cases rest) auto
  let ?n1 = "n\<lparr>rf_candidate := first, rf_agreements := 2, rf_physical_gaps := [gap], rf_ready := False, rf_saw_frame := True\<rparr>"
  have "consume_pair (first, f, gap) (False, n) = (True, ?n1)"
    using assms rest by (simp add: consume_pair_def good_frames_def Let_def)
  moreover have "fold consume_pair (zip (f # map snd rest') (zip (map snd rest') (map fst rest'))) (True, ?n1) =
      (True, heard_more (map fst rest') ?n1)"
    using assms rest by (intro consume_held) (simp_all add: good_frames_def)
  ultimately show ?thesis
    by (simp add: frame_pairs_def rest heard_more_def)
qed

text \<open>What committing a capture leads to, by the result of the store.\<close>

definition commits :: "'b storage \<Rightarrow> command \<Rightarrow> 'b rf_cloner \<Rightarrow> 'b rf_cloner \<Rightarrow> bool" where
  "commits B c n n' \<longleftrightarrow>
     (case put B c (rf_store n) (rf_backend n) of (result, st, b) \<Rightarrow>
        rf_store n' = st \<and> rf_backend n' = b \<and>
        (if result = OK then rf_state n' = LEARN_CAPTURED \<and> rf_last_result n' = cmd_name c
         else rf_state n' = LEARN_IDLE \<and> rf_last_result n' = ''store_error:'' @ store_result_to_string result))"

lemma commit_capture_commits: "commits B (captured_command n) n (commit_capture B n)"
  by (auto simp: commits_def commit_capture_def publish_defs Let_def captured_command_def split: prod.split)

lemma held_window_learned:
  fixes rest :: "(32 word \<times> 32 word list) list"
  assumes armed: "rf_state n = LEARN_ARMED" "rf_candidate n = []"
    and frames: "good_frames (rf_config n) (first # map snd rest)"
    and shape: "0 < unat (nc_frame_gap_min_us (rf_config n))" "frame_like (nc_frame_gap_min_us (rf_config n)) first"
      "list_all (\<lambda>(gap, f). nc_frame_gap_min_us (rf_config n) \<le> gap \<and> unat gap \<le> 2147483648 \<and>
         frame_like (nc_frame_gap_min_us (rf_config n)) f) rest"
    and enough: "2 \<le> length rest" "unat (nc_min_repeats (rf_config n)) \<le> length rest + 1" "length rest + 1 < 2 ^ 32"
    and med: "sort (map fst rest) ! (length rest div 2) = gap"
      "nc_min_gap_us (rf_config n) \<le> gap" "gap \<le> nc_max_gap_us (rf_config n)"
  shows "commits B \<lparr>cmd_id = COMMAND_ID_NONE, cmd_name = rf_pending_name n, cmd_timings = first, cmd_gap_us = gap,
      cmd_repeat_times = nc_default_repeat_times (rf_config n), cmd_frequency_hz = nc_frequency_hz (rf_config n),
      cmd_modulation = 0\<rparr> n (on_receive B (held_window first rest @ [terminator]) now_us now_ms n)"
proof -
  have first: "first \<noteq> []" using shape(2) by (simp add: frame_like_def)
  let ?agreements = "1 + of_nat (length rest) :: 32 word"
  let ?n1 = "n\<lparr>rf_candidate := first, rf_agreements := ?agreements, rf_physical_gaps := map fst rest,
       rf_saw_frame := True, rf_ready := False\<rparr>"
  let ?m = "note_ready now_ms ?n1"
  have "(ucast (nc_min_repeats (rf_config n)) :: 32 word) \<le> ?agreements"
  proof -
    have "?agreements = of_nat (1 + length rest)" by simp
    then have "unat ?agreements = (1 + length rest) mod 2 ^ 32" by (simp only: unat_of_nat) simp
    then have "unat ?agreements = 1 + length rest" using enough(3) by simp
    moreover have "unat (ucast (nc_min_repeats (rf_config n)) :: 32 word) = unat (nc_min_repeats (rf_config n))"
      using unsigned_less [of "nc_min_repeats (rf_config n)", where ?'a = nat]
      by (simp add: unsigned_ucast_eq take_bit_nat_eq_self)
    ultimately show ?thesis using enough(2) by (simp add: word_le_nat_alt)
  qed
  then have ready: "?m = ?n1\<lparr>rf_ready := True, rf_ready_since_ms := now_ms\<rparr>" by (simp add: note_ready_def)
  have "consume_multi_frame B (held_window first rest) now_ms n = (True, commit_capture B ?m)"
    using split_held [OF shape] consume_window [OF frames armed(2) first] enough(1) ready
    by (auto simp: consume_multi_frame_def Let_def)
  then have "on_receive B (held_window first rest @ [terminator]) now_us now_ms n = commit_capture B ?m"
    using armed(1) by (simp add: on_receive_def strip_terminator_def)
  moreover have "captured_command ?m = \<lparr>cmd_id = COMMAND_ID_NONE, cmd_name = rf_pending_name n, cmd_timings = first,
      cmd_gap_us = gap, cmd_repeat_times = nc_default_repeat_times (rf_config n),
      cmd_frequency_hz = nc_frequency_hz (rf_config n), cmd_modulation = 0\<rparr>"
  proof -
    have "rest \<noteq> []" using enough(1) by auto
    then have "resolve_gap_us ?m = gap" using med ready by (simp add: resolve_gap_us_def Let_def)
    then show ?thesis using ready by (simp add: captured_command_def)
  qed
  moreover have "rf_store ?m = rf_store n" "rf_backend ?m = rf_backend n" using ready by simp_all
  ultimately show ?thesis using commit_capture_commits [of B ?m] by (simp add: commits_def)
qed

section \<open>Properties\<close>


definition demo_rf_config :: node_config where
  "demo_rf_config = default_node_config\<lparr>nc_max_commands := 2,
     nc_limits := default_limits\<lparr>cl_min_pulses := 2, cl_max_pulses := 4\<rparr>\<rparr>"

definition demo_rf :: "unit rf_cloner" where
  "demo_rf = (new_rf_cloner demo_rf_config ())\<lparr>rf_store := demo_empty_store, rf_looping := False\<rparr>"

lemmas demo_rf_defs = demo_rf_def demo_rf_config_def new_rf_cloner_def default_node_config_def default_limits_def
  demo_empty_store_def

lemma demo_rf_ok: "node_ok demo_rf"
proof -
  have "store_ok (rf_store demo_rf)" using demo_empty_store_ok by (simp add: demo_rf_def)
  then show ?thesis by (simp add: node_ok_def capture_ok_def) (simp add: demo_rf_defs)
qed

lemma demo_rf_arms:
  "rf_state (node_learn ''gate'' 0 1000 demo_rf) = LEARN_ARMED"
  by (simp add: node_learn_def publish_defs demo_rf_defs validate_name_def store_consts store_name_char_def
      has_def find_slot_def occupied_def empty_command_def count_def)

lemmas frame_eval = good_frames_def validate_frame_def pulse_in_range_def frames_agree_def pulses_agree_def
  tolerance_lower_def tolerance_upper_def magnitude_def is_space_def frame_like_def is_frame_gap_def


text \<open>
  C9: A learn nobody answers ends, and not early: as long as nothing usable is received the component
  stays armed exactly until the first tick at which the timeout has run out, whatever noise comes in
  and even when the millisecond clock wraps in between; then it has failed for a reason that says
  why, and stays so. The registry is not touched.
\<close>

theorem quiet_learn_ends:
  assumes "rf_state (node_learn nm timeout_ms start n) = LEARN_ARMED"
    and "timeout = (if timeout_ms > 0 then timeout_ms else nc_learn_timeout_ms (rf_config n))"
    and "unat timeout < 2147483648" and "list_all (quiet (rf_config n) start timeout) inputs"
  shows "rf_store (run_node B inputs (node_learn nm timeout_ms start n)) = rf_store n \<and>
    (if list_ex (due start timeout) inputs then given_up (run_node B inputs (node_learn nm timeout_ms start n))
     else rf_state (run_node B inputs (node_learn nm timeout_ms start n)) = LEARN_ARMED)"
proof -
  have waits: "waiting (rf_config n) (start + timeout) (node_learn nm timeout_ms start n)"
    using learn_waits [OF assms(1)] assms(2) by simp
  then have "\<not> given_up (node_learn nm timeout_ms start n)" by (simp add: waiting_def given_up_def)
  with quiet_run [OF disjI1 [OF waits] assms(3,4), of B] show ?thesis
    by (auto simp: node_learn_still waiting_def split: if_splits)
qed

lemma quiet_learn_ends_witness:
  "rf_state (run_node perfect_storage [Receive [50, - 40000] 0 0, Tick 5000] (node_learn ''gate'' 10000 4294967290 demo_rf)) =
     LEARN_ARMED \<and>
   given_up (run_node perfect_storage [Receive [50, - 40000] 0 0, Tick 5000, Tick 9994]
     (node_learn ''gate'' 10000 4294967290 demo_rf))"
proof -
  have armed: "rf_state (node_learn ''gate'' 10000 4294967290 demo_rf) = LEARN_ARMED"
    by (simp add: node_learn_def publish_defs demo_rf_defs validate_name_def store_consts store_name_char_def
        has_def find_slot_def occupied_def empty_command_def count_def)
  have noise: "is_noise (rf_config demo_rf) [50, - 40000]"
    by (simp add: is_noise_def strip_terminator_def frame_pairs_def split_frames_def split_step_def frame_eval demo_rf_defs)
  have given: "(10000 :: 32 word) = (if (10000 :: 32 word) > 0 then 10000 else nc_learn_timeout_ms (rf_config demo_rf))"
    "unat (10000 :: 32 word) < 2147483648" by simp_all
  have early: "list_all (quiet (rf_config demo_rf) 4294967290 10000) [Receive [50, - 40000] 0 0, Tick 5000]"
    and late: "list_all (quiet (rf_config demo_rf) 4294967290 10000) [Receive [50, - 40000] 0 0, Tick 5000, Tick 9994]"
    using noise by simp_all
  from quiet_learn_ends [OF armed given early] quiet_learn_ends [OF armed given late] show ?thesis by simp
qed

text \<open>
  C31: A capture whose waveform changes keeps the gaps of the old one: a single frame that disagrees with
  the candidate replaces it and resets what was counted, but the gaps measured between repeats of
  the old waveform stay, and their median is the gap the new waveform would be stored with.
\<close>

theorem changed_waveform_keeps_gaps:
  assumes "rf_state n = LEARN_ARMED" and "frame = strip_terminator raw"
    and "length (sw_frames (split_frames frame (nc_frame_gap_min_us (rf_config n)))) < 2"
    and "validate_frame frame (nc_limits (rf_config n)) = FRAME_OK"
    and "\<not> frames_agree (rf_candidate n) frame (cl_tolerance_percent (nc_limits (rf_config n)))"
    and "rf_physical_gaps n \<noteq> []"
    and "sort (rf_physical_gaps n) ! (length (rf_physical_gaps n) div 2) = gap"
    and "nc_min_gap_us (rf_config n) \<le> gap" and "gap \<le> nc_max_gap_us (rf_config n)"
  shows "cmd_timings (captured_command (on_receive B raw now_us now_ms n)) = frame \<and>
    rf_agreements (on_receive B raw now_us now_ms n) = 1 \<and>
    rf_physical_gaps (on_receive B raw now_us now_ms n) = rf_physical_gaps n \<and>
    cmd_gap_us (captured_command (on_receive B raw now_us now_ms n)) = gap"
proof -
  have "consume_multi_frame B frame now_ms n = (False, n)"
    using assms(3) by (simp add: consume_multi_frame_def)
  then have "on_receive B raw now_us now_ms n = n\<lparr>rf_saw_frame := True, rf_candidate := frame, rf_agreements := 1,
      rf_ready := False, rf_first_frame_us := now_us, rf_last_frame_us := now_us, rf_interval_count := 0\<rparr>"
    using assms(1,2,4,5) by (simp add: on_receive_def Let_def)
  with assms(6-9) show ?thesis by (simp add: captured_command_def resolve_gap_us_def Let_def)
qed

definition demo_half_heard :: "unit rf_cloner" where
  "demo_half_heard = demo_rf\<lparr>rf_state := LEARN_ARMED, rf_looping := True, rf_pending_name := ''gate'',
     rf_candidate := [350, - 700, 350], rf_agreements := 2, rf_physical_gaps := [9000]\<rparr>"

lemma changed_waveform_keeps_gaps_witness:
  "cmd_timings (captured_command (on_receive perfect_storage [1200, - 400, 1200, - 20000] 0 0 demo_half_heard)) =
     [1200, - 400, 1200] \<and>
   cmd_gap_us (captured_command (on_receive perfect_storage [1200, - 400, 1200, - 20000] 0 0 demo_half_heard)) = 9000"
proof -
  have facts: "rf_state demo_half_heard = LEARN_ARMED"
    "[1200, - 400, 1200] = strip_terminator [1200, - 400, 1200, - 20000]"
    "length (sw_frames (split_frames [1200, - 400, 1200] (nc_frame_gap_min_us (rf_config demo_half_heard)))) < 2"
    "validate_frame [1200, - 400, 1200] (nc_limits (rf_config demo_half_heard)) = FRAME_OK"
    "\<not> frames_agree (rf_candidate demo_half_heard) [1200, - 400, 1200]
       (cl_tolerance_percent (nc_limits (rf_config demo_half_heard)))"
    "rf_physical_gaps demo_half_heard \<noteq> []"
    "sort (rf_physical_gaps demo_half_heard) ! (length (rf_physical_gaps demo_half_heard) div 2) = 9000"
    "nc_min_gap_us (rf_config demo_half_heard) \<le> 9000" "9000 \<le> nc_max_gap_us (rf_config demo_half_heard)"
    by (simp_all add: demo_half_heard_def strip_terminator_def split_frames_def split_step_def frame_eval demo_rf_defs)
  from changed_waveform_keeps_gaps [OF facts, of perfect_storage 0 0] show ?thesis by simp
qed

lemma only_checked_captures_are_stored_witness:
  "all_stored (vouched demo_rf_config) (rf_store (run_node perfect_storage
     [Learn ''gate'' 0 1000, Receive [350, - 700, 350, - 9000, 350, - 700, 350, - 9100, 350, - 700, 350, - 20000] 5000 1500,
      RenameCommand 1 ''door''] demo_rf))"
proof -
  have "all_stored (vouched (rf_config demo_rf)) (rf_store demo_rf)"
    by (simp add: all_stored_def get_by_id_def find_slot_by_id_def demo_rf_defs empty_command_def)
  moreover have "rf_config demo_rf = demo_rf_config" by (simp add: demo_rf_def new_rf_cloner_def)
  ultimately show ?thesis
    using only_checked_captures_are_stored [OF demo_rf_ok, of "[Learn ''gate'' 0 1000,
      Receive [350, - 700, 350, - 9000, 350, - 700, 350, - 9100, 350, - 700, 350, - 20000] 5000 1500,
      RenameCommand 1 ''door'']" perfect_storage] by simp
qed

lemma learn_triggers_alternate_witness:
  "sessions (fired (run_node perfect_storage [Learn ''gate'' 0 1000, Cancel, Learn ''gate'' 0 1000] demo_rf)) = Some True"
proof -
  have ready: "list_all input_typed [Learn ''gate'' 0 1000, Cancel, Learn ''gate'' 0 1000]" "fired demo_rf = []"
    "rf_state demo_rf \<noteq> LEARN_ARMED"
    by (simp_all add: demo_rf_def new_rf_cloner_def fired_def map_filter_def)
  have "rf_state (run_node perfect_storage [Learn ''gate'' 0 1000, Cancel, Learn ''gate'' 0 1000] demo_rf) = LEARN_ARMED"
    by code_simp
  with learn_triggers_alternate [OF demo_rf_ok ready, of perfect_storage] show ?thesis by simp
qed

text \<open>A learn in progress on a device whose storage has turned out to be unreadable.\<close>

definition demo_refused :: "unit rf_cloner" where
  "demo_refused = demo_rf\<lparr>rf_state := LEARN_ARMED, rf_looping := True, rf_pending_name := ''gate'',
     rf_candidate := [350, - 700, 350], rf_agreements := 3, rf_physical_gaps := [9000, 9000],
     rf_store := demo_empty_store\<lparr>st_read_only := True\<rparr>, rf_effects := [LearnStarted ''gate'']\<rparr>"

lemma retried_learn_is_lost_witness:
  "\<exists>n'. n' = commit_capture_calling perfect_storage (\<lambda>reason. play perfect_storage 2000 None reason (LearnAction (\<lambda>_. ''gate'') None))
       demo_refused \<and> last (fired n') = LearnStartedTrigger ''gate'' \<and> sessions (fired n') = Some True \<and> rf_state n' = LEARN_IDLE"
proof -
  let ?st = "demo_empty_store\<lparr>st_read_only := True\<rparr>"
  have facts: "rf_state demo_refused = LEARN_ARMED" "sessions (fired demo_refused) = Some True"
    by (simp_all add: demo_refused_def sessions_def fired_def map_filter_def)
  have refused: "put perfect_storage (captured_command demo_refused) (rf_store demo_refused) (rf_backend demo_refused) =
      (READ_ONLY, ?st, ())" "READ_ONLY \<noteq> OK"
    by (simp_all add: put_def writable_def demo_refused_def demo_rf_defs)
  have free: "validate_name ''gate'' = OK" "has ''gate'' ?st \<or> count ?st < unat (st_max_commands ?st)"
    by code_simp+
  from retried_learn_is_lost [OF facts refused free refl, of 2000 None None] show ?thesis by blast
qed

end
