(* ===== verification/DeviceRuns.thy ===== *)
theory DeviceRuns
  imports LearnRuns
begin

text \<open>
  The component as a machine over its registry: every run of the component moves the registry only by
  steps of the abstract registry that its inputs stand for.
\<close>

section \<open>What an input stands for\<close>

text \<open>The operations of the abstract registry an input of the component can turn into.\<close>

fun stands_for :: "rf_input \<Rightarrow> store_op \<Rightarrow> bool" where
  "stands_for (Receive raw_data now_us now_ms) op = (\<exists>c. op = Put c)"
| "stands_for (Tick now_ms) op = (\<exists>c. op = Put c)"
| "stands_for (RenameCommand command_id nm) op = (op = Rename command_id nm)"
| "stands_for (Erase nm) op = (op = Remove nm)"
| "stands_for (EraseById command_id) op = (op = RemoveById command_id)"
| "stands_for ClearCommands op = (op = ClearAll)"
| "stands_for (BeginRestore hex_id next_id) op =
     (\<exists>bridge_id. parse_bridge_id hex_id = Some bridge_id \<and> op = RestoreBegin bridge_id next_id)"
| "stands_for (Import command_id nm timings gap_us repeat_times frequency_hz modulation) op =
     (op = ImportCommand \<lparr>cmd_id = command_id, cmd_name = nm, cmd_timings = timings, cmd_gap_us = gap_us,
        cmd_repeat_times = repeat_times, cmd_frequency_hz = frequency_hz, cmd_modulation = modulation\<rparr>)"
| "stands_for (CommitRestore source_revision) op = (op = RestoreCommit source_revision)"
| "stands_for _ op = False"

fun resets_node :: "rf_input \<Rightarrow> bool" where
  "resets_node (ResetNode _) = True"
| "resets_node _ = False"

fun adopts :: "rf_input \<Rightarrow> bool" where
  "adopts (BeginRestore _ _) = True"
| "adopts _ = False"

definition device_spec :: "rf_input \<Rightarrow> registry \<Rightarrow> registry \<Rightarrow> bool" where
  "device_spec i R R' \<longleftrightarrow> (\<exists>op. stands_for i op \<and> reg_step op R R')"

lemma intends_stands: "intends i n op \<Longrightarrow> \<not> resets_node i \<Longrightarrow> stands_for i op"
  by (cases i) (auto simp: captures_def)

lemma stands_no_reset: "stands_for i op \<Longrightarrow> \<not> resets op"
  by (cases i) auto

interpretation device: simulation "node_step B" node_ok "\<lambda>i. input_typed i \<and> \<not> resets_node i"
  "\<lambda>n. registry_of (rf_store n)" device_spec for B
proof
  fix n :: "'a rf_cloner" and i
  assume n: "node_ok n" and i: "input_typed i \<and> \<not> resets_node i"
  then show "node_ok (node_step B i n)" by (simp add: node_step_ok)
  from node_step_move [OF n, of B i, unfolded store_move_def] consider
      "rf_store (node_step B i n) = rf_store n"
    | op r where "intends i n op"
        "exec B op (rf_store n) (rf_backend n) = (r, rf_store (node_step B i n), rf_backend (node_step B i n))" by blast
  then show "registry_of (rf_store (node_step B i n)) = registry_of (rf_store n) \<or>
      device_spec i (registry_of (rf_store n)) (registry_of (rf_store (node_step B i n)))"
  proof cases
    case 2
    have "store_ok (rf_store n)" using n by (simp add: node_ok_def)
    moreover have "op_typed op" using intends_typed [OF 2(1)] i by simp
    moreover have op: "stands_for i op" using intends_stands [OF 2(1)] i by simp
    ultimately show ?thesis
      using store_step [OF _ _ 2(2)] stands_no_reset [OF op] unfolding device_spec_def by blast
  qed simp
qed

text \<open>Only a restore gives a registry another identity, and only a restore or a learn moves its counter.\<close>

lemma identity_steps: "device_spec i R R' \<Longrightarrow> \<not> adopts i \<Longrightarrow> rg_bridge_id R' = rg_bridge_id R"
  by (cases i) (auto simp: device_spec_def elim!: reg_step.cases)

section \<open>Properties\<close>

text \<open>
  C7: A device is its abstract registry: whatever happens to the component, in whatever order, short of
  a factory reset, its registry goes through a run of the specification in which each input makes
  a step it stands for or none at all; a capture is stored only from a received window or a tick, and
  the identity changes only when a restore is begun.
\<close>

theorem runs_refine_registry:
  assumes "node_ok n" and "list_all (\<lambda>i. input_typed i \<and> \<not> resets_node i) inputs"
  shows "spec_run device_spec inputs (registry_of (rf_store n)) (registry_of (rf_store (run_node B inputs n))) \<and>
    (\<not> list_ex adopts inputs \<longrightarrow>
      rg_bridge_id (registry_of (rf_store (run_node B inputs n))) = rg_bridge_id (registry_of (rf_store n)))"
proof -
  have run: "spec_run device_spec inputs (registry_of (rf_store n)) (registry_of (rf_store (run_node B inputs n)))"
    using device.run_simulated [OF assms, of B] by (simp add: run_node_def)
  moreover have "rg_bridge_id (registry_of (rf_store (run_node B inputs n))) = rg_bridge_id (registry_of (rf_store n))"
    if "\<not> list_ex adopts inputs"
    by (rule spec_run_keeps [OF run]) (use that in \<open>auto simp: list_ex_iff intro: identity_steps\<close>)
  ultimately show ?thesis by blast
qed

lemma runs_refine_registry_witness:
  "\<exists>R'. spec_run device_spec [Learn ''gate'' 0 1000, Receive [350, - 700, 350, - 9000, 350, - 700, 350, - 9100, 350, - 700, 350, - 20000] 5000 1500,
      RenameCommand 1 ''door''] (registry_of demo_empty_store) R' \<and> rg_bridge_id R' = rg_bridge_id (registry_of demo_empty_store)"
proof -
  let ?inputs = "[Learn ''gate'' 0 1000, Receive [350, - 700, 350, - 9000, 350, - 700, 350, - 9100, 350, - 700, 350, - 20000] 5000 1500,
      RenameCommand 1 ''door'']"
  have inputs: "list_all (\<lambda>i. input_typed i \<and> \<not> resets_node i) ?inputs" and none: "\<not> list_ex adopts ?inputs" by simp_all
  have "rf_store demo_rf = demo_empty_store" by (simp add: demo_rf_def)
  with runs_refine_registry [OF demo_rf_ok inputs, of perfect_storage] none show ?thesis by metis
qed

end
