(* ===== verification/DeviceActions.thy ===== *)
theory DeviceActions
  imports Automation Restore
begin

text \<open>
  \<open>packages/api-actions.yaml\<close>: the actions a device offers to Home Assistant, over the component.
  An action's variables arrive as Home Assistant sends them; an integer crosses as a signed 32-bit
  number, and the component's parameters take it in their own width. How a call from Home Assistant
  reaches the device is ESPHome's part: \<open>action_link\<close> says what the two sides rely on.
\<close>

section \<open>Variables\<close>

definition int32_of :: "pyval \<Rightarrow> 32 word option" where
  "int32_of v =
     (case v of PInt i \<Rightarrow> if - 2147483648 \<le> i \<and> i < 2147483648 then Some (word_of_int i) else None | _ \<Rightarrow> None)"

definition int_variable :: "(string, pyval) dict \<Rightarrow> string \<Rightarrow> 32 word option" where
  "int_variable data key = Option.bind (map_of data key) int32_of"

definition string_variable :: "(string, pyval) dict \<Rightarrow> string \<Rightarrow> string option" where
  "string_variable data key = (case map_of data key of Some (PStr s) \<Rightarrow> Some s | _ \<Rightarrow> None)"

definition ints_variable :: "(string, pyval) dict \<Rightarrow> string \<Rightarrow> 32 word list option" where
  "ints_variable data key =
     (case map_of data key of Some (PList vs) \<Rightarrow> those (map int32_of vs) | _ \<Rightarrow> None)"

section \<open>Answers\<close>

definition uint_value :: "'a::len word \<Rightarrow> pyval" where
  "uint_value w = PInt (uint w)"

definition status_action :: "'b rf_cloner \<Rightarrow> pyval" where
  "status_action n =
     (let st = rf_store n
      in PDict
        [(''bridge_id'', PStr (bridge_id_hex st)), (''revision'', uint_value (st_revision st)),
         (''next_command_id'', uint_value (st_next_command_id st)),
         (''restore_incomplete'', PBool (restore_incomplete st)), (''read_only'', PBool (st_read_only st)),
         (''fault'', PStr (store_fault_to_string (st_fault st))),
         (''state'', PStr (learn_state_to_string (rf_state n))), (''last_result'', PStr (rf_last_result n)),
         (''count'', PInt (int (count st))), (''max_commands'', uint_value (st_max_commands st)),
         (''max_pulses'', uint_value (st_max_pulses st)), (''used_bytes'', uint_value (used_bytes st)),
         (''capacity_bytes'', uint_value (st_max_storage_bytes st)),
         (''commands'', PList (map (\<lambda>(command_id, nm, pulses). PDict
            [(''id'', uint_value command_id), (''name'', PStr nm), (''pulses'', uint_value pulses)])
            (entries st)))])"

definition export_action :: "32 word \<Rightarrow> 'b rf_cloner \<Rightarrow> pyval" where
  "export_action command_id n =
     PDict ([(''schema'', PInt 1), (''bridge_id'', PStr (bridge_id_hex (rf_store n)))] @
       (case get_by_id command_id (rf_store n) of
          None \<Rightarrow> [(''found'', PBool False)]
        | Some c \<Rightarrow>
            [(''found'', PBool True), (''command_id'', uint_value (cmd_id c)), (''name'', PStr (cmd_name c)),
             (''pulses'', PInt (int (length (cmd_timings c)))), (''gap_us'', uint_value (cmd_gap_us c)),
             (''repeat_times'', uint_value (cmd_repeat_times c)),
             (''frequency_hz'', uint_value (cmd_frequency_hz c)),
             (''modulation'', uint_value (cmd_modulation c)),
             (''timings'', PList (map (\<lambda>t. PInt (sint t)) (cmd_timings c)))]))"

definition list_action :: "'b rf_cloner \<Rightarrow> pyval" where
  "list_action n =
     (let st = rf_store n
      in PDict
        [(''commands'', PList (map PStr (names st))), (''count'', PInt (int (count st))),
         (''max_commands'', uint_value (st_max_commands st)), (''used_bytes'', uint_value (used_bytes st)),
         (''capacity_bytes'', uint_value (st_max_storage_bytes st)),
         (''state'', PStr (learn_state_to_string (rf_state n))), (''last_result'', PStr (rf_last_result n))])"

section \<open>The actions\<close>

text \<open>
  What a call of an action does: nothing that is modelled when the action is not offered or a variable
  does not have its declared type. \<open>now_ms\<close> is the clock when a learn is armed, \<open>random\<close> what the
  source of randomness gives a factory reset.
\<close>

definition import_action ::
  "'b storage \<Rightarrow> (string, pyval) dict \<Rightarrow> 'b rf_cloner \<Rightarrow> 'b rf_cloner option" where
  "import_action B data n =
     (case (int_variable data ''command_id'', string_variable data ''name'', ints_variable data ''timings'',
            int_variable data ''gap_us'', int_variable data ''repeat_times'', int_variable data ''frequency_hz'',
            int_variable data ''modulation'') of
        (Some command_id, Some nm, Some timings, Some gap_us, Some repeat_times, Some frequency_hz, Some modulation) \<Rightarrow>
          Some (snd (node_import_command B command_id nm timings gap_us (ucast repeat_times) frequency_hz
            (ucast modulation) n))
      | _ \<Rightarrow> None)"

text \<open>The actions that only play an action of the component, with the variables of the call.\<close>

definition played_action :: "string \<Rightarrow> (string, pyval) dict \<Rightarrow> unit automation_action option" where
  "played_action action data =
     (if action = ''learn'' then map_option (\<lambda>nm. LearnAction (\<lambda>_. nm) None) (string_variable data ''name'')
      else if action = ''send'' then map_option (\<lambda>nm. SendAction (\<lambda>_. nm) None None) (string_variable data ''name'')
      else if action = ''delete'' then map_option (\<lambda>nm. DeleteAction (\<lambda>_. nm)) (string_variable data ''name'')
      else if action = ''delete_id''
      then map_option (\<lambda>command_id. DeleteByIdAction (\<lambda>_. command_id)) (int_variable data ''command_id'')
      else if action = ''cancel'' then Some CancelAction
      else if action = ''clear'' then Some ClearAllAction
      else if action = ''factory_reset'' then Some FactoryResetAction
      else if action = ''send_id''
      then map_option (\<lambda>command_id. SendByIdAction (\<lambda>_. command_id) None None) (int_variable data ''command_id'')
      else if action = ''rename''
      then (case (int_variable data ''command_id'', string_variable data ''name'') of
          (Some command_id, Some nm) \<Rightarrow> Some (RenameAction (\<lambda>_. command_id) (\<lambda>_. nm)) | _ \<Rightarrow> None)
      else None)"

definition node_action ::
  "'b storage \<Rightarrow> 32 word \<Rightarrow> byte list option \<Rightarrow> string \<Rightarrow> (string, pyval) dict \<Rightarrow> 'b rf_cloner \<Rightarrow>
     (pyval \<times> 'b rf_cloner) option" where
  "node_action B now_ms random action data n =
     (if action = ''status'' then Some (status_action n, n)
      else if action = ''export''
      then map_option (\<lambda>command_id. (export_action command_id n, n)) (int_variable data ''command_id'')
      else if action = ''list'' then Some (list_action n, n)
      else map_option (Pair PNone)
        (if action = ''restore_begin''
         then (case (string_variable data ''bridge_id'', int_variable data ''next_command_id'') of
             (Some hex_id, Some next_id) \<Rightarrow> Some (snd (node_restore_begin B hex_id next_id n)) | _ \<Rightarrow> None)
         else if action = ''import'' then import_action B data n
         else if action = ''restore_commit''
         then map_option (\<lambda>source_revision. snd (node_restore_commit B source_revision n))
           (int_variable data ''source_revision'')
         else map_option (\<lambda>a. play B now_ms random () a n) (played_action action data)))"

text \<open>
  \<open>packages/controls.yaml\<close>: the buttons a device has itself, which act on the command named in a
  text entity.
\<close>

datatype control = LearnButton | SendButton | DeleteButton | CancelButton

fun control_action :: "control \<Rightarrow> string \<Rightarrow> unit automation_action" where
  "control_action LearnButton command_name = LearnAction (\<lambda>_. command_name) None"
| "control_action SendButton command_name = SendAction (\<lambda>_. command_name) None None"
| "control_action DeleteButton command_name = DeleteAction (\<lambda>_. command_name)"
| "control_action CancelButton command_name = CancelAction"

text \<open>Every call of an action is a step of the component or leaves it alone.\<close>

lemma played_typed:
  "(\<And>bytes. random = Some bytes \<Longrightarrow> length bytes = BRIDGE_ID_BYTES) \<Longrightarrow> input_typed (played now_ms random x a)"
  by (cases a; cases random) simp_all

lemma node_action_is_step:
  assumes "node_action B now_ms random action data n = Some (answer, n')"
    and "\<And>bytes. random = Some bytes \<Longrightarrow> length bytes = BRIDGE_ID_BYTES"
  shows "n' = n \<or> (\<exists>i. input_typed i \<and> n' = node_step B i n)"
proof -
  have steps: "\<exists>i. input_typed i \<and> snd (node_restore_begin B hex_id next_id n) = node_step B i n"
    "\<exists>i. input_typed i \<and> snd (node_import_command B command_id nm timings gap repeats frequency modulation n) = node_step B i n"
    "\<exists>i. input_typed i \<and> snd (node_restore_commit B source_revision n) = node_step B i n"
    "\<exists>i. input_typed i \<and> play B now_ms random () a n = node_step B i n"
    for hex_id next_id command_id nm timings gap repeats frequency modulation source_revision a
    using played_typed [OF assms(2)] node_step.simps(12-14) [symmetric] play_is_step input_typed.simps by metis+
  show ?thesis
    using assms(1) steps
    by (auto simp: node_action_def import_action_def split: if_splits option.splits)
qed

lemma node_action_ok:
  assumes "node_action B now_ms random action data n = Some (answer, n')" and "node_ok n"
    and "\<And>bytes. random = Some bytes \<Longrightarrow> length bytes = BRIDGE_ID_BYTES"
  shows "node_ok n'"
  using node_action_is_step [OF assms(1,3)] assms(2) node_step_ok by metis

section \<open>The link between Home Assistant and a device\<close>

text \<open>
  A transport is linked to a device when it resolves every action to a service, and calling the
  service, for its answer when it has one, carries out the action on that device and brings the
  answer back, at some time and with some randomness of the device's own. What a call with a variable of the wrong type does is
  left open.
\<close>

definition answers :: "string \<Rightarrow> bool" where
  "answers action \<longleftrightarrow> action \<in> {''status'', ''export'', ''list''}"

definition action_link ::
  "('h, 'z) hass_api_scheme \<Rightarrow> transport \<Rightarrow> 'b storage \<Rightarrow> ('h \<Rightarrow> 'b rf_cloner) \<Rightarrow> bool" where
  "action_link api t B node \<longleftrightarrow>
     (\<forall>action h. \<exists>service. service_name api t action h = Some service \<and>
        (\<forall>data. \<exists>now_ms random.
           case node_action B now_ms random action data (node h) of
             None \<Rightarrow> True
           | Some (answer, n') \<Rightarrow>
               \<exists>h'. h_call api ESPHOME_DOMAIN service data (answers action) h = (Inr answer, h') \<and> node h' = n'))"

section \<open>Lemmas: calls over the link\<close>

lemma link_call:
  assumes "action_link api t B node"
    and "\<And>now_ms random. node_action B now_ms random action data (node h) = Some (answer, n')"
  obtains service h' where "service_name api t action h = Some service"
    and "h_call api ESPHOME_DOMAIN service data (answers action) h = (Inr answer, h')" and "node h' = n'"
proof -
  from assms(1) obtain service where service: "service_name api t action h = Some service"
    and carried: "\<forall>data. \<exists>now_ms random. case node_action B now_ms random action data (node h) of
        None \<Rightarrow> True
      | Some (answer, n') \<Rightarrow>
          \<exists>h'. h_call api ESPHOME_DOMAIN service data (answers action) h = (Inr answer, h') \<and> node h' = n'"
    unfolding action_link_def by blast
  from carried obtain now_ms random where "case node_action B now_ms random action data (node h) of
        None \<Rightarrow> True
      | Some (answer, n') \<Rightarrow>
          \<exists>h'. h_call api ESPHOME_DOMAIN service data (answers action) h = (Inr answer, h') \<and> node h' = n'" by blast
  with assms(2) [of now_ms random] obtain h' where
    "h_call api ESPHOME_DOMAIN service data (answers action) h = (Inr answer, h')" "node h' = n'" by auto
  with service that show thesis by blast
qed

lemma link_command:
  assumes "action_link api t B node" and "\<not> answers action"
    and "\<And>now_ms random. node_action B now_ms random action data (node h) = Some (answer, n')"
  obtains h' where "command_call api t action data h = (Inr (), h')" and "node h' = n'"
proof -
  obtain service h' where "service_name api t action h = Some service"
    "h_call api ESPHOME_DOMAIN service data (answers action) h = (Inr answer, h')" "node h' = n'"
    by (rule link_call [OF assms(1,3)])
  with assms(2) command_call_returns [of api t action h service data answer h'] that show thesis by simp
qed

lemma link_status:
  assumes "action_link api t B node"
  obtains h' where "async_status api t h = (bridge_status_from_payload (status_action (node h)), h')"
    and "node h' = node h"
proof -
  have "node_action B now_ms random ''status'' [] (node h) = Some (status_action (node h), node h)" for now_ms random
    by (simp add: node_action_def)
  then obtain service h' where "service_name api t ''status'' h = Some service"
    "h_call api ESPHOME_DOMAIN service [] (answers ''status'') h = (Inr (status_action (node h)), h')" "node h' = node h"
    by (rule link_call [OF assms])
  moreover have "answers ''status''" "is_dict (status_action (node h))"
    by (simp_all add: answers_def status_action_def Let_def)
  ultimately show thesis using async_status_returns [of api t h service "status_action (node h)" h'] that by simp
qed

text \<open>The status Home Assistant reads off a device.\<close>

definition status_of :: "'b rf_cloner \<Rightarrow> bridge_status" where
  "status_of n =
     (let st = rf_store n
      in \<lparr>bs_bridge_id = bridge_id_hex st, bs_revision = uint (st_revision st),
         bs_next_command_id = uint (st_next_command_id st), bs_restore_incomplete = restore_incomplete st,
         bs_read_only = st_read_only st, bs_fault = store_fault_to_string (st_fault st),
         bs_state = learn_state_to_string (rf_state n), bs_last_result = rf_last_result n,
         bs_count = int (count st), bs_max_commands = uint (st_max_commands st),
         bs_max_pulses = uint (st_max_pulses st), bs_used_bytes = uint (used_bytes st),
         bs_capacity_bytes = uint (st_max_storage_bytes st),
         bs_commands = map (\<lambda>(command_id, nm, pulses).
           \<lparr>ci_command_id = uint command_id, ci_name = nm, ci_pulses = uint pulses\<rparr>) (entries st)\<rparr>)"

lemma listed_rows:
  "mapE command_info_from_payload (map (\<lambda>(command_id, nm, pulses). PDict
      [(''id'', uint_value command_id), (''name'', PStr nm), (''pulses'', uint_value pulses)]) rows) =
   Inr (map (\<lambda>(command_id, nm, pulses). \<lparr>ci_command_id = uint command_id, ci_name = nm, ci_pulses = uint pulses\<rparr>) rows)"
  by (induction rows) (auto simp: command_info_from_payload_def uint_value_def)

lemma status_parsed: "bridge_status_from_payload (status_action n) = Inr (status_of n)"
  by (simp add: bridge_status_from_payload_def status_action_def status_of_def get_int_def listed_rows Let_def)
    (simp add: uint_value_def)

end
