(* ===== verification/ImportRuns.thy ===== *)
theory ImportRuns
  imports StoreSpec
begin

text \<open>
  When the restore operations of the device's registry succeed: on storage that takes every write,
  a sequence of imports that fit together and fit the registry is accepted whole.
\<close>

section \<open>Storage that takes every write\<close>

definition always_saves :: "'b storage \<Rightarrow> bool" where
  "always_saves B \<longleftrightarrow> (\<forall>key data b. fst (sb_save B key data b))"

lemma saves: "always_saves B \<Longrightarrow> \<exists>b'. sb_save B key data b = (True, b')"
  unfolding always_saves_def by (metis prod.collapse)

lemma saves_index:
  assumes "always_saves B"
  shows "\<exists>b'. persist_index B undo s b = (OK, s, b')"
proof -
  have "\<exists>b'. write_index B s b = (True, b')"
    using saves [OF assms] by (auto simp: write_index_def Let_def split: prod.splits) (metis prod.inject)+
  then show ?thesis by (auto simp: persist_index_def)
qed

lemma saves_slot:
  assumes "always_saves B"
  shows "\<exists>b'. persist_slot B i undo s b = (OK, s, b')"
proof -
  obtain b1 where "write_payload B s i b = (True, b1)"
    unfolding write_payload_def using saves [OF assms] by blast
  with saves_index [OF assms, of undo s b1] show ?thesis by (auto simp: persist_slot_def)
qed

section \<open>What the stored waveforms add up to\<close>

definition weight :: "command list \<Rightarrow> nat" where
  "weight cs = sum_list (map (\<lambda>c. if occupied c then length (cmd_timings c) else 0) cs)"

lemma weight_simps [simp]:
  "weight [] = 0" "weight (c # cs) = (if occupied c then length (cmd_timings c) else 0) + weight cs"
  by (simp_all add: weight_def)

lemma weight_update:
  "i < length cs \<Longrightarrow> \<not> occupied (cs ! i) \<Longrightarrow> occupied c \<Longrightarrow> weight (cs[i := c]) = weight cs + length (cmd_timings c)"
  by (induction cs arbitrary: i) (auto split: nat.splits)

lemma filter_update:
  "i < length cs \<Longrightarrow> \<not> P (cs ! i) \<Longrightarrow> P c \<Longrightarrow> length (filter P (cs[i := c])) = Suc (length (filter P cs))"
  by (induction cs arbitrary: i) (auto split: nat.splits)

definition overhead :: "8 word \<Rightarrow> nat" where
  "overhead slot_count = SIZEOF_HEADER + index_bytes_for slot_count"

lemma projected_new:
  "projected_bytes None p st = word_of_nat (overhead (st_max_commands st) + 4 * weight (st_slots st) + 4 * unat p)"
proof -
  have "fold (\<lambda>(i, c) total. if None = Some i then total else if occupied c then total + payload_size c else total)
      (enumerate k cs) t = t + word_of_nat (4 * weight cs)" for k t and cs :: "command list"
    by (induction cs arbitrary: k t) (auto simp: payload_size_def algebra_simps)
  moreover have "(ucast p :: 32 word) = word_of_nat (unat p)" by simp
  ultimately show ?thesis
    unfolding projected_bytes_def index_overhead_bytes_def overhead_def by (simp add: algebra_simps)
qed

lemma projected_fits:
  assumes "overhead (st_max_commands st) + 4 * weight (st_slots st) + 4 * n \<le> unat (st_max_storage_bytes st)"
    and "n < 65536"
  shows "projected_bytes None (word_of_nat n) st \<le> st_max_storage_bytes st"
proof -
  let ?n = "overhead (st_max_commands st) + 4 * weight (st_slots st) + 4 * n"
  have "unat (word_of_nat n :: 16 word) = n" using assms(2) by (simp add: unat_of_nat)
  then have "projected_bytes None (word_of_nat n) st = word_of_nat ?n" by (simp only: projected_new)
  moreover have "unat (word_of_nat ?n :: 32 word) = ?n"
  proof -
    have "unat (st_max_storage_bytes st) < 2 ^ 32" using unsigned_less [of "st_max_storage_bytes st", where ?'a = nat] by simp
    with assms(1) show ?thesis by (simp only: unat_of_nat) simp
  qed
  ultimately show ?thesis using assms(1) by (simp add: word_le_nat_alt)
qed

section \<open>One import\<close>

text \<open>A registry in the middle of a restore.\<close>

definition restoring_ok :: "command_store \<Rightarrow> bool" where
  "restoring_ok st \<longleftrightarrow> store_ok st \<and> st_has_backend st \<and> \<not> st_read_only st \<and> st_restore_state st \<noteq> 0"

text \<open>A command a registry can take in.\<close>

definition importable :: "command_store \<Rightarrow> command \<Rightarrow> bool" where
  "importable st c \<longleftrightarrow>
     validate_name (cmd_name c) = OK \<and> cmd_id c \<noteq> COMMAND_ID_NONE \<and> cmd_id c < st_next_command_id st \<and>
     cmd_timings c \<noteq> [] \<and> length (cmd_timings c) \<le> unat (st_max_pulses st)"

lemma free_slot_exists:
  assumes "store_ok st" and "count st < unat (st_max_commands st)"
  obtains slot where "find_free_slot st = Some slot"
proof (cases "find_free_slot st")
  case None
  then have "\<forall>c \<in> set (st_slots st). occupied c" by (auto simp: find_free_slot_def find_index_None occupied_def)
  then have "count st = length (st_slots st)" by (simp add: count_def)
  with assms show thesis by (simp add: store_ok_def)
qed (use that in blast)

lemma import_accepted:
  assumes saves: "always_saves B" and st: "restoring_ok st" and c: "importable st c"
    and new: "\<not> has_id (cmd_id c) st" "\<not> has (cmd_name c) st" and room: "count st < unat (st_max_commands st)"
    and bytes: "overhead (st_max_commands st) + 4 * weight (st_slots st) + 4 * length (cmd_timings c) \<le>
      unat (st_max_storage_bytes st)"
    and rev: "unat (st_revision st) < 2147483646"
  obtains slot b' where "find_free_slot st = Some slot"
    and "import_command B c st b = (OK, st\<lparr>st_slots := (st_slots st)[slot := c], st_revision := st_revision st + 1\<rparr>, b')"
proof -
  have ok: "store_ok st" using st by (simp add: restoring_ok_def)
  obtain slot where slot: "find_free_slot st = Some slot" by (rule free_slot_exists [OF ok room])
  have "length (cmd_timings c) < 65536"
    using c unsigned_less [of "st_max_pulses st", where ?'a = nat] by (simp add: importable_def)
  note fits = projected_fits [OF bytes this]
  have next_rev: "next_revision (st_revision st) = Some (st_revision st + 1)" using rev by (simp add: next_revision_eval)
  have "import_command B c st b = persist_slot B slot
      (\<lambda>s. s\<lparr>st_slots := (st_slots s)[slot := empty_command], st_revision := st_revision st\<rparr>)
      (st\<lparr>st_slots := (st_slots st)[slot := c], st_revision := st_revision st + 1\<rparr>) b"
  proof -
    have no: "(st_next_command_id st \<le> cmd_id c) = False" "(unat (st_max_pulses st) < length (cmd_timings c)) = False"
      "(st_max_storage_bytes st < projected_bytes None (word_of_nat (length (cmd_timings c))) st) = False"
      using c fits by (auto simp: importable_def)
    show ?thesis
      using st c new slot next_rev by (simp add: import_command_def restoring_ok_def importable_def no)
  qed
  moreover obtain b' where "persist_slot B slot
      (\<lambda>s. s\<lparr>st_slots := (st_slots s)[slot := empty_command], st_revision := st_revision st\<rparr>)
      (st\<lparr>st_slots := (st_slots st)[slot := c], st_revision := st_revision st + 1\<rparr>) b =
      (OK, st\<lparr>st_slots := (st_slots st)[slot := c], st_revision := st_revision st + 1\<rparr>, b')"
    using saves_slot [OF saves] by blast
  ultimately show thesis by (intro that [OF slot]) simp
qed

section \<open>Many imports\<close>

definition room_for :: "command_store \<Rightarrow> command list \<Rightarrow> bool" where
  "room_for st cs \<longleftrightarrow> restoring_ok st \<and>
     (\<forall>c \<in> set cs. importable st c \<and> \<not> has_id (cmd_id c) st \<and> \<not> has (cmd_name c) st) \<and>
     distinct (map cmd_id cs) \<and> distinct (map cmd_name cs) \<and>
     count st + length cs \<le> unat (st_max_commands st) \<and>
     overhead (st_max_commands st) + 4 * weight (st_slots st) + 4 * sum_list (map (\<lambda>c. length (cmd_timings c)) cs) \<le>
       unat (st_max_storage_bytes st) \<and>
     unat (st_revision st) + length cs \<le> 2147483646"

lemma room_for_step:
  assumes saves: "always_saves B" and room: "room_for st (c # cs)"
  obtains st' b' where "import_command B c st b = (OK, st', b')" and "room_for st' cs"
    and "count st' = Suc (count st)"
    and "registry_of st' = (registry_of st)\<lparr>rg_commands := (rg_commands (registry_of st))(cmd_id c \<mapsto> c),
      rg_revision := rg_revision (registry_of st) + 1\<rparr>"
proof -
  have st: "restoring_ok st" "store_ok st" and c: "importable st c" "\<not> has_id (cmd_id c) st" "\<not> has (cmd_name c) st"
    using room by (simp_all add: room_for_def restoring_ok_def)
  have count: "count st < unat (st_max_commands st)" and rev: "unat (st_revision st) < 2147483646"
    using room by (simp_all add: room_for_def)
  have bytes: "overhead (st_max_commands st) + 4 * weight (st_slots st) + 4 * length (cmd_timings c) \<le>
      unat (st_max_storage_bytes st)" using room by (simp add: room_for_def)
  obtain slot b' where slot: "find_free_slot st = Some slot"
    and run: "import_command B c st b = (OK, st\<lparr>st_slots := (st_slots st)[slot := c], st_revision := st_revision st + 1\<rparr>, b')"
    by (rule import_accepted [OF saves st(1) c count bytes rev])
  let ?st = "st\<lparr>st_slots := (st_slots st)[slot := c], st_revision := st_revision st + 1\<rparr>"
  note at = find_free_slot_SomeD [OF slot]
  have occ: "occupied c" using c(1) by (simp add: importable_def occupied_def)
  have next_rev: "next_revision (st_revision st) = Some (st_revision st + 1)" using rev by (simp add: next_revision_eval)
  have ok': "store_ok ?st"
    by (rule import_result_ok [OF st(2) _ _ c(2,3) _ _ slot _ next_revision_SomeD(2) [OF next_rev]])
      (use c(1) in \<open>simp_all add: importable_def\<close>)
  have reg: "registry_of ?st = (registry_of st)\<lparr>rg_commands := (rg_commands (registry_of st))(cmd_id c \<mapsto> c),
      rg_revision := rg_revision (registry_of st) + 1\<rparr>"
    using registry_of_slot [OF st(2) ok', of slot c "cmd_id c"] at occ by (simp add: registry_of_def)
  have counted: "count ?st = Suc (count st)"
    using at occ filter_update [of slot "st_slots st" occupied c] by (simp add: count_def)
  have ids: "has_id k ?st \<Longrightarrow> has_id k st \<or> k = cmd_id c" for k
    using set_update_subset_insert [of "st_slots st" slot c] by (auto simp: has_id_iff)
  have nms: "has nm ?st \<Longrightarrow> has nm st \<or> nm = cmd_name c" for nm
    using set_update_subset_insert [of "st_slots st" slot c] by (auto simp: has_iff)
  have "room_for ?st cs"
    unfolding room_for_def
  proof (intro conjI ballI)
    show "restoring_ok ?st" using st(1) ok' by (simp add: restoring_ok_def)
    show "distinct (map cmd_id cs)" "distinct (map cmd_name cs)" using room by (simp_all add: room_for_def)
    show "count ?st + length cs \<le> unat (st_max_commands ?st)"
      using room counted by (simp add: room_for_def)
    show "overhead (st_max_commands ?st) + 4 * weight (st_slots ?st) +
        4 * sum_list (map (\<lambda>c. length (cmd_timings c)) cs) \<le> unat (st_max_storage_bytes ?st)"
      using room at occ weight_update [of slot "st_slots st" c] by (simp add: room_for_def)
    show "unat (st_revision ?st) + length cs \<le> 2147483646"
      using room next_revision_SomeD(4) [OF next_rev] by (simp add: room_for_def)
    fix d assume d: "d \<in> set cs"
    with room show "importable ?st d" by (simp add: room_for_def importable_def)
    from room have "cmd_id c \<notin> cmd_id ` set cs" "cmd_name c \<notin> cmd_name ` set cs" by (simp_all add: room_for_def)
    with d have "cmd_id d \<noteq> cmd_id c" "cmd_name d \<noteq> cmd_name c" by (metis imageI)+
    moreover from room d have "\<not> has_id (cmd_id d) st" "\<not> has (cmd_name d) st" by (simp_all add: room_for_def)
    ultimately show "\<not> has_id (cmd_id d) ?st" "\<not> has (cmd_name d) ?st" using ids nms by blast+
  qed
  with run reg counted that show thesis by blast
qed

section \<open>Opening and closing a restore\<close>

definition serving :: "command_store \<Rightarrow> bool" where
  "serving st \<longleftrightarrow> store_ok st \<and> st_has_backend st \<and> \<not> st_read_only st \<and> st_restore_state st = 0"

lemma begin_accepted:
  assumes saves: "always_saves B" and st: "serving st" and "count st = 0" and "unat (st_revision st) < 2147483646"
    and "length bid = BRIDGE_ID_BYTES" and "next_id \<noteq> COMMAND_ID_NONE"
  obtains b' where "restore_begin B bid next_id st b = (OK, st\<lparr>st_bridge_id := bid, st_next_command_id := next_id,
      st_restore_state := 1, st_revision := st_revision st + 1\<rparr>, b')"
    and "restoring_ok (st\<lparr>st_bridge_id := bid, st_next_command_id := next_id,
      st_restore_state := 1, st_revision := st_revision st + 1\<rparr>)"
proof -
  let ?st = "st\<lparr>st_bridge_id := bid, st_next_command_id := next_id, st_restore_state := 1, st_revision := st_revision st + 1\<rparr>"
  have rev: "next_revision (st_revision st) = Some (st_revision st + 1)" using assms(4) by (simp add: next_revision_eval)
  have "(next_id < COMMAND_ID_FIRST) = False" "(COMMAND_ID_LAST + 1 < next_id) = False"
    using assms(6) by (simp_all add: store_consts word_less_nat_alt word_le_nat_alt unat_eq_0 [symmetric] del: unat_eq_0)
      (use unsigned_less [of next_id, where ?'a = nat] in auto)
  then have run: "restore_begin B bid next_id st b = persist_index B
      (\<lambda>s. s\<lparr>st_bridge_id := st_bridge_id st, st_next_command_id := st_next_command_id st,
         st_restore_state := st_restore_state st, st_revision := st_revision st\<rparr>) ?st b"
    using st assms(3) rev by (simp add: restore_begin_def serving_def)
  have "intended (RestoreBegin bid next_id) st = (OK, ?st)"
    using st assms(3) rev \<open>(next_id < COMMAND_ID_FIRST) = False\<close> \<open>(COMMAND_ID_LAST + 1 < next_id) = False\<close>
    by (simp add: intended_def restore_begin_def serving_def)
  then have "store_ok ?st"
    by (rule intended_ok [rotated]) (use st assms(5) in \<open>simp_all add: serving_def\<close>)
  then have "restoring_ok ?st" using st by (simp add: restoring_ok_def serving_def)
  moreover obtain b' where "persist_index B
      (\<lambda>s. s\<lparr>st_bridge_id := st_bridge_id st, st_next_command_id := st_next_command_id st,
         st_restore_state := st_restore_state st, st_revision := st_revision st\<rparr>) ?st b = (OK, ?st, b')"
    using saves_index [OF saves] by blast
  ultimately show thesis by (intro that [of b']) (simp_all only: run)
qed

lemma commit_accepted:
  assumes saves: "always_saves B" and st: "restoring_ok st"
    and rev: "unat (st_revision st) < 2147483646" "unat v < 2147483646"
  obtains b' where "restore_commit B v st b = (OK, st\<lparr>st_restore_state := 0,
      st_revision := (if v > st_revision st then v else st_revision st) + 1\<rparr>, b')"
proof -
  let ?v = "(if v > st_revision st then v else st_revision st)"
  have "next_revision ?v = Some (?v + 1)" using rev by (simp add: next_revision_eval)
  then have "restore_commit B v st b = persist_index B (\<lambda>s. s\<lparr>st_restore_state := 1, st_revision := st_revision st\<rparr>)
      (st\<lparr>st_restore_state := 0, st_revision := ?v + 1\<rparr>) b"
    using st unfolding restore_commit_def restoring_ok_def Let_def by simp
  moreover obtain b' where "persist_index B (\<lambda>s. s\<lparr>st_restore_state := 1, st_revision := st_revision st\<rparr>)
      (st\<lparr>st_restore_state := 0, st_revision := ?v + 1\<rparr>) b = (OK, st\<lparr>st_restore_state := 0, st_revision := ?v + 1\<rparr>, b')"
    using saves_index [OF saves] by blast
  ultimately show thesis by (intro that [of b']) simp
qed

end
