(* ===== verification/HardwareReplacement.thy ===== *)
theory HardwareReplacement
  imports DeviceActions ImportRuns LearnRuns
begin

text \<open>
  Replacing a bridge's hardware, end to end: the replica Home Assistant holds of one device, restored
  through the actions of another, makes the other's registry the first one's.
\<close>

section \<open>Identities as text\<close>

definition hex_of_bytes :: "byte list \<Rightarrow> string" where
  "hex_of_bytes bytes =
     concat (map (\<lambda>b. [hex_digit (unat (drop_bit 4 b)), hex_digit (unat (b AND 0x0F))]) bytes)"

lemma bridge_id_hex_eq: "bridge_id_hex st = hex_of_bytes (st_bridge_id st)"
  by (simp add: bridge_id_hex_def hex_of_bytes_def)

lemma hex_value_digit:
  assumes "k < 16"
  shows "hex_value (hex_digit k) = Some k"
proof -
  have "\<forall>k \<in> set [0..<16]. hex_value (hex_digit k) = Some k" by code_simp
  with assms show ?thesis by auto
qed

lemma unat_nibbles: "unat (drop_bit 4 (b :: byte)) = unat b div 16" "unat (b AND 0x0F :: byte) = unat b mod 16"
proof -
  show "unat (drop_bit 4 b) = unat b div 16" by (simp add: drop_bit_eq_div unat_div_distrib)
  have "b AND 0x0F = take_bit 4 b" by (simp add: take_bit_eq_mask mask_eq_exp_minus_1)
  then show "unat (b AND 0x0F) = unat b mod 16" by (simp add: take_bit_eq_mod unat_mod_distrib)
qed

lemma nibbles: "16 * drop_bit 4 b + (b AND 0x0F) = (b :: byte)"
proof -
  have "word_of_nat (16 * unat (drop_bit 4 b) + unat (b AND 0x0F)) = b" unfolding unat_nibbles by simp
  then show ?thesis by simp
qed

lemma hex_bytes_of_bytes: "hex_bytes (hex_of_bytes bytes) = Some bytes"
proof (induction bytes)
  case (Cons b bytes)
  have "unat (drop_bit 4 b) < 16" "unat (b AND 0x0F) < 16"
    using unsigned_less [of b, where ?'a = nat] by (simp_all add: unat_nibbles)
  with Cons show ?case by (simp add: hex_of_bytes_def hex_value_digit nibbles)
qed (simp add: hex_of_bytes_def)

lemma length_hex_of_bytes: "length (hex_of_bytes bytes) = 2 * length bytes"
  by (induction bytes) (simp_all add: hex_of_bytes_def)

interpretation bridge_hex: codec hex_of_bytes parse_bridge_id "\<lambda>bytes. length bytes = BRIDGE_ID_BYTES"
  by unfold_locales (simp add: parse_bridge_id_def length_hex_of_bytes hex_bytes_of_bytes)

section \<open>What is exported and what arrives\<close>

definition exported_of :: "command_store \<Rightarrow> command \<Rightarrow> exported_command" where
  "exported_of st c = \<lparr>ec_schema = 1, ec_bridge_id = bridge_id_hex st, ec_command_id = uint (cmd_id c),
     ec_name = cmd_name c, ec_gap_us = uint (cmd_gap_us c), ec_repeat_times = uint (cmd_repeat_times c),
     ec_frequency_hz = uint (cmd_frequency_hz c), ec_modulation = uint (cmd_modulation c),
     ec_timings = map sint (cmd_timings c)\<rparr>"

lemma sint_rows: "mapE py_int (map (\<lambda>t. PInt (sint t)) ts) = Inr (map sint ts)"
  by (induction ts) simp_all

lemma export_parsed:
  "get_by_id k (rf_store n) = Some c \<Longrightarrow>
     exported_from_payload (export_action k n) = Inr (Some (exported_of (rf_store n) c))"
  by (simp add: exported_from_payload_def export_action_def exported_of_def uint_value_def sint_rows)

text \<open>The numbers of a command that cross the boundary as signed integers, and so must fit one.\<close>

definition portable :: "command \<Rightarrow> bool" where
  "portable c \<longleftrightarrow>
     unat (cmd_id c) < 2147483648 \<and> unat (cmd_gap_us c) < 2147483648 \<and> unat (cmd_frequency_hz c) < 2147483648"

lemma int32_of_uint:
  assumes "unat (w :: 32 word) < 2147483648"
  shows "int32_of (PInt (uint w)) = Some w"
proof -
  have "int (unat w) = uint w" by simp
  with assms have "uint w < 2147483648" by linarith
  moreover have "- 2147483648 \<le> uint w" using uint_ge_0 [of w] by linarith
  ultimately show ?thesis by (simp add: int32_of_def)
qed

lemma int32_of_sint: "int32_of (PInt (sint (w :: 32 word))) = Some w"
  using sint_range [of w] by (simp add: int32_of_def)

lemma int32_of_ints: "those (map int32_of (map (PInt \<circ> sint) ts)) = Some (ts :: 32 word list)"
  by (induction ts) (simp_all add: int32_of_sint)

lemma int32_of_narrow:
  assumes "LENGTH('a) \<le> 16"
  shows "\<exists>v. int32_of (PInt (uint (w :: 'a::len word))) = Some v \<and> ucast v = w"
proof -
  have "uint w < 2 ^ LENGTH('a)" by (rule uint_lt2p)
  also have "(2 :: int) ^ LENGTH('a) \<le> 2 ^ 16" by (rule power_increasing [OF assms]) simp
  finally have small: "0 \<le> uint w" "uint w < 65536" by simp_all
  then have "- 2147483648 \<le> uint w" by linarith
  with small have "int32_of (PInt (uint w)) = Some (word_of_int (uint w))" by (simp add: int32_of_def)
  moreover have "ucast (word_of_int (uint w) :: 32 word) = w"
  proof (rule bit_word_eqI)
    fix i assume "i < LENGTH('a)"
    then show "bit (ucast (word_of_int (uint w) :: 32 word) :: 'a word) i = bit w i"
      using assms by (simp add: bit_simps)
  qed
  ultimately show ?thesis by blast
qed

lemma import_arrives:
  assumes "portable c"
  shows "import_action B (import_data (exported_of st c)) n =
    Some (snd (node_import_command B (cmd_id c) (cmd_name c) (cmd_timings c) (cmd_gap_us c) (cmd_repeat_times c)
      (cmd_frequency_hz c) (cmd_modulation c) n))"
proof -
  obtain r where r: "int32_of (PInt (uint (cmd_repeat_times c))) = Some r" "ucast r = cmd_repeat_times c"
    using int32_of_narrow [of "cmd_repeat_times c"] by auto
  obtain m where m: "int32_of (PInt (uint (cmd_modulation c))) = Some m" "ucast m = cmd_modulation c"
    using int32_of_narrow [of "cmd_modulation c"] by auto
  show ?thesis
    using assms r m int32_of_ints [of "cmd_timings c"]
    by (simp add: import_action_def import_data_def exported_of_def int_variable_def string_variable_def
        ints_variable_def portable_def int32_of_uint)
qed

lemma node_import_runs:
  assumes "import_command B c (rf_store n) (rf_backend n) = (OK, st', b')"
  shows "rf_store (snd (node_import_command B (cmd_id c) (cmd_name c) (cmd_timings c) (cmd_gap_us c)
      (cmd_repeat_times c) (cmd_frequency_hz c) (cmd_modulation c) n)) = st'"
proof -
  have same: "\<lparr>cmd_id = cmd_id c, cmd_name = cmd_name c, cmd_timings = cmd_timings c, cmd_gap_us = cmd_gap_us c,
      cmd_repeat_times = cmd_repeat_times c, cmd_frequency_hz = cmd_frequency_hz c, cmd_modulation = cmd_modulation c\<rparr> = c"
    by simp
  show ?thesis unfolding node_import_command_def Let_def same assms by (simp add: publish_defs)
qed

section \<open>The imports of a restore\<close>

lemma import_over_link:
  assumes link: "action_link api t B node" and saves: "always_saves B"
    and room: "room_for (rf_store (node h)) (c # cs)" and c: "portable c"
  obtains h' where "async_import api t (exported_of src c) h = (Inr (), h')" and "room_for (rf_store (node h')) cs"
    and "count (rf_store (node h')) = Suc (count (rf_store (node h)))"
    and "registry_of (rf_store (node h')) = (registry_of (rf_store (node h)))\<lparr>
      rg_commands := (rg_commands (registry_of (rf_store (node h))))(cmd_id c \<mapsto> c),
      rg_revision := rg_revision (registry_of (rf_store (node h))) + 1\<rparr>"
proof -
  let ?n = "snd (node_import_command B (cmd_id c) (cmd_name c) (cmd_timings c) (cmd_gap_us c) (cmd_repeat_times c)
      (cmd_frequency_hz c) (cmd_modulation c) (node h))"
  obtain st' b' where st': "import_command B c (rf_store (node h)) (rf_backend (node h)) = (OK, st', b')"
    "room_for st' cs" "count st' = Suc (count (rf_store (node h)))"
    "registry_of st' = (registry_of (rf_store (node h)))\<lparr>
      rg_commands := (rg_commands (registry_of (rf_store (node h))))(cmd_id c \<mapsto> c),
      rg_revision := rg_revision (registry_of (rf_store (node h))) + 1\<rparr>"
    by (rule room_for_step [OF saves room])
  have "node_action B now_ms random ''import'' (import_data (exported_of src c)) (node h) = Some (PNone, ?n)"
    for now_ms random
    using import_arrives [OF c, of B src "node h"] by (simp add: node_action_def)
  moreover have "\<not> answers ''import''" by (simp add: answers_def)
  ultimately obtain h' where h': "command_call api t ''import'' (import_data (exported_of src c)) h = (Inr (), h')"
    "node h' = ?n" using link_command [OF link] by metis
  have "rf_store (node h') = st'" using h'(2) node_import_runs [OF st'(1)] by simp
  with st' h'(1) that show thesis by (simp add: async_import_def)
qed

lemma imports_over_link:
  assumes link: "action_link api t B node" and saves: "always_saves B"
    and "room_for (rf_store (node h)) cs" and "\<forall>c \<in> set cs. portable c"
  shows "\<exists>h'. forA (async_import api t) (map (exported_of src) cs) h = (Inr (), h') \<and>
    room_for (rf_store (node h')) [] \<and> count (rf_store (node h')) = count (rf_store (node h)) + length cs \<and>
    registry_of (rf_store (node h')) = (registry_of (rf_store (node h)))\<lparr>
      rg_commands := foldl (\<lambda>m c. m(cmd_id c \<mapsto> c)) (rg_commands (registry_of (rf_store (node h)))) cs,
      rg_revision := rg_revision (registry_of (rf_store (node h))) + of_nat (length cs)\<rparr>"
  using assms(3,4)
proof (induction cs arbitrary: h)
  case Nil
  then show ?case by simp
next
  case (Cons c cs)
  obtain h1 where h1: "async_import api t (exported_of src c) h = (Inr (), h1)" "room_for (rf_store (node h1)) cs"
    "count (rf_store (node h1)) = Suc (count (rf_store (node h)))"
    "registry_of (rf_store (node h1)) = (registry_of (rf_store (node h)))\<lparr>
      rg_commands := (rg_commands (registry_of (rf_store (node h))))(cmd_id c \<mapsto> c),
      rg_revision := rg_revision (registry_of (rf_store (node h))) + 1\<rparr>"
    using import_over_link [OF link saves Cons.prems(1), of src] Cons.prems(2) by auto
  have "\<forall>c \<in> set cs. portable c" using Cons.prems(2) by simp
  from Cons.IH [OF h1(2) this] obtain h' where h':
    "forA (async_import api t) (map (exported_of src) cs) h1 = (Inr (), h')" "room_for (rf_store (node h')) []"
    "count (rf_store (node h')) = count (rf_store (node h1)) + length cs"
    "registry_of (rf_store (node h')) = (registry_of (rf_store (node h1)))\<lparr>
      rg_commands := foldl (\<lambda>m c. m(cmd_id c \<mapsto> c)) (rg_commands (registry_of (rf_store (node h1)))) cs,
      rg_revision := rg_revision (registry_of (rf_store (node h1))) + of_nat (length cs)\<rparr>" by blast
  from h1(1) h'(1) have "forA (async_import api t) (map (exported_of src) (c # cs)) h = (Inr (), h')"
    by (simp add: bindA_def)
  moreover have "registry_of (rf_store (node h')) = (registry_of (rf_store (node h)))\<lparr>
      rg_commands := foldl (\<lambda>m c. m(cmd_id c \<mapsto> c)) (rg_commands (registry_of (rf_store (node h)))) (c # cs),
      rg_revision := rg_revision (registry_of (rf_store (node h))) + of_nat (length (c # cs))\<rparr>"
    unfolding h'(4) h1(4) by (simp add: ac_simps)
  moreover have "count (rf_store (node h')) = count (rf_store (node h)) + length (c # cs)" using h'(3) h1(3) by simp
  ultimately show ?case using h'(2) by blast
qed

section \<open>The whole restore\<close>

text \<open>The replica of a registry, as a refresh of the snapshot takes it.\<close>

definition replica_of_store :: "'t \<Rightarrow> command_store \<Rightarrow> 't snapshot" where
  "replica_of_store now st = \<lparr>sn_bridge_id = bridge_id_hex st, sn_revision = uint (st_revision st),
     sn_next_command_id = uint (st_next_command_id st), sn_captured_at = now,
     sn_commands = map (exported_of st) (filter occupied (st_slots st))\<rparr>"

text \<open>A registry whose replica can be restored: its numbers fit the actions' integers.\<close>

definition portable_store :: "command_store \<Rightarrow> bool" where
  "portable_store st \<longleftrightarrow> store_ok st \<and> (\<forall>c \<in> set (st_slots st). occupied c \<longrightarrow> portable c) \<and>
     unat (st_next_command_id st) < 2147483648"

text \<open>A device in service with an empty registry that has the room.\<close>

definition replacement_for :: "command_store \<Rightarrow> command_store \<Rightarrow> bool" where
  "replacement_for src st \<longleftrightarrow> serving st \<and> count st = 0 \<and>
     unat (st_revision st) + count src + 1 < 2147483646 \<and> count src \<le> unat (st_max_commands st) \<and>
     (\<forall>c \<in> set (st_slots src). length (cmd_timings c) \<le> unat (st_max_pulses st)) \<and>
     overhead (st_max_commands st) + 4 * weight (st_slots src) \<le> unat (st_max_storage_bytes st)"

lemma foldl_commands:
  "distinct (map cmd_id cs) \<Longrightarrow>
     foldl (\<lambda>m c. m(cmd_id c \<mapsto> c)) m cs k = Some d \<longleftrightarrow>
     (d \<in> set cs \<and> cmd_id d = k) \<or> (k \<notin> cmd_id ` set cs \<and> m k = Some d)"
  by (induction cs arbitrary: m) auto

lemma option_ext: "(\<And>d. x = Some d \<longleftrightarrow> y = Some d) \<Longrightarrow> x = y"
  by (cases x; cases y) auto

lemma stored_commands_map:
  assumes "store_ok st"
  shows "foldl (\<lambda>m c. m(cmd_id c \<mapsto> c)) (\<lambda>_. None) (filter occupied (st_slots st)) = (\<lambda>k. get_by_id k st)"
proof
  fix k
  have "distinct (map cmd_id (filter occupied (st_slots st)))" using assms by (simp add: store_ok_def)
  from foldl_commands [OF this, of "\<lambda>_. None" k]
  have "foldl (\<lambda>m c. m(cmd_id c \<mapsto> c)) (\<lambda>_. None) (filter occupied (st_slots st)) k = Some d \<longleftrightarrow>
      get_by_id k st = Some d" for d
    by (auto simp: get_by_id_Some [OF assms])
  then show "foldl (\<lambda>m c. m(cmd_id c \<mapsto> c)) (\<lambda>_. None) (filter occupied (st_slots st)) k = get_by_id k st"
    by (rule option_ext)
qed

lemma weight_occupied: "sum_list (map (\<lambda>c. length (cmd_timings c)) (filter occupied cs)) = weight cs"
  by (induction cs) simp_all

lemma weight_empty: "length (filter occupied cs) = 0 \<Longrightarrow> weight cs = 0"
  by (induction cs) (simp_all split: if_splits)

lemma room_for_replica:
  assumes src: "portable_store src" and tgt: "replacement_for src st"
    and st': "st' = st\<lparr>st_bridge_id := bid, st_next_command_id := st_next_command_id src,
      st_restore_state := 1, st_revision := st_revision st + 1\<rparr>" and "restoring_ok st'"
  shows "room_for st' (filter occupied (st_slots src))"
proof -
  have ok: "store_ok src" using src by (simp add: portable_store_def)
  have slots: "st_slots st' = st_slots st" unfolding st' by simp
  have empty: "\<forall>c \<in> set (st_slots st). \<not> occupied c" using tgt unfolding replacement_for_def count_0 by blast
  have none: "\<not> has_id k st'" "\<not> has nm st'" for k nm
    unfolding has_id_iff has_iff slots using empty by blast+
  have rev: "unat (st_revision st + 1) = Suc (unat (st_revision st))"
    using tgt unfolding replacement_for_def by (simp add: unat_word_ariths)
  show ?thesis
    unfolding room_for_def
  proof (intro conjI ballI)
    fix c assume c: "c \<in> set (filter occupied (st_slots src))"
    with ok have "command_ok src c" by (auto simp: store_ok_def)
    with c tgt st' show "importable st' c"
      by (simp add: importable_def command_ok_def replacement_for_def occupied_def)
    show "\<not> has_id (cmd_id c) st'" "\<not> has (cmd_name c) st'" by (rule none)+
  next
    show "count st' + length (filter occupied (st_slots src)) \<le> unat (st_max_commands st')"
      using tgt st' by (simp add: replacement_for_def count_def)
    show "overhead (st_max_commands st') + 4 * weight (st_slots st') +
        4 * sum_list (map (\<lambda>c. length (cmd_timings c)) (filter occupied (st_slots src))) \<le> unat (st_max_storage_bytes st')"
      using tgt st' weight_empty [of "st_slots st"] by (simp add: replacement_for_def weight_occupied count_def)
    show "unat (st_revision st') + length (filter occupied (st_slots src)) \<le> 2147483646"
      using tgt st' rev by (simp add: replacement_for_def count_def)
  qed (use ok assms(4) in \<open>simp_all add: store_ok_def\<close>)
qed

lemma begin_over_link:
  assumes link: "action_link api t B node" and saves: "always_saves B"
    and src: "portable_store src" and tgt: "replacement_for src (rf_store (node h))"
  obtains h' where "async_restore_begin api t (bridge_id_hex src) (uint (st_next_command_id src)) h = (Inr (), h')"
    and "rf_store (node h') = (rf_store (node h))\<lparr>st_bridge_id := st_bridge_id src,
      st_next_command_id := st_next_command_id src, st_restore_state := 1,
      st_revision := st_revision (rf_store (node h)) + 1\<rparr>" and "restoring_ok (rf_store (node h'))"
proof -
  let ?st = "rf_store (node h)"
  have len: "length (st_bridge_id src) = BRIDGE_ID_BYTES" and next_id: "st_next_command_id src \<noteq> COMMAND_ID_NONE"
    and small: "unat (st_next_command_id src) < 2147483648"
    using src by (simp_all add: portable_store_def store_ok_def)
  have tgt': "serving ?st" "count ?st = 0" "unat (st_revision ?st) < 2147483646" using tgt by (simp_all add: replacement_for_def)
  obtain b' where run: "restore_begin B (st_bridge_id src) (st_next_command_id src) ?st (rf_backend (node h)) =
      (OK, ?st\<lparr>st_bridge_id := st_bridge_id src, st_next_command_id := st_next_command_id src,
        st_restore_state := 1, st_revision := st_revision ?st + 1\<rparr>, b')"
    and ok: "restoring_ok (?st\<lparr>st_bridge_id := st_bridge_id src, st_next_command_id := st_next_command_id src,
        st_restore_state := 1, st_revision := st_revision ?st + 1\<rparr>)"
    by (rule begin_accepted [OF saves tgt' len next_id])
  have parsed: "parse_bridge_id (bridge_id_hex src) = Some (st_bridge_id src)"
    unfolding bridge_id_hex_eq by (rule bridge_hex.dec_enc [OF len])
  let ?n = "snd (node_restore_begin B (bridge_id_hex src) (st_next_command_id src) (node h))"
  have n: "rf_store ?n = ?st\<lparr>st_bridge_id := st_bridge_id src, st_next_command_id := st_next_command_id src,
      st_restore_state := 1, st_revision := st_revision ?st + 1\<rparr>"
    using run parsed by (simp add: node_restore_begin_def publish_defs)
  have "node_action B now_ms random ''restore_begin'' [(''bridge_id'', PStr (bridge_id_hex src)),
      (''next_command_id'', PInt (uint (st_next_command_id src)))] (node h) = Some (PNone, ?n)" for now_ms random
    using int32_of_uint [OF small] by (simp add: node_action_def string_variable_def int_variable_def)
  moreover have "\<not> answers ''restore_begin''" by (simp add: answers_def)
  ultimately obtain h' where "command_call api t ''restore_begin'' [(''bridge_id'', PStr (bridge_id_hex src)),
      (''next_command_id'', PInt (uint (st_next_command_id src)))] h = (Inr (), h')" "node h' = ?n"
    using link_command [OF link] by metis
  with n ok that show thesis by (simp add: async_restore_begin_def)
qed

lemma commit_over_link:
  assumes link: "action_link api t B node" and saves: "always_saves B" and st: "restoring_ok (rf_store (node h))"
    and rev: "unat (st_revision (rf_store (node h))) < 2147483646" "unat v < 2147483646"
  obtains h' where "async_restore_commit api t (uint v) h = (Inr (), h')"
    and "rf_store (node h') = (rf_store (node h))\<lparr>st_restore_state := 0, st_revision :=
      (if v > st_revision (rf_store (node h)) then v else st_revision (rf_store (node h))) + 1\<rparr>"
proof -
  let ?st = "rf_store (node h)"
  let ?st' = "?st\<lparr>st_restore_state := 0, st_revision := (if v > st_revision ?st then v else st_revision ?st) + 1\<rparr>"
  obtain b' where run: "restore_commit B v ?st (rf_backend (node h)) = (OK, ?st', b')"
    by (rule commit_accepted [OF saves st rev])
  let ?n = "snd (node_restore_commit B v (node h))"
  have pos: "\<not> sint v < 0"
    using rev(2) sint_nonneg_iff [of v] by simp
  then have n: "rf_store ?n = ?st'" using run by (simp add: node_restore_commit_def publish_defs)
  have "node_action B now_ms random ''restore_commit'' [(''source_revision'', PInt (uint v))] (node h) = Some (PNone, ?n)"
    for now_ms random
    using int32_of_uint [of v] rev(2) by (simp add: node_action_def int_variable_def)
  moreover have "\<not> answers ''restore_commit''" by (simp add: answers_def)
  ultimately obtain h' where "command_call api t ''restore_commit'' [(''source_revision'', PInt (uint v))] h = (Inr (), h')"
    "node h' = ?n" using link_command [OF link] by metis
  moreover have "uint v \<le> REVISION_MAX"
  proof -
    have "int (unat v) = uint v" by simp
    with rev(2) have "uint v \<le> 2147483646" by linarith
    then show ?thesis by (simp add: const_eqs)
  qed
  ultimately show thesis using n that by (simp add: async_restore_commit_def)
qed

lemma status_over_link:
  assumes "action_link api t B node"
  obtains h' where "async_status api t h = (Inr (status_of (node h)), h')" and "node h' = node h"
  using link_status [OF assms, of h] status_parsed by metis

lemma int_unat: "int (unat (w :: 'w::len word)) = uint w"
  by simp

lemma replacement_restorable:
  assumes src: "portable_store src" and tgt: "replacement_for src (rf_store n)"
  shows "restorable (status_of n) (replica_of_store now src)"
proof -
  note u = int_unat
  have "unat (st_revision src) \<le> 2147483646"
    using src by (simp add: portable_store_def store_ok_def store_consts word_le_nat_alt)
  then have rev: "uint (st_revision src) \<le> 2147483646" using u [of "st_revision src"] by linarith
  have "int (count src) \<le> uint (st_max_commands (rf_store n))"
    using tgt u [of "st_max_commands (rf_store n)"] unfolding replacement_for_def by linarith
  moreover have "int (length (cmd_timings c)) \<le> uint (st_max_pulses (rf_store n))" if "c \<in> set (st_slots src)" for c
  proof -
    have "length (cmd_timings c) \<le> unat (st_max_pulses (rf_store n))"
      using tgt that unfolding replacement_for_def by blast
    then show ?thesis using u [of "st_max_pulses (rf_store n)"] by linarith
  qed
  ultimately show ?thesis
    using tgt rev
    by (auto simp: restorable_def status_of_def replica_of_store_def accepts_mutations_def replacement_for_def
        serving_def restore_incomplete_def exported_of_def count_def const_eqs Let_def)
qed

text \<open>The first two phases: the identity and the counter adopted, and every command imported.\<close>

definition restored_content :: "command_store \<Rightarrow> command_store \<Rightarrow> bool" where
  "restored_content src st \<longleftrightarrow> restoring_ok st \<and> count st = count src \<and> unat (st_revision st) < 2147483646 \<and>
     registry_of st = (registry_of src)\<lparr>rg_restoring := True, rg_revision := st_revision st\<rparr>"

lemma imported_revision:
  assumes "(v :: 32 word) = w + 1 + of_nat n" and "unat w + n + 1 < 2147483646"
  shows "unat v < 2147483646"
proof -
  have "v = of_nat (unat w + n + 1)" by (simp add: assms(1))
  then have "unat v = unat w + n + 1" using assms(2) by (simp only: unat_of_nat) simp
  with assms(2) show ?thesis by simp
qed

lemma empty_store_lookup:
  assumes "count st = 0" shows "get_by_id k st = None"
proof -
  have "\<not> has_id k st" using assms by (simp add: count_0 has_id_iff)
  then show ?thesis by (simp add: get_by_id_None)
qed

lemma content_over_link:
  assumes link: "action_link api t B node" and saves: "always_saves B"
    and src: "portable_store src" and tgt: "replacement_for src (rf_store (node h))"
  obtains h1 h2 where
      "async_restore_begin api t (bridge_id_hex src) (uint (st_next_command_id src)) h = (Inr (), h1)"
    and "forA (async_import api t) (map (exported_of src) (filter occupied (st_slots src))) h1 = (Inr (), h2)"
    and "restored_content src (rf_store (node h2))"
proof -
  let ?cs = "filter occupied (st_slots src)"
  have ok: "store_ok src" using src by (simp add: portable_store_def)
  obtain h1 where h1: "async_restore_begin api t (bridge_id_hex src) (uint (st_next_command_id src)) h = (Inr (), h1)"
    "rf_store (node h1) = (rf_store (node h))\<lparr>st_bridge_id := st_bridge_id src,
      st_next_command_id := st_next_command_id src, st_restore_state := 1,
      st_revision := st_revision (rf_store (node h)) + 1\<rparr>" "restoring_ok (rf_store (node h1))"
    by (rule begin_over_link [OF link saves src tgt])
  have room: "room_for (rf_store (node h1)) ?cs" by (rule room_for_replica [OF src tgt h1(2,3)])
  have portable: "\<forall>c \<in> set ?cs. portable c" using src by (simp add: portable_store_def)
  obtain h2 where h2: "forA (async_import api t) (map (exported_of src) ?cs) h1 = (Inr (), h2)"
    "room_for (rf_store (node h2)) []" "count (rf_store (node h2)) = count (rf_store (node h1)) + length ?cs"
    "registry_of (rf_store (node h2)) = (registry_of (rf_store (node h1)))\<lparr>
      rg_commands := foldl (\<lambda>m c. m(cmd_id c \<mapsto> c)) (rg_commands (registry_of (rf_store (node h1)))) ?cs,
      rg_revision := rg_revision (registry_of (rf_store (node h1))) + of_nat (length ?cs)\<rparr>"
    using imports_over_link [OF link saves room portable, of src] by blast
  have none: "count (rf_store (node h1)) = 0" using tgt by (simp add: h1(2) replacement_for_def count_def)
  have rev: "st_revision (rf_store (node h2)) = st_revision (rf_store (node h)) + 1 + of_nat (count src)"
    using arg_cong [OF h2(4), of rg_revision] by (simp add: h1(2) count_def)
  then have "unat (st_revision (rf_store (node h2))) < 2147483646"
    by (rule imported_revision) (use tgt in \<open>simp add: replacement_for_def\<close>)
  moreover have "rg_commands (registry_of (rf_store (node h1))) = (\<lambda>_. None)"
    using empty_store_lookup [OF none] by (simp add: fun_eq_iff)
  then have "registry_of (rf_store (node h2)) = (registry_of src)\<lparr>rg_restoring := True,
      rg_revision := st_revision (rf_store (node h2))\<rparr>"
    unfolding h2(4) by (simp add: registry_of_def stored_commands_map [OF ok] rev h1(2) restore_incomplete_def count_def)
  moreover have "restoring_ok (rf_store (node h2))" "count (rf_store (node h2)) = count src"
    using h2(2,3) none by (simp_all add: room_for_def count_def)
  ultimately have "restored_content src (rf_store (node h2))" by (simp add: restored_content_def)
  with h1(1) h2(1) that show thesis by blast
qed

lemma newer_revision:
  assumes "unat (v :: 32 word) < 2147483646" and "unat w < 2147483646"
  shows "v < (if v > w then v else w) + 1"
proof -
  let ?m = "if v > w then v else w"
  have "next_revision ?m = Some (?m + 1)" using assms by (simp add: next_revision_eval)
  from next_revision_SomeD(1) [OF this] have "?m < ?m + 1" .
  moreover have "v \<le> ?m" by (simp add: not_less)
  ultimately show ?thesis by (rule le_less_trans [rotated])
qed

lemma content_committed:
  assumes content: "restored_content src st" and st': "st' = st\<lparr>st_restore_state := 0, st_revision := v\<rparr>"
  shows "registry_of st' = (registry_of src)\<lparr>rg_restoring := False, rg_revision := v\<rparr>"
proof -
  have same: "registry_of st = (registry_of src)\<lparr>rg_restoring := True, rg_revision := st_revision st\<rparr>"
    using content by (simp only: restored_content_def)
  have "registry_of st' = (registry_of st)\<lparr>rg_restoring := False, rg_revision := v\<rparr>"
    using get_by_id_slots [of st' st] by (simp add: registry_of_def st' restore_incomplete_def)
  then show ?thesis unfolding same by simp
qed

lemma replacement_run:
  assumes link: "action_link api t B node" and saves: "always_saves B"
    and src: "portable_store src" "st_revision src < STORE_REVISION_MAX" and tgt: "replacement_for src (rf_store (node h))"
  shows "\<exists>h' v. async_restore api t (replica_of_store now src) h = (Inr (), h') \<and> st_revision src < v \<and>
    registry_of (rf_store (node h')) = (registry_of src)\<lparr>rg_restoring := False, rg_revision := v\<rparr>"
proof -
  let ?replica = "replica_of_store now src"
  obtain h1 where h1: "async_status api t h = (Inr (status_of (node h)), h1)" "node h1 = node h"
    by (rule status_over_link [OF link])
  have tgt1: "replacement_for src (rf_store (node h1))" using tgt h1(2) by simp
  obtain h2 h3 where h3: "async_restore_begin api t (bridge_id_hex src) (uint (st_next_command_id src)) h1 = (Inr (), h2)"
    "forA (async_import api t) (map (exported_of src) (filter occupied (st_slots src))) h2 = (Inr (), h3)"
    "restored_content src (rf_store (node h3))" by (rule content_over_link [OF link saves src(1) tgt1])
  let ?st = "rf_store (node h3)"
  let ?v = "(if st_revision src > st_revision ?st then st_revision src else st_revision ?st) + 1"
  have st3: "restoring_ok ?st" using h3(3) by (simp add: restored_content_def)
  have rev: "unat (st_revision ?st) < 2147483646" "unat (st_revision src) < 2147483646"
    using h3(3) src(2) by (simp_all add: restored_content_def store_consts word_less_nat_alt)
  obtain h4 where h4: "async_restore_commit api t (uint (st_revision src)) h3 = (Inr (), h4)"
    "rf_store (node h4) = ?st\<lparr>st_restore_state := 0, st_revision := ?v\<rparr>"
    by (rule commit_over_link [OF link saves st3 rev])
  have newer: "st_revision src < ?v" by (rule newer_revision [OF rev(2,1)])
  have reg4: "registry_of (rf_store (node h4)) = (registry_of src)\<lparr>rg_restoring := False, rg_revision := ?v\<rparr>"
    by (rule content_committed [OF h3(3) h4(2)])
  obtain h5 where h5: "async_status api t h4 = (Inr (status_of (node h4)), h5)" "node h5 = node h4"
    by (rule status_over_link [OF link])
  have "count (rf_store (node h4)) = count src" using h3(3) by (simp add: h4(2) restored_content_def count_def)
  moreover have "st_bridge_id (rf_store (node h4)) = st_bridge_id src" using arg_cong [OF reg4, of rg_bridge_id] by simp
  moreover have "uint (st_revision src) < uint (st_revision (rf_store (node h4)))"
    using newer by (simp add: h4(2) word_less_def)
  ultimately have "restored (status_of (node h4)) ?replica"
    by (simp add: restored_def status_of_def replica_of_store_def bridge_id_hex_def Let_def h4(2) restore_incomplete_def count_def)
  moreover have "restore_writes api t ?replica h1 = (Inr (), h4)"
    using h3(1,2) h4(1) by (simp add: restore_writes_def replica_of_store_def bindA_def)
  ultimately have "async_restore api t ?replica h = (Inr (), h5)"
    unfolding async_restore_Inr_iff
    by (intro exI [of _ "status_of (node h)"] exI [of _ "status_of (node h4)"] exI [of _ h1] exI [of _ h4] conjI
        h1(1) h5(1) replacement_restorable [OF src(1) tgt])
  moreover have "registry_of (rf_store (node h5)) = (registry_of src)\<lparr>rg_restoring := False, rg_revision := ?v\<rparr>"
    unfolding h5(2) by (rule reg4)
  ultimately show ?thesis using newer by blast
qed

section \<open>The last revision\<close>

lemma commit_exhausted:
  "restoring_ok st \<Longrightarrow> unat (st_revision st) < 2147483646 \<Longrightarrow>
     restore_commit B STORE_REVISION_MAX st b = (REVISION_EXHAUSTED, st, b)"
  by (simp add: restore_commit_def restoring_ok_def next_revision_eval store_consts word_less_nat_alt)

lemma last_commit_over_link:
  assumes link: "action_link api t B node" and st: "restoring_ok (rf_store (node h))"
    and rev: "unat (st_revision (rf_store (node h))) < 2147483646"
  obtains h' where "async_restore_commit api t (uint STORE_REVISION_MAX) h = (Inr (), h')"
    and "rf_store (node h') = rf_store (node h)"
proof -
  let ?n = "snd (node_restore_commit B STORE_REVISION_MAX (node h))"
  have "restore_commit B STORE_REVISION_MAX (rf_store (node h)) (rf_backend (node h)) =
      (REVISION_EXHAUSTED, rf_store (node h), rf_backend (node h))" by (rule commit_exhausted [OF st rev])
  then have "rf_store ?n = rf_store (node h)" by (simp add: node_restore_commit_def publish_defs)
  moreover have "node_action B now_ms random ''restore_commit'' [(''source_revision'', PInt (uint STORE_REVISION_MAX))]
      (node h) = Some (PNone, ?n)" for now_ms random
    using int32_of_uint [of STORE_REVISION_MAX] by (simp add: node_action_def int_variable_def store_consts)
  moreover have "\<not> answers ''restore_commit''" by (simp add: answers_def)
  ultimately obtain h' where "command_call api t ''restore_commit''
      [(''source_revision'', PInt (uint STORE_REVISION_MAX))] h = (Inr (), h')" "rf_store (node h') = rf_store (node h)"
    using link_command [OF link] by metis
  then show thesis using that by (simp add: async_restore_commit_def store_consts const_eqs)
qed

lemma content_held:
  assumes "restored_content src st"
  shows "restore_incomplete st \<and> rg_commands (registry_of st) = rg_commands (registry_of src)"
proof
  show "restore_incomplete st"
    using assms by (simp add: restored_content_def restoring_ok_def restore_incomplete_def)
  have "registry_of st = (registry_of src)\<lparr>rg_restoring := True, rg_revision := st_revision st\<rparr>"
    using assms by (simp only: restored_content_def)
  from arg_cong [OF this, of rg_commands] show "rg_commands (registry_of st) = rg_commands (registry_of src)"
    by simp
qed

lemma last_revision_run:
  assumes link: "action_link api t B node" and saves: "always_saves B"
    and src: "portable_store src" "st_revision src = STORE_REVISION_MAX" and tgt: "replacement_for src (rf_store (node h))"
  shows "\<exists>m h'. async_restore api t (replica_of_store now src) h = (Inl (HomeAssistantError m), h') \<and>
    restored_content src (rf_store (node h'))"
proof -
  let ?replica = "replica_of_store now src"
  obtain h1 where h1: "async_status api t h = (Inr (status_of (node h)), h1)" "node h1 = node h"
    by (rule status_over_link [OF link])
  have tgt1: "replacement_for src (rf_store (node h1))" using tgt h1(2) by simp
  obtain h2 h3 where h3: "async_restore_begin api t (bridge_id_hex src) (uint (st_next_command_id src)) h1 = (Inr (), h2)"
    "forA (async_import api t) (map (exported_of src) (filter occupied (st_slots src))) h2 = (Inr (), h3)"
    "restored_content src (rf_store (node h3))" by (rule content_over_link [OF link saves src(1) tgt1])
  then have st3: "restoring_ok (rf_store (node h3))" "unat (st_revision (rf_store (node h3))) < 2147483646"
    by (simp_all add: restored_content_def)
  obtain h4 where h4: "async_restore_commit api t (uint STORE_REVISION_MAX) h3 = (Inr (), h4)"
    "rf_store (node h4) = rf_store (node h3)" by (rule last_commit_over_link [OF link st3])
  obtain h5 where h5: "async_status api t h4 = (Inr (status_of (node h4)), h5)" "node h5 = node h4"
    by (rule status_over_link [OF link])
  have "bs_restore_incomplete (status_of (node h4))"
    using st3(1) by (simp add: status_of_def Let_def h4(2) restore_incomplete_def restoring_ok_def)
  then obtain m where "check_restored (status_of (node h4)) ?replica = Inl (HomeAssistantError m)"
    using check_restored_cases [of "status_of (node h4)" ?replica] by (auto simp: restored_def)
  moreover have "restore_writes api t ?replica h1 = (Inr (), h4)"
    using h3(1,2) h4(1) by (simp add: restore_writes_def replica_of_store_def bindA_def src(2))
  moreover have "check_restore_target (status_of (node h)) ?replica = Inr ()"
    unfolding check_restore_target_Inr by (rule replacement_restorable [OF src(1) tgt])
  ultimately have "async_restore api t ?replica h = (Inl (HomeAssistantError m), h5)"
    using h1(1) h5(1) by (simp add: async_restore_eq bindA_def)
  moreover have "restored_content src (rf_store (node h5))" using h3(3) by (simp only: h4(2) h5(2))
  ultimately show ?thesis by blast
qed

section \<open>The replica a refresh takes\<close>

lemma export_over_link:
  assumes link: "action_link api t B node" and src: "portable_store (rf_store (node h))"
    and c: "c \<in> set (st_slots (rf_store (node h)))" "occupied c"
  obtains h' where "async_export api t (uint (cmd_id c)) h = (Inr (Some (exported_of (rf_store (node h)) c)), h')"
    and "node h' = node h"
proof -
  let ?st = "rf_store (node h)" and ?data = "[(''command_id'', PInt (uint (cmd_id c)))]"
  have ok: "store_ok ?st" using src by (simp add: portable_store_def)
  have "portable c" using src c by (simp add: portable_store_def)
  then have id: "int32_of (PInt (uint (cmd_id c))) = Some (cmd_id c)" by (intro int32_of_uint) (simp add: portable_def)
  have known: "get_by_id (cmd_id c) ?st = Some c" using c by (simp add: get_by_id_Some [OF ok])
  have "node_action B now_ms random ''export'' ?data (node h) = Some (export_action (cmd_id c) (node h), node h)"
    for now_ms random using id by (simp add: node_action_def int_variable_def)
  then obtain service h' where call: "service_name api t ''export'' h = Some service"
    "h_call api ESPHOME_DOMAIN service ?data (answers ''export'') h = (Inr (export_action (cmd_id c) (node h)), h')"
    "node h' = node h"
    by (rule link_call [OF link])
  moreover have "answers ''export''" "is_dict (export_action (cmd_id c) (node h))"
    by (simp_all add: answers_def export_action_def)
  ultimately show thesis
    using async_export_returns [of api t h service "uint (cmd_id c)" "export_action (cmd_id c) (node h)" h']
      export_parsed [OF known] that by simp
qed

lemma export_all_over_link:
  assumes link: "action_link api t B node" and src: "portable_store (rf_store (node h))"
    and "set cs \<subseteq> set (filter occupied (st_slots (rf_store (node h))))"
  shows "\<exists>h'. async_export_all api t (map (\<lambda>c. \<lparr>ci_command_id = uint (cmd_id c), ci_name = cmd_name c, ci_pulses = p c\<rparr>) cs) h =
      (Inr (Some (map (exported_of (rf_store (node h))) cs)), h') \<and> node h' = node h"
  using assms(2,3)
proof (induction cs arbitrary: h)
  case (Cons c cs)
  then have c: "c \<in> set (st_slots (rf_store (node h)))" "occupied c" by auto
  obtain h1 where h1: "async_export api t (uint (cmd_id c)) h = (Inr (Some (exported_of (rf_store (node h)) c)), h1)"
    "node h1 = node h"
    by (rule export_over_link [OF link Cons.prems(1) c])
  from Cons.IH [of h1] Cons.prems h1 show ?case by (auto simp: bindA_def)
qed simp

lemma refresh_takes_replica:
  assumes link: "action_link api t B node" and src: "portable_store (rf_store (node h))"
    and due: "refresh_due m (status_of (node h))"
    and run: "async_refresh api t (status_of (node h)) (m, h) = (r, (m', h'))"
  shows "\<exists>now. sm_snapshot m' = Some (replica_of_store now (rf_store (node h)))"
proof -
  let ?st = "rf_store (node h)"
  have rows: "bs_commands (status_of (node h)) = map (\<lambda>c. \<lparr>ci_command_id = uint (cmd_id c), ci_name = cmd_name c,
      ci_pulses = uint (word_of_nat (length (cmd_timings c)) :: 16 word)\<rparr>) (filter occupied (st_slots ?st))"
    by (simp add: status_of_def entries_def Let_def)
  obtain h1 where all: "async_export_all api t (bs_commands (status_of (node h))) h =
      (Inr (Some (map (exported_of ?st) (filter occupied (st_slots ?st)))), h1)"
    using export_all_over_link [OF link src order_refl, of "\<lambda>c. uint (word_of_nat (length (cmd_timings c)) :: 16 word)"]
    unfolding rows by blast
  have "taken_snapshot api (status_of (node h)) (map (exported_of ?st) (filter occupied (st_slots ?st))) h1 =
      replica_of_store (sa_utcnow api h1) ?st"
    by (simp add: taken_snapshot_def replica_of_store_def status_of_def Let_def)
  with async_refresh_due [OF due all] run show ?thesis by (auto split: prod.splits)
qed

section \<open>Properties\<close>

text \<open>
  C1: A replaced device becomes the old one: the replica Home Assistant took of a device through its
  actions, below the highest revision there is (C32), restored onto another device in service with an empty registry that has the room and
  storage that takes the writes, is accepted whole, and then the other device's registry is the
  old one's: the same identity, the same counter and exactly the same commands under the same ids,
  waveforms and all, with a newer revision.
\<close>

theorem replacement_becomes_original:
  assumes "action_link api t B old" and "action_link api t' B' new" and "always_saves B'"
    and "portable_store (rf_store (old h0))" and "st_revision (rf_store (old h0)) < STORE_REVISION_MAX"
    and "refresh_due m (status_of (old h0))"
    and "async_refresh api t (status_of (old h0)) (m, h0) = (r, (m', h1))"
    and "replacement_for (rf_store (old h0)) (rf_store (new h))"
  shows "\<exists>snapshot h' v. sm_snapshot m' = Some snapshot \<and> async_restore api t' snapshot h = (Inr (), h') \<and>
    st_revision (rf_store (old h0)) < v \<and>
    registry_of (rf_store (new h')) = (registry_of (rf_store (old h0)))\<lparr>rg_restoring := False, rg_revision := v\<rparr>"
proof -
  obtain now where "sm_snapshot m' = Some (replica_of_store now (rf_store (old h0)))"
    using refresh_takes_replica [OF assms(1,4,6,7)] by blast
  with replacement_run [OF assms(2,3,4,5,8), of now] show ?thesis by blast
qed

text \<open>Two devices behind one Home Assistant, with a store that is a dict.\<close>

type_synonym demo_home = "unit rf_cloner \<times> unit rf_cloner \<times> (string, pyval) dict"

definition demo_home_api :: "(demo_home, string) snapshot_api" where
  "demo_home_api = \<lparr>
     h_get_entry = (\<lambda>h i. Some (demo_node_entry\<lparr>ce_data := [(ESPHOME_CONF_DEVICE_NAME, PStr i)]\<rparr>)),
     h_has_service = (\<lambda>h domain service. True),
     h_call = (\<lambda>domain service data response (a, b, s).
       if hd service = CHR ''a''
       then (case node_action perfect_storage 0 None (drop 5 service) data a of
           None \<Rightarrow> (Inl ValueError, (a, b, s)) | Some (v, a') \<Rightarrow> (Inr v, (a', b, s)))
       else (case node_action perfect_storage 0 None (drop 5 service) data b of
           None \<Rightarrow> (Inl ValueError, (a, b, s)) | Some (v, b') \<Rightarrow> (Inr v, (a, b', s)))),
     sa_load = (\<lambda>k h. (Inr (map_of (snd (snd h)) k), h)),
     sa_save = (\<lambda>k v (a, b, s). (Inr (), (a, b, AList.update k v s))),
     sa_utcnow = (\<lambda>h. ''2026-01-01T00:00:00''),
     sa_parse_datetime = (\<lambda>v. case v of PStr s \<Rightarrow> Inr (Some s) | _ \<Rightarrow> Inl TypeError),
     sa_isoformat = id\<rparr>"

lemma demo_home_links:
  "action_link demo_home_api \<lparr>tr_esphome_entry_id = ''a'', tr_action_prefix = ''rf_''\<rparr> perfect_storage fst"
  "action_link demo_home_api \<lparr>tr_esphome_entry_id = ''b'', tr_action_prefix = ''rf_''\<rparr> perfect_storage (fst \<circ> snd)"
  unfolding action_link_def
  by (auto simp: service_name_def node_name_def demo_home_api_def dict_get_def const_eqs py_replace_def
      split: option.split intro!: exI [of _ 0] exI [of _ None])

definition demo_old_node :: "unit rf_cloner" where
  "demo_old_node = demo_rf\<lparr>rf_store := demo_empty_store\<lparr>st_bridge_id := replicate 16 9, st_next_command_id := 5,
     st_revision := 40, st_slots := [empty_command, demo_command_a\<lparr>cmd_id := 3\<rparr>]\<rparr>\<rparr>"

lemma replacement_becomes_original_witness:
  "\<exists>m' h1 snapshot h' v. async_refresh demo_home_api \<lparr>tr_esphome_entry_id = ''a'', tr_action_prefix = ''rf_''\<rparr>
       (status_of demo_old_node) (\<lparr>sm_bridge_id = hex_of_bytes (replicate 16 9), sm_snapshot = None\<rparr>,
         (demo_old_node, demo_rf, [])) = (Inr (), (m', h1)) \<and>
     sm_snapshot m' = Some snapshot \<and>
     async_restore demo_home_api \<lparr>tr_esphome_entry_id = ''b'', tr_action_prefix = ''rf_''\<rparr> snapshot
       (demo_old_node, demo_rf, []) = (Inr (), h') \<and> 40 < v \<and>
     registry_of (rf_store (fst (snd h'))) = (registry_of (rf_store demo_old_node))\<lparr>rg_restoring := False, rg_revision := v\<rparr>"
proof -
  let ?t = "\<lparr>tr_esphome_entry_id = ''a'', tr_action_prefix = ''rf_''\<rparr>"
  let ?m = "\<lparr>sm_bridge_id = hex_of_bytes (replicate 16 9), sm_snapshot = None :: string snapshot option\<rparr>"
  let ?h = "(demo_old_node, demo_rf, []) :: demo_home"
  have saves: "always_saves perfect_storage" by (simp add: always_saves_def perfect_storage_def)
  have src: "portable_store (rf_store (fst ?h))"
  proof -
    have "store_ok (rf_store demo_old_node)" by code_simp
    then show ?thesis
      by (simp add: portable_store_def) (simp add: demo_old_node_def portable_def demo_command_a_def occupied_def
          empty_command_def store_consts)
  qed
  have rev: "st_revision (rf_store (fst ?h)) < STORE_REVISION_MAX" by (simp add: demo_old_node_def store_consts)
  have due: "refresh_due ?m (status_of (fst ?h))"
    by (simp add: refresh_due_def snapshot_current_def status_of_def bridge_id_hex_eq demo_old_node_def demo_empty_store_def
        restore_incomplete_def Let_def)
  have room: "replacement_for (rf_store (fst ?h)) (rf_store ((fst \<circ> snd) ?h))"
    using demo_empty_store_ok
    by (simp add: replacement_for_def serving_def demo_old_node_def demo_rf_def new_rf_cloner_def)
      (simp add: demo_empty_store_def demo_command_a_def count_def occupied_def empty_command_def store_consts weight_def
        overhead_def index_bytes_for_def sizeof_defs)
  obtain r m' h1 where run: "async_refresh demo_home_api ?t (status_of (fst ?h)) (?m, ?h) = (r, (m', h1))"
    by (metis prod_cases3)
  have "fst (async_refresh demo_home_api ?t (status_of (fst ?h)) (?m, ?h)) = Inr ()" by code_simp
  with run have "r = Inr ()" by simp
  moreover have "st_revision (rf_store (fst ?h)) = 40" by (simp add: demo_old_node_def)
  moreover have "(fst \<circ> snd) h' = fst (snd h')" for h' :: demo_home by simp
  ultimately show ?thesis
    using replacement_becomes_original [OF demo_home_links saves src rev due run room] run unfolding fst_conv
    by (intro exI [of _ m'] exI [of _ h1]) (metis (no_types, lifting))
qed

text \<open>
  C32: The highest revision a device ever writes is the one revision that cannot be restored. The checks
  before a restore let it through, so the replacement adopts the identity and imports every
  command, and only then the commit is refused: the restore ends in an error, with the replacement
  left in the middle of it and holding everything.
\<close>

theorem last_revision_is_not_restorable:
  assumes "action_link api t B node" and "always_saves B"
    and "portable_store src" and "st_revision src = STORE_REVISION_MAX"
    and "replacement_for src (rf_store (node h))"
  shows "check_restore_target (status_of (node h)) (replica_of_store now src) = Inr () \<and>
    (\<exists>m h'. async_restore api t (replica_of_store now src) h = (Inl (HomeAssistantError m), h') \<and>
      restore_incomplete (rf_store (node h')) \<and> rg_commands (registry_of (rf_store (node h'))) = rg_commands (registry_of src))"
proof
  show "check_restore_target (status_of (node h)) (replica_of_store now src) = Inr ()"
    unfolding check_restore_target_Inr by (rule replacement_restorable [OF assms(3,5)])
  show "\<exists>m h'. async_restore api t (replica_of_store now src) h = (Inl (HomeAssistantError m), h') \<and>
      restore_incomplete (rf_store (node h')) \<and> rg_commands (registry_of (rf_store (node h'))) = rg_commands (registry_of src)"
    using last_revision_run [OF assms] content_held by metis
qed

definition demo_last_store :: command_store where
  "demo_last_store = (rf_store demo_old_node)\<lparr>st_revision := STORE_REVISION_MAX\<rparr>"

lemma last_revision_is_not_restorable_witness:
  "\<exists>m h'. async_restore demo_home_api \<lparr>tr_esphome_entry_id = ''b'', tr_action_prefix = ''rf_''\<rparr>
       (replica_of_store ''now'' demo_last_store) (demo_old_node, demo_rf, []) = (Inl (HomeAssistantError m), h') \<and>
     restore_incomplete (rf_store (fst (snd h')))"
proof -
  let ?h = "(demo_old_node, demo_rf, []) :: demo_home"
  have saves: "always_saves perfect_storage" by (simp add: always_saves_def perfect_storage_def)
  have src: "portable_store demo_last_store"
  proof -
    have "store_ok demo_last_store" by code_simp
    then show ?thesis
      by (simp add: portable_store_def) (simp add: demo_last_store_def demo_old_node_def portable_def demo_command_a_def
          occupied_def empty_command_def store_consts)
  qed
  have rev: "st_revision demo_last_store = STORE_REVISION_MAX" by (simp add: demo_last_store_def)
  have room: "replacement_for demo_last_store (rf_store ((fst \<circ> snd) ?h))"
    using demo_empty_store_ok
    by (simp add: replacement_for_def serving_def demo_last_store_def demo_old_node_def demo_rf_def new_rf_cloner_def)
      (simp add: demo_empty_store_def demo_command_a_def count_def occupied_def empty_command_def store_consts weight_def
        overhead_def index_bytes_for_def sizeof_defs)
  have "(fst \<circ> snd) h' = fst (snd h')" for h' :: demo_home by simp
  with last_revision_is_not_restorable [OF demo_home_links(2) saves src rev room, of "''now''"] show ?thesis
    by (metis (no_types, lifting))
qed

end
