(* ===== verification/Spec2Isabelle.thy ===== *)
theory Spec2Isabelle
  imports Setup Button Migration EsphomeConfig StoreCrash DeviceRuns HardwareReplacement
begin

text \<open>
  ESPHome RF Cloner: a verification library.

  The repository is two programs that meet at a set of ESPHome actions. On the device,
  \<open>src/components/rf_cloner\<close> learns RF commands, replays them and keeps them in a registry on
  flash; its \<open>__init__.py\<close> is the configuration and code generator, and \<open>src/packages\<close> offers the
  actions. In Home Assistant, \<open>src/custom_components/rf_cloner\<close> polls the registry, mirrors it as
  entities, keeps a replica for replacement hardware, and stores the user's organisation of the
  commands (targets, areas, icons) in the config entry.

  Foundations.

  \<^item> Prelude: actions over a state (\<open>'s \<Rightarrow> (error + result) \<times> s\<close>) with their laws, lemmas on lists
    and maps, and the interfaces \<open>codec\<close> (what is written reads back) and \<open>keyed_store\<close>. Machines: the
    interfaces \<open>machine\<close> (inputs keep an invariant) and \<open>simulation\<close> (inputs are steps of a
    specification). PyRuntime: the part of Python the sources use, as values (\<open>pyval\<close>), exceptions
    (\<open>exn\<close>), dictionaries (association lists without duplicate keys) and the string operations.

  The device.

  \<^item> Bytes, CommandStore: \<open>command_store.h\<close> and \<open>.cpp\<close>. A registry is the record \<open>command_store\<close>; its
    records on flash are laid out byte for byte, little-endian as on the ESP32. Each operation takes
    and returns the registry and the storage behind \<open>StorageBackend\<close>, which is the parameter
    \<open>storage\<close>. StoreOps: what operations do whatever the storage does (well-formedness, roll-back,
    revisions, ids). StoreFlash, StoreCrash: what \<open>begin()\<close> reads back after a call, after a call cut
    short and after a history of calls whose writes may fail; the laws of a storage are the interface
    \<open>storage_backend\<close>, interpreted on the host tests' backend, and a power cut is a storage
    that takes a number of writes and no more. StoreSpec: the abstract registry (\<open>registry\<close>,
    \<open>reg_step\<close>) and that the operations refine it.
  \<^item> CaptureValidator: \<open>capture_validator.h\<close> and \<open>.cpp\<close>, in the widths of the code.
  \<^item> RfCloner: \<open>rf_cloner.h\<close> and \<open>.cpp\<close>, the learn state machine over the record \<open>rf_cloner\<close>. A handler
    takes the clock readings it makes as arguments; what it publishes, notifies and transmits is a
    list of effects. Learning: its invariant \<open>node_ok\<close> and what it stores. LearnRuns: how learns go.
    Automation: \<open>automation.h\<close>, the actions, the triggers and their order, and a listener that acts.
    DeviceRuns: every run of the component is a run of the abstract registry.
  \<^item> EsphomeConfig: \<open>__init__.py\<close>, \<open>sensor.py\<close> and \<open>text_sensor.py\<close> of the component: the schema, its
    cross-checks and the generated statements.
  \<^item> DeviceActions: \<open>packages/api-actions.yaml\<close> and the buttons of \<open>packages/controls.yaml\<close>.

  Home Assistant.

  \<^item> Const: \<open>const.py\<close>. Models: \<open>models.py\<close>, the parsers of the bridge's payloads with every
    exception they raise. Targets: \<open>targets.py\<close>, the organisation kept in an entry's options.
    IconsSuggested: \<open>icons_suggested.py\<close>.
  \<^item> Transport: \<open>transport.py\<close> over Home Assistant's services, which are the parameter
    \<open>hass_api\<close>. Snapshot: \<open>snapshot.py\<close>. Restore: \<open>restore.py\<close>. Coordinator: \<open>coordinator.py\<close>; its
    unbounded wait is a partial function shown to return within thirty polls.
  \<^item> Reconcile: \<open>reconcile.py\<close>, a state machine (\<open>reconciler\<close>, \<open>rc_step\<close>, \<open>reached\<close>) whose
    effects on Home Assistant are emitted in order. Entities: \<open>entity.py\<close>, \<open>sensor.py\<close>,
    \<open>binary_sensor.py\<close>. Button: \<open>button.py\<close>. Migration: \<open>migration.py\<close>. Devices: \<open>devices.py\<close>.
  \<^item> Runtime: \<open>data.py\<close>, \<open>services.py\<close> and \<open>diagnostics.py\<close>. Setup: \<open>__init__.py\<close>, setting up, polls,
    entry updates, unloading and removing.
  \<^item> Flows: \<open>config_flow.py\<close>, every step of the four flows; FlowLearn, FlowTargets and FlowRebind: what
    the flows promise.

  The two together.

  \<^item> ImportRuns: when a device accepts the imports of a restore. HardwareReplacement: the replica
    taken of one device through its actions and restored through another's makes the other's
    registry the first one's, and the one revision for which it does not. \<open>action_link\<close> in
    DeviceActions says what the two programs rely on ESPHome for: a call arrives with its variables in
    their types, an integer as a signed 32-bit number, and the answer comes back.

  Conventions. A raise of the source is an \<open>Inl\<close> carrying the exception, with its message where
  the source formats one; a result code of the device is a value of \<open>store_result\<close>. Strings are of
  characters below 256. Home Assistant and ESPHome are not part of the repository: a function of
  theirs the code reads from is a parameter, a call that changes their state is recorded in order or
  is a function of the world, and what a property needs of them is a named hypothesis
  (\<open>registry_behaves\<close>, \<open>clock_ok\<close>, \<open>registry_ok\<close>, \<open>setup_laws\<close>, \<open>entry_laws\<close>, \<open>action_link\<close>), each
  with a witness. An update listener runs as an event of its own; a form returns input its schema has
  validated. No fuel is used: every loop is structural, or proved to end.

  Not modelled, and why: log messages, \<open>dump_config\<close> and translations (no effect on the state), the
  storage's \<open>sync\<close> (a write either is made or is not), the preference handles and the drivers of the
  receiver and the transmitter (ESPHome's), the base classes of entities, the polling schedule
  and the locks of Home Assistant, the example configurations, the tests and the docs. A callback
  that acts on the component from within a notification is modelled for failed learns only.
\<close>

end
